theory Spec2Isabelle
  imports Complex_Main
begin

section \<open>Scalars, failures and loops\<close>

text \<open>
  The scalar type \<^verbatim>\<open>su2double\<close> of the sources is read as \<^typ>\<open>real\<close>: the theory
  is about the algebra the routines carry out, not about rounding. Every statement that
  rests on a division names the divisor and asks it to be non-zero, since in HOL
  \<open>x / 0 = 0\<close> while the machine produces an infinity or a NaN.

  Raw C++ arrays whose allocation is not in question are total functions from indices.
  The three scratch buffers that the \<^verbatim>\<open>CGradSmoothing\<close> constructor allocates are lists
  of the allocated length, and every access to them is checked: an access outside the
  allocation is undefined behaviour in C++ and is the value \<open>Inl OutOfBounds\<close> here.
  Dereferencing an accumulator that \<^verbatim>\<open>AllocateStructures\<close> left at \<^verbatim>\<open>NULL\<close> is
  \<open>Inl NullPointer\<close>.
\<close>

type_synonym su2double = real

datatype error = OutOfBounds | NullPointer

definition ebind :: "error + 'a \<Rightarrow> ('a \<Rightarrow> error + 'b) \<Rightarrow> error + 'b" where
  "ebind m f = (case m of Inl e \<Rightarrow> Inl e | Inr x \<Rightarrow> f x)"

text \<open>\<^verbatim>\<open>for (i = a; i < b; i++) body\<close> with a body that can fail is
  \<open>for_loop [a..<b] body\<close>; a body that cannot fail is folded with \<^const>\<open>fold\<close>.\<close>

primrec for_loop :: "nat list \<Rightarrow> (nat \<Rightarrow> 's \<Rightarrow> error + 's) \<Rightarrow> 's \<Rightarrow> error + 's" where
  "for_loop [] body s = Inr s"
| "for_loop (i # is) body s = ebind (body i s) (for_loop is body)"

definition rd1 :: "'a list \<Rightarrow> nat \<Rightarrow> error + 'a" where
  "rd1 xs i = (if i < length xs then Inr (xs ! i) else Inl OutOfBounds)"

definition wr1 :: "'a list \<Rightarrow> nat \<Rightarrow> 'a \<Rightarrow> error + 'a list" where
  "wr1 xs i v = (if i < length xs then Inr (xs[i := v]) else Inl OutOfBounds)"

definition rd2 :: "'a list list \<Rightarrow> nat \<Rightarrow> nat \<Rightarrow> error + 'a" where
  "rd2 xss i j = ebind (rd1 xss i) (\<lambda>row. rd1 row j)"

definition wr2 :: "'a list list \<Rightarrow> nat \<Rightarrow> nat \<Rightarrow> 'a \<Rightarrow> error + 'a list list" where
  "wr2 xss i j v = ebind (rd1 xss i) (\<lambda>row. ebind (wr1 row j v) (\<lambda>row'. wr1 xss i row'))"

section \<open>Data model\<close>

subsection \<open>The finite element (\<^verbatim>\<open>CElement\<close>)\<close>

text \<open>
  The fields are those of \<^verbatim>\<open>CElement\<close> in \<^verbatim>\<open>element_structure.cpp\<close>. The per-Gauss-point
  objects \<^verbatim>\<open>GaussPoint[iGauss]\<close> (class \<^verbatim>\<open>CGaussVariable\<close>, declared outside the given
  sources) are the fields \<open>Ni\<close>, \<open>J_X\<close>, \<open>J_x\<close>, \<open>GradNi_Xj\<close> and \<open>GradNi_xj\<close>, indexed by the
  Gauss point first. Buffers that \<^verbatim>\<open>AllocateStructures\<close> allocates only on demand, and
  that \<^verbatim>\<open>clearElement\<close> guards against \<^verbatim>\<open>NULL\<close>, are options.
\<close>

record CElement =
  CElement_nDim :: nat
  nNodes :: nat
  nGaussPoints :: nat
  CurrentCoord :: "nat \<Rightarrow> nat \<Rightarrow> su2double"
  RefCoord :: "nat \<Rightarrow> nat \<Rightarrow> su2double"
  GaussWeight :: "nat \<Rightarrow> su2double"
  dNiXj :: "nat \<Rightarrow> nat \<Rightarrow> nat \<Rightarrow> su2double"
  Ni :: "nat \<Rightarrow> nat \<Rightarrow> su2double"
  J_X :: "nat \<Rightarrow> su2double"
  J_x :: "nat \<Rightarrow> su2double"
  GradNi_Xj :: "nat \<Rightarrow> nat \<Rightarrow> nat \<Rightarrow> su2double"
  GradNi_xj :: "nat \<Rightarrow> nat \<Rightarrow> nat \<Rightarrow> su2double"
  Mab :: "(nat \<Rightarrow> nat \<Rightarrow> su2double) option"
  Kab :: "(nat \<Rightarrow> nat \<Rightarrow> nat \<Rightarrow> su2double) option"
  Ks_ab :: "(nat \<Rightarrow> nat \<Rightarrow> su2double) option"
  Kt_a :: "(nat \<Rightarrow> nat \<Rightarrow> su2double) option"
  FDL_a :: "(nat \<Rightarrow> nat \<Rightarrow> su2double) option"
  HiHj :: "(nat \<Rightarrow> nat \<Rightarrow> su2double) option"
  DHiDHj :: "(nat \<Rightarrow> nat \<Rightarrow> nat \<Rightarrow> nat \<Rightarrow> su2double) option"

subsection \<open>The numerics object (\<^verbatim>\<open>CGradSmoothing\<close>)\<close>

record CGradSmoothing =
  CNumerics_nDim :: nat
  GradNi_Ref_Mat :: "su2double list list"
  val_DHiDHj :: "su2double list list"
  Ni_Vec :: "su2double list"
  Coord :: "nat \<Rightarrow> nat \<Rightarrow> su2double"

subsection \<open>Configuration and geometry (external collaborators)\<close>

text \<open>Only the getters that the three source files call are kept.\<close>

record CConfig =
  SmoothOnSurface :: bool
  SmoothingParam :: su2double
  SmoothingParamSecond :: su2double
  nMarker_All :: nat
  Marker_All_SobolevBC :: "nat \<Rightarrow> nat"

text \<open>The two answers of the \<^verbatim>\<open>ANSWER\<close> enumeration that \<^verbatim>\<open>Impose_BC\<close> compares with.\<close>

definition NO :: nat where "NO = 0"
definition YES :: nat where "YES = 1"

datatype GEO_TYPE =
  VERTEX | LINE | TRIANGLE | QUADRILATERAL | TETRAHEDRON | HEXAHEDRON | PRISM | PYRAMID

record CPrimalGrid =
  VTK_Type :: GEO_TYPE
  Node :: "nat \<Rightarrow> nat"

record CGeometry =
  elem :: "CPrimalGrid list"
  node_Coord :: "nat \<Rightarrow> nat \<Rightarrow> su2double"
  node_Domain :: "nat \<Rightarrow> bool"
  vertex :: "nat \<Rightarrow> nat list"

subsection \<open>The global system (\<^verbatim>\<open>CGradientSmoothingSolver\<close>)\<close>

text \<open>
  Modelled from the spec: the classes \<^verbatim>\<open>CSysMatrix\<close> and \<^verbatim>\<open>CSysVector\<close> are not among
  the sources. Following section 6 of the specification, the matrix is a store of
  blocks keyed by (node, node) and a vector is point-major, dimension-minor. Both are
  initialised by the constructor with block size \<open>nDim\<close>.
\<close>

type_synonym block = "nat \<Rightarrow> nat \<Rightarrow> su2double"
type_synonym CSysMatrix = "nat \<Rightarrow> nat \<Rightarrow> block"
type_synonym CSysVector = "nat \<Rightarrow> su2double"

definition Mat_SetBlock :: "nat \<Rightarrow> CSysMatrix \<Rightarrow> nat \<Rightarrow> nat \<Rightarrow> block \<Rightarrow> CSysMatrix" where
  "Mat_SetBlock n M i j B =
     (\<lambda>p q a b. if p = i \<and> q = j \<and> a < n \<and> b < n then B a b else M p q a b)"

definition Mat_AddBlock :: "nat \<Rightarrow> CSysMatrix \<Rightarrow> nat \<Rightarrow> nat \<Rightarrow> block \<Rightarrow> CSysMatrix" where
  "Mat_AddBlock n M i j B =
     (\<lambda>p q a b. if p = i \<and> q = j \<and> a < n \<and> b < n then M p q a b + B a b else M p q a b)"

definition Vec_SetBlock :: "nat \<Rightarrow> CSysVector \<Rightarrow> nat \<Rightarrow> (nat \<Rightarrow> su2double) \<Rightarrow> CSysVector" where
  "Vec_SetBlock n v iPoint val =
     (\<lambda>t. if iPoint * n \<le> t \<and> t < iPoint * n + n then val (t - iPoint * n) else v t)"

text \<open>
  The element kinds \<^verbatim>\<open>EL_TRIA\<close>, ... index the element container; their values are
  declared outside the given sources and are parameters of the model.
\<close>

record FE_KINDS =
  EL_TRIA :: int
  EL_QUAD :: int
  EL_TETRA :: int
  EL_HEXA :: int
  EL_PYRAM :: int
  EL_PRISM :: int

record CSolver =
  CSolver_nDim :: nat
  nVar :: nat
  nPoint :: nat
  element_container :: "int \<Rightarrow> CElement option"
  Jacobian_ij :: block
  Solution :: "nat \<Rightarrow> su2double"
  Residual :: "nat \<Rightarrow> su2double"
  LinSysSol :: CSysVector
  LinSysRes :: CSysVector
  Jacobian :: CSysMatrix

text \<open>The auxiliary blocks that the constructor fills once and nobody changes.\<close>

definition mZeros_Aux :: block where
  "mZeros_Aux = (\<lambda>iDim jDim. 0)"

definition mId_Aux :: block where
  "mId_Aux = (\<lambda>iDim jDim. if iDim = jDim then 1 else 0)"

section \<open>Boundary conditions\<close>

text \<open>The body of the vertex loop of \<^verbatim>\<open>BC_Dirichlet\<close>, for the node \<open>iPoint\<close>.\<close>

definition BC_Dirichlet_vertex :: "CGeometry \<Rightarrow> nat \<Rightarrow> CSolver \<Rightarrow> CSolver" where
  "BC_Dirichlet_vertex geometry iPoint s =
     (if node_Domain geometry iPoint then
        let s1 = (if CSolver_nDim s = 2
                  then s\<lparr>Solution := (Solution s)(0 := 0, 1 := 0),
                         Residual := (Residual s)(0 := 0, 1 := 0)\<rparr>
                  else s\<lparr>Solution := (Solution s)(0 := 0, 1 := 0, 2 := 0),
                         Residual := (Residual s)(0 := 0, 1 := 0, 2 := 0)\<rparr>);
            s2 = s1\<lparr>LinSysRes := Vec_SetBlock (CSolver_nDim s1) (LinSysRes s1) iPoint (Residual s1)\<rparr>;
            s3 = s2\<lparr>LinSysSol := Vec_SetBlock (CSolver_nDim s2) (LinSysSol s2) iPoint (Solution s2)\<rparr>;
            s4 = s3\<lparr>Jacobian :=
                      fold (\<lambda>iVar M. if iVar = iPoint
                                      then Mat_SetBlock (CSolver_nDim s3) M iVar iPoint mId_Aux
                                      else Mat_SetBlock (CSolver_nDim s3) M iVar iPoint mZeros_Aux)
                           [0..<nPoint s3] (Jacobian s3)\<rparr>
        in s4\<lparr>Jacobian :=
                 fold (\<lambda>jVar M. if iPoint \<noteq> jVar
                                 then Mat_SetBlock (CSolver_nDim s4) M iPoint jVar mZeros_Aux
                                 else M)
                      [0..<nPoint s4] (Jacobian s4)\<rparr>
      else
        s\<lparr>Jacobian :=
             fold (\<lambda>iVar M. Mat_SetBlock (CSolver_nDim s) M iVar iPoint mZeros_Aux)
                  [0..<nPoint s] (Jacobian s)\<rparr>)"

definition BC_Dirichlet :: "CGeometry \<Rightarrow> nat \<Rightarrow> CSolver \<Rightarrow> CSolver" where
  "BC_Dirichlet geometry val_marker s =
     fold (BC_Dirichlet_vertex geometry) (vertex geometry val_marker) s"

definition BC_Neumann :: "CGeometry \<Rightarrow> nat \<Rightarrow> CSolver \<Rightarrow> CSolver" where
  "BC_Neumann geometry val_marker s = s"

definition Impose_BC_marker :: "CGeometry \<Rightarrow> CConfig \<Rightarrow> nat \<Rightarrow> CSolver \<Rightarrow> CSolver" where
  "Impose_BC_marker geometry config iMarker s =
     (let s1 = (if Marker_All_SobolevBC config iMarker = NO
                then BC_Dirichlet geometry iMarker s else s)
      in if Marker_All_SobolevBC config iMarker = YES
         then BC_Neumann geometry iMarker s1 else s1)"

definition Impose_BC :: "CGeometry \<Rightarrow> CConfig \<Rightarrow> CSolver \<Rightarrow> CSolver" where
  "Impose_BC geometry config s =
     fold (Impose_BC_marker geometry config) [0..<nMarker_All config] s"

text \<open>The nodes that \<^verbatim>\<open>Impose_BC\<close> hands to the Dirichlet treatment, in the order of the
  marker loop and of the vertex loop.\<close>

definition Dirichlet_vertices :: "CGeometry \<Rightarrow> CConfig \<Rightarrow> nat list" where
  "Dirichlet_vertices geometry config =
     concat (map (vertex geometry)
       (filter (\<lambda>iMarker. Marker_All_SobolevBC config iMarker = NO) [0..<nMarker_All config]))"


section \<open>The finite element: \<^verbatim>\<open>element_structure.cpp\<close>\<close>

text \<open>Assignments \<^verbatim>\<open>A[i][j] = v\<close>, \<^verbatim>\<open>A[i][j][k] = v\<close> and \<^verbatim>\<open>A[i][j][k][l] = v\<close> to raw
  arrays.\<close>

definition upd2 :: "(nat \<Rightarrow> nat \<Rightarrow> 'a) \<Rightarrow> nat \<Rightarrow> nat \<Rightarrow> 'a \<Rightarrow> nat \<Rightarrow> nat \<Rightarrow> 'a" where
  "upd2 A i j v = A(i := (A i)(j := v))"

definition upd3 :: "(nat \<Rightarrow> nat \<Rightarrow> nat \<Rightarrow> 'a) \<Rightarrow> nat \<Rightarrow> nat \<Rightarrow> nat \<Rightarrow> 'a
    \<Rightarrow> nat \<Rightarrow> nat \<Rightarrow> nat \<Rightarrow> 'a" where
  "upd3 A i j k v = A(i := upd2 (A i) j k v)"

definition upd4 :: "(nat \<Rightarrow> nat \<Rightarrow> nat \<Rightarrow> nat \<Rightarrow> 'a) \<Rightarrow> nat \<Rightarrow> nat \<Rightarrow> nat \<Rightarrow> nat \<Rightarrow> 'a
    \<Rightarrow> nat \<Rightarrow> nat \<Rightarrow> nat \<Rightarrow> nat \<Rightarrow> 'a" where
  "upd4 A i j k l v = A(i := upd3 (A i) j k l v)"

subsection \<open>Accessors\<close>

text \<open>
  Modelled from the spec: the inline accessors of \<^verbatim>\<open>CElement\<close> and \<^verbatim>\<open>CGaussVariable\<close> are
  declared in headers that are not among the sources. Each reads or writes the array
  its name says (section 3 of the specification: weight, shape values \<open>Ni\<close>, Jacobian
  value, physical gradients \<open>GradNi_X\<close>, accumulators \<open>DHiDHj[i][j]\<close> and \<open>HiHj[i][j]\<close>);
  \<^verbatim>\<open>Add_HiHj\<close> accumulates into the scalar \<open>HiHj[i][j]\<close> (section 4.2).
\<close>

definition GetWeight :: "CElement \<Rightarrow> nat \<Rightarrow> su2double" where
  "GetWeight el iGauss = GaussWeight el iGauss"

definition GetJ_X :: "CElement \<Rightarrow> nat \<Rightarrow> su2double" where
  "GetJ_X el iGauss = J_X el iGauss"

definition GetNi :: "CElement \<Rightarrow> nat \<Rightarrow> nat \<Rightarrow> su2double" where
  "GetNi el iNode iGauss = Ni el iGauss iNode"

definition GetGradNi_X :: "CElement \<Rightarrow> nat \<Rightarrow> nat \<Rightarrow> nat \<Rightarrow> su2double" where
  "GetGradNi_X el iNode iGauss iDim = GradNi_Xj el iGauss iNode iDim"

text \<open>
  \<^verbatim>\<open>SetRef_Coord\<close> writes \<^verbatim>\<open>RefCoord[iNode][iDim]\<close>. \<^verbatim>\<open>AllocateStructures\<close> gives \<^verbatim>\<open>RefCoord\<close>
  \<open>nNodes\<close> rows of \<open>nDim\<close> entries, and the accessor does not test its indices (section
  4.1 of the specification: the caller guarantees \<open>node < nNodes\<close> and \<open>dim < nDim\<close>). A
  write outside these extents leaves the allocation.
\<close>

definition SetRef_Coord :: "CElement \<Rightarrow> su2double \<Rightarrow> nat \<Rightarrow> nat \<Rightarrow> error + CElement" where
  "SetRef_Coord el val_CoordRef iNode iDim =
     (if iNode < nNodes el \<and> iDim < CElement_nDim el
      then Inr (el\<lparr>RefCoord := upd2 (RefCoord el) iNode iDim val_CoordRef\<rparr>)
      else Inl OutOfBounds)"

definition SetJ_X :: "CElement \<Rightarrow> nat \<Rightarrow> su2double \<Rightarrow> CElement" where
  "SetJ_X el iGauss valJ_X = el\<lparr>J_X := (J_X el)(iGauss := valJ_X)\<rparr>"

definition SetJ_x :: "CElement \<Rightarrow> nat \<Rightarrow> su2double \<Rightarrow> CElement" where
  "SetJ_x el iGauss valJ_x = el\<lparr>J_x := (J_x el)(iGauss := valJ_x)\<rparr>"

definition SetGradNi_Xj :: "CElement \<Rightarrow> nat \<Rightarrow> su2double \<Rightarrow> nat \<Rightarrow> nat \<Rightarrow> CElement" where
  "SetGradNi_Xj el iGauss val_GradNi_Xj val_iDim val_Ni =
     el\<lparr>GradNi_Xj := upd3 (GradNi_Xj el) iGauss val_Ni val_iDim val_GradNi_Xj\<rparr>"

definition SetGradNi_xj :: "CElement \<Rightarrow> nat \<Rightarrow> su2double \<Rightarrow> nat \<Rightarrow> nat \<Rightarrow> CElement" where
  "SetGradNi_xj el iGauss val_GradNi_xj val_iDim val_Ni =
     el\<lparr>GradNi_xj := upd3 (GradNi_xj el) iGauss val_Ni val_iDim val_GradNi_xj\<rparr>"

definition Add_HiHj :: "CElement \<Rightarrow> su2double \<Rightarrow> nat \<Rightarrow> nat \<Rightarrow> error + CElement" where
  "Add_HiHj el val nodeA nodeB =
     (case HiHj el of
        None \<Rightarrow> Inl NullPointer
      | Some H \<Rightarrow> Inr (el\<lparr>HiHj := Some (upd2 H nodeA nodeB (H nodeA nodeB + val))\<rparr>))"

subsection \<open>Accumulation of a stiffness block\<close>

text \<open>\<^verbatim>\<open>Add_DHiDHj\<close> and \<^verbatim>\<open>Add_DHiDHj_T\<close> read the caller's buffer \<open>val\<close> over the element's
  own \<open>nDim\<close>.\<close>

definition Add_DHiDHj :: "CElement \<Rightarrow> su2double list list \<Rightarrow> nat \<Rightarrow> nat \<Rightarrow> error + CElement" where
  "Add_DHiDHj el val nodeA nodeB =
     for_loop [0..<CElement_nDim el] (\<lambda>iDim.
       for_loop [0..<CElement_nDim el] (\<lambda>jDim el.
         ebind (rd2 val iDim jDim) (\<lambda>v.
           case DHiDHj el of
             None \<Rightarrow> Inl NullPointer
           | Some D \<Rightarrow>
               Inr (el\<lparr>DHiDHj := Some (upd4 D nodeA nodeB iDim jDim
                                          (D nodeA nodeB iDim jDim + v))\<rparr>)))) el"

definition Add_DHiDHj_T :: "CElement \<Rightarrow> su2double list list \<Rightarrow> nat \<Rightarrow> nat \<Rightarrow> error + CElement" where
  "Add_DHiDHj_T el val nodeA nodeB =
     for_loop [0..<CElement_nDim el] (\<lambda>iDim.
       for_loop [0..<CElement_nDim el] (\<lambda>jDim el.
         ebind (rd2 val jDim iDim) (\<lambda>v.
           case DHiDHj el of
             None \<Rightarrow> Inl NullPointer
           | Some D \<Rightarrow>
               Inr (el\<lparr>DHiDHj := Some (upd4 D nodeA nodeB iDim jDim
                                          (D nodeA nodeB iDim jDim + v))\<rparr>)))) el"

subsection \<open>\<^verbatim>\<open>clearElement\<close>\<close>

definition clearElement :: "CElement \<Rightarrow> bool \<Rightarrow> CElement" where
  "clearElement el gradient_smoothing =
     (let nDimSq = CElement_nDim el * CElement_nDim el;
          el1 =
            fold (\<lambda>iNode el.
              let el_a =
                    fold (\<lambda>iDim el.
                      let e1 = (case Kt_a el of
                                  None \<Rightarrow> el
                                | Some K \<Rightarrow> el\<lparr>Kt_a := Some (upd2 K iNode iDim 0)\<rparr>)
                      in (case FDL_a e1 of
                            None \<Rightarrow> e1
                          | Some F \<Rightarrow> e1\<lparr>FDL_a := Some (upd2 F iNode iDim 0)\<rparr>))
                      [0..<CElement_nDim el] el
              in fold (\<lambda>jNode el.
                        let e1 = (case Ks_ab el of
                                    None \<Rightarrow> el
                                  | Some K \<Rightarrow> el\<lparr>Ks_ab := Some (upd2 K iNode jNode 0)\<rparr>);
                            e2 = (case Mab e1 of
                                    None \<Rightarrow> e1
                                  | Some M \<Rightarrow> e1\<lparr>Mab := Some (upd2 M iNode jNode 0)\<rparr>)
                        in fold (\<lambda>iDim el.
                                  case Kab el of
                                    None \<Rightarrow> el
                                  | Some K \<Rightarrow> el\<lparr>Kab := Some (upd3 K iNode jNode iDim 0)\<rparr>)
                                [0..<nDimSq] e2)
                      [0..<nNodes el] el_a)
              [0..<nNodes el] el
      in if gradient_smoothing then
           fold (\<lambda>iNode.
             fold (\<lambda>jNode el.
               let e1 = (case HiHj el of
                           None \<Rightarrow> el
                         | Some H \<Rightarrow> el\<lparr>HiHj := Some (upd2 H iNode jNode 0)\<rparr>)
               in fold (\<lambda>iDim.
                         fold (\<lambda>jDim el.
                           case DHiDHj el of
                             None \<Rightarrow> el
                           | Some D \<Rightarrow> el\<lparr>DHiDHj := Some (upd4 D iNode jNode iDim jDim 0)\<rparr>)
                           [0..<CElement_nDim el])
                       [0..<CElement_nDim el] e1)
               [0..<nNodes el])
             [0..<nNodes el] el1
         else el1)"

subsection \<open>Gradients of the shape functions\<close>

datatype FrameType = REFERENCE | CURRENT

text \<open>An accumulation \<^verbatim>\<open>acc = 0; for (k = 0; k < n; k++) acc += term(k)\<close>.\<close>

definition accumulate :: "nat \<Rightarrow> (nat \<Rightarrow> su2double) \<Rightarrow> su2double" where
  "accumulate n term = fold (\<lambda>k acc. acc + term k) [0..<n] 0"

text \<open>One dimension, flat: the Jacobian is the length of the segment.\<close>

definition ComputeGrad_1D_gauss :: "FrameType \<Rightarrow> nat \<Rightarrow> CElement \<Rightarrow> CElement" where
  "ComputeGrad_1D_gauss mode iGauss el =
     (let C = (if mode = REFERENCE then RefCoord el else CurrentCoord el);
          Jacobian = C 1 0 - C 0 0;
          dN = dNiXj el iGauss;
          el1 = (if mode = REFERENCE then SetJ_X el iGauss Jacobian
                 else SetJ_x el iGauss Jacobian)
      in fold (\<lambda>iNode el.
                if mode = REFERENCE
                then SetGradNi_Xj el iGauss (dN iNode 0 / Jacobian) 0 iNode
                else SetGradNi_xj el iGauss (dN iNode 0 / Jacobian) 0 iNode)
              [0..<nNodes el] el1)"

definition ComputeGrad_1D :: "FrameType \<Rightarrow> CElement \<Rightarrow> CElement" where
  "ComputeGrad_1D mode el = fold (ComputeGrad_1D_gauss mode) [0..<nGaussPoints el] el"

text \<open>One parametric dimension in the plane (the curved case): \<open>Coord\<close> is the caller's
  table of node coordinates.\<close>

definition JTJ_1D :: "(nat \<Rightarrow> nat \<Rightarrow> su2double) \<Rightarrow> su2double" where
  "JTJ_1D C = (C 1 0 - C 0 0) * (C 1 0 - C 0 0) + (C 1 1 - C 0 1) * (C 1 1 - C 0 1)"

definition ComputeGrad_1D_Coord :: "(nat \<Rightarrow> nat \<Rightarrow> su2double) \<Rightarrow> CElement \<Rightarrow> CElement" where
  "ComputeGrad_1D_Coord C el =
     (let Jacobian = (\<lambda>iDim. if iDim = 0 then C 1 0 - C 0 0 else C 1 1 - C 0 1);
          JTJ = Jacobian 0 * Jacobian 0 + Jacobian 1 * Jacobian 1;
          volJacobian = sqrt JTJ
      in fold (\<lambda>iGauss el.
                let dN = dNiXj el iGauss
                in fold (\<lambda>iNode.
                          fold (\<lambda>iDim el.
                                 SetGradNi_Xj el iGauss (Jacobian iDim * dN iNode 0 / JTJ) iDim iNode)
                               [0..<2])
                        [0..<nNodes el] (SetJ_X el iGauss volJacobian))
              [0..<nGaussPoints el] el)"

text \<open>Two dimensions, flat. \<open>Jacobian_flat\<close> (shared with three dimensions) is the array \<^verbatim>\<open>Jacobian\<close> after the accumulation
  over the nodes, \<open>ad_2D\<close> its adjugate, \<open>detJac_2D\<close> the determinant and \<open>TrafoJacobi\<close> the
  value computed from the edge vectors of the first three nodes.\<close>

definition Jacobian_flat :: "(nat \<Rightarrow> nat \<Rightarrow> su2double) \<Rightarrow> (nat \<Rightarrow> nat \<Rightarrow> su2double) \<Rightarrow> nat
    \<Rightarrow> nat \<Rightarrow> nat \<Rightarrow> su2double" where
  "Jacobian_flat C dN n iDim jDim = accumulate n (\<lambda>iNode. C iNode jDim * dN iNode iDim)"

definition ad_2D :: "(nat \<Rightarrow> nat \<Rightarrow> su2double) \<Rightarrow> nat \<Rightarrow> nat \<Rightarrow> su2double" where
  "ad_2D J iDim jDim =
     (if iDim = 0 then (if jDim = 0 then J 1 1 else - J 0 1)
      else (if jDim = 0 then - J 1 0 else J 0 0))"

definition detJac_2D :: "(nat \<Rightarrow> nat \<Rightarrow> su2double) \<Rightarrow> su2double" where
  "detJac_2D J = ad_2D J 0 0 * ad_2D J 1 1 - ad_2D J 0 1 * ad_2D J 1 0"

definition TrafoJacobi :: "(nat \<Rightarrow> nat \<Rightarrow> su2double) \<Rightarrow> su2double" where
  "TrafoJacobi C = \<bar>(C 1 0 - C 0 0) * (C 2 1 - C 0 1) - (C 2 0 - C 0 0) * (C 1 1 - C 0 1)\<bar>"

definition ComputeGrad_2D_gauss :: "FrameType \<Rightarrow> nat \<Rightarrow> CElement \<Rightarrow> CElement" where
  "ComputeGrad_2D_gauss mode iGauss el =
     (let C = (if mode = REFERENCE then RefCoord el else CurrentCoord el);
          dN = dNiXj el iGauss;
          Jacobian = Jacobian_flat C dN (nNodes el);
          ad = ad_2D Jacobian;
          detJac = detJac_2D Jacobian;
          el1 = (if mode = REFERENCE then SetJ_X el iGauss (TrafoJacobi C)
                 else SetJ_x el iGauss detJac);
          Jacobian_inv = (\<lambda>iDim jDim. ad iDim jDim / detJac)
      in fold (\<lambda>iNode.
                fold (\<lambda>iDim el.
                       let GradNi_Xj = accumulate 2 (\<lambda>jDim. Jacobian_inv iDim jDim * dN iNode jDim)
                       in if mode = REFERENCE
                          then SetGradNi_Xj el iGauss GradNi_Xj iDim iNode
                          else SetGradNi_xj el iGauss GradNi_Xj iDim iNode)
                     [0..<2])
              [0..<nNodes el] el1)"

definition ComputeGrad_2D :: "FrameType \<Rightarrow> CElement \<Rightarrow> CElement" where
  "ComputeGrad_2D mode el = fold (ComputeGrad_2D_gauss mode) [0..<nGaussPoints el] el"

text \<open>Two parametric dimensions in space (the curved case). \<open>Jacobian_surf\<close> holds the two
  edge vectors from node 0 as its columns, \<open>JTJ_surf\<close> is the normal-equation matrix,
  \<open>JTJinv_surf\<close> its inverse by the adjugate formula and \<open>Jdagger_surf\<close> the product of
  that inverse with the transposed Jacobian.\<close>

definition Jacobian_surf :: "(nat \<Rightarrow> nat \<Rightarrow> su2double) \<Rightarrow> nat \<Rightarrow> nat \<Rightarrow> su2double" where
  "Jacobian_surf C iDim jVertex = C (jVertex + 1) iDim - C 0 iDim"

definition JTJ_surf :: "(nat \<Rightarrow> nat \<Rightarrow> su2double) \<Rightarrow> nat \<Rightarrow> nat \<Rightarrow> su2double" where
  "JTJ_surf C iDim jDim =
     accumulate 3 (\<lambda>kDim. Jacobian_surf C kDim iDim * Jacobian_surf C kDim jDim)"

definition detJacobian_surf :: "(nat \<Rightarrow> nat \<Rightarrow> su2double) \<Rightarrow> su2double" where
  "detJacobian_surf C = JTJ_surf C 0 0 * JTJ_surf C 1 1 - JTJ_surf C 0 1 * JTJ_surf C 1 0"

definition JTJinv_surf :: "(nat \<Rightarrow> nat \<Rightarrow> su2double) \<Rightarrow> nat \<Rightarrow> nat \<Rightarrow> su2double" where
  "JTJinv_surf C iDim jDim =
     (if iDim = 0 then (if jDim = 0 then JTJ_surf C 1 1 / detJacobian_surf C
                        else - JTJ_surf C 0 1 / detJacobian_surf C)
      else (if jDim = 0 then - JTJ_surf C 1 0 / detJacobian_surf C
            else JTJ_surf C 0 0 / detJacobian_surf C))"

definition Jdagger_surf :: "(nat \<Rightarrow> nat \<Rightarrow> su2double) \<Rightarrow> nat \<Rightarrow> nat \<Rightarrow> su2double" where
  "Jdagger_surf C iDim jDim =
     accumulate 2 (\<lambda>kDim. JTJinv_surf C iDim kDim * Jacobian_surf C jDim kDim)"

definition ComputeGrad_2D_Coord_gauss :: "(nat \<Rightarrow> nat \<Rightarrow> su2double) \<Rightarrow> nat \<Rightarrow> CElement \<Rightarrow> CElement" where
  "ComputeGrad_2D_Coord_gauss C iGauss el =
     (let volJacobian = sqrt (detJacobian_surf C);
          dN = dNiXj el iGauss
      in fold (\<lambda>iShape.
                fold (\<lambda>iDim el.
                       SetGradNi_Xj el iGauss
                         (accumulate 2 (\<lambda>jDim. Jdagger_surf C jDim iDim * dN iShape jDim))
                         iDim iShape)
                     [0..<3])
              [0..<nNodes el] (SetJ_X el iGauss volJacobian))"

definition ComputeGrad_2D_Coord :: "(nat \<Rightarrow> nat \<Rightarrow> su2double) \<Rightarrow> CElement \<Rightarrow> CElement" where
  "ComputeGrad_2D_Coord C el = fold (ComputeGrad_2D_Coord_gauss C) [0..<nGaussPoints el] el"

text \<open>Three dimensions, flat.\<close>

definition ad_3D :: "(nat \<Rightarrow> nat \<Rightarrow> su2double) \<Rightarrow> nat \<Rightarrow> nat \<Rightarrow> su2double" where
  "ad_3D J iDim jDim =
     [[J 1 1 * J 2 2 - J 1 2 * J 2 1, J 0 2 * J 2 1 - J 0 1 * J 2 2, J 0 1 * J 1 2 - J 0 2 * J 1 1],
      [J 1 2 * J 2 0 - J 1 0 * J 2 2, J 0 0 * J 2 2 - J 0 2 * J 2 0, J 0 2 * J 1 0 - J 0 0 * J 1 2],
      [J 1 0 * J 2 1 - J 1 1 * J 2 0, J 0 1 * J 2 0 - J 0 0 * J 2 1, J 0 0 * J 1 1 - J 0 1 * J 1 0]]
     ! iDim ! jDim"

definition detJac_3D :: "(nat \<Rightarrow> nat \<Rightarrow> su2double) \<Rightarrow> su2double" where
  "detJac_3D J = J 0 0 * ad_3D J 0 0 + J 0 1 * ad_3D J 1 0 + J 0 2 * ad_3D J 2 0"

definition ComputeGrad_3D_gauss :: "FrameType \<Rightarrow> nat \<Rightarrow> CElement \<Rightarrow> CElement" where
  "ComputeGrad_3D_gauss mode iGauss el =
     (let C = (if mode = REFERENCE then RefCoord el else CurrentCoord el);
          dN = dNiXj el iGauss;
          Jacobian = Jacobian_flat C dN (nNodes el);
          ad = ad_3D Jacobian;
          detJac = detJac_3D Jacobian;
          el1 = (if mode = REFERENCE then SetJ_X el iGauss detJac
                 else SetJ_x el iGauss detJac);
          Jacobian_inv = (\<lambda>iDim jDim. ad iDim jDim / detJac)
      in fold (\<lambda>iNode.
                fold (\<lambda>iDim el.
                       let GradNi_Xj = accumulate 3 (\<lambda>jDim. Jacobian_inv iDim jDim * dN iNode jDim)
                       in if mode = REFERENCE
                          then SetGradNi_Xj el iGauss GradNi_Xj iDim iNode
                          else SetGradNi_xj el iGauss GradNi_Xj iDim iNode)
                     [0..<3])
              [0..<nNodes el] el1)"

definition ComputeGrad_3D :: "FrameType \<Rightarrow> CElement \<Rightarrow> CElement" where
  "ComputeGrad_3D mode el = fold (ComputeGrad_3D_gauss mode) [0..<nGaussPoints el] el"

text \<open>The two overloads of \<^verbatim>\<open>ComputeGrad_Linear\<close>.\<close>

definition ComputeGrad_Linear :: "CElement \<Rightarrow> CElement" where
  "ComputeGrad_Linear el =
     (if CElement_nDim el = 1 then ComputeGrad_1D REFERENCE el
      else if CElement_nDim el = 2 then ComputeGrad_2D REFERENCE el
      else ComputeGrad_3D REFERENCE el)"

definition ComputeGrad_Linear_Coord :: "(nat \<Rightarrow> nat \<Rightarrow> su2double) \<Rightarrow> CElement \<Rightarrow> CElement" where
  "ComputeGrad_Linear_Coord C el =
     (if CElement_nDim el = 1 then ComputeGrad_1D_Coord C el
      else ComputeGrad_2D_Coord C el)"


section \<open>The local operator: \<^verbatim>\<open>numerics_gradient_smoothing.cpp\<close>\<close>

text \<open>The constructor allocates \<^verbatim>\<open>GradNi_Ref_Mat\<close> as 8 rows of \<open>nDim\<close> entries,
  \<^verbatim>\<open>val_DHiDHj\<close> as \<open>nDim\<close> rows of \<open>nDim\<close> entries and \<^verbatim>\<open>Ni_Vec\<close> as 8 entries. The
  entries are not initialised in C++; here they start at zero, and \<open>allocated\<close> speaks
  of the extents only.\<close>

definition CGradSmoothing_new :: "nat \<Rightarrow> CGradSmoothing" where
  "CGradSmoothing_new val_nDim =
     \<lparr>CNumerics_nDim = val_nDim,
      GradNi_Ref_Mat = replicate 8 (replicate val_nDim 0),
      val_DHiDHj = replicate val_nDim (replicate val_nDim 0),
      Ni_Vec = replicate 8 0,
      Coord = (\<lambda>iNode iDim. 0)\<rparr>"

definition allocated :: "CGradSmoothing \<Rightarrow> bool" where
  "allocated num \<longleftrightarrow>
     length (GradNi_Ref_Mat num) = 8
     \<and> (\<forall>row \<in> set (GradNi_Ref_Mat num). length row = CNumerics_nDim num)
     \<and> length (val_DHiDHj num) = CNumerics_nDim num
     \<and> (\<forall>row \<in> set (val_DHiDHj num). length row = CNumerics_nDim num)
     \<and> length (Ni_Vec num) = 8"

definition SetCoord :: "CGradSmoothing \<Rightarrow> (nat \<Rightarrow> nat \<Rightarrow> su2double) \<Rightarrow> CGradSmoothing" where
  "SetCoord num val_coord = num\<lparr>Coord := val_coord\<rparr>"

text \<open>The body of the pair loop of the stiffness pass. The state is the numerics
  object, the element and the local \<^verbatim>\<open>GradNiXGradNj\<close>, which lives across iterations.\<close>

definition stiffness_pair :: "nat \<Rightarrow> nat \<Rightarrow> su2double \<Rightarrow> su2double \<Rightarrow> su2double \<Rightarrow> nat \<Rightarrow> nat
    \<Rightarrow> CGradSmoothing \<times> CElement \<times> su2double
    \<Rightarrow> error + CGradSmoothing \<times> CElement \<times> su2double" where
  "stiffness_pair nDim nDimGlobal epsilon Weight Jac_X iShape jShape =
     (\<lambda>(num, el, GradNiXGradNj).
        ebind (for_loop [0..<nDimGlobal] (\<lambda>iDim acc.
                 ebind (rd2 (GradNi_Ref_Mat num) iShape iDim) (\<lambda>gi.
                 ebind (rd2 (GradNi_Ref_Mat num) jShape iDim) (\<lambda>gj.
                   Inr (acc + gi * gj)))) GradNiXGradNj)
          (\<lambda>GradNiXGradNj.
        ebind (for_loop [0..<nDim] (\<lambda>iDim.
                 for_loop [0..<nDim] (\<lambda>jDim num.
                   ebind (wr2 (val_DHiDHj num) iDim jDim
                            (if iDim = jDim
                             then Weight * Jac_X * epsilon * epsilon * GradNiXGradNj
                             else 0))
                     (\<lambda>V. Inr (num\<lparr>val_DHiDHj := V\<rparr>)))) num)
          (\<lambda>num.
        ebind (Add_DHiDHj el (val_DHiDHj num) iShape jShape)
          (\<lambda>el.
        ebind (if iShape \<noteq> jShape
               then Add_DHiDHj_T el (val_DHiDHj num) jShape iShape
               else Inr el)
          (\<lambda>el. Inr (num, el, 0))))))"

text \<open>The body of the first loop over the Gauss points.\<close>

definition stiffness_gauss :: "nat \<Rightarrow> nat \<Rightarrow> su2double \<Rightarrow> nat \<Rightarrow> nat
    \<Rightarrow> CGradSmoothing \<times> CElement \<times> su2double
    \<Rightarrow> error + CGradSmoothing \<times> CElement \<times> su2double" where
  "stiffness_gauss nDim nDimGlobal epsilon nNode iGauss =
     (\<lambda>(num, el, GradNiXGradNj).
        let Weight = GetWeight el iGauss;
            Jac_X = GetJ_X el iGauss
        in ebind (for_loop [0..<nNode] (\<lambda>iShape.
                    for_loop [0..<nDimGlobal] (\<lambda>iDim num.
                      ebind (wr2 (GradNi_Ref_Mat num) iShape iDim
                               (GetGradNi_X el iShape iGauss iDim))
                        (\<lambda>G. Inr (num\<lparr>GradNi_Ref_Mat := G\<rparr>)))) num)
             (\<lambda>num.
                for_loop [0..<nNode] (\<lambda>iShape.
                  for_loop [iShape..<nNode]
                    (stiffness_pair nDim nDimGlobal epsilon Weight Jac_X iShape))
                  (num, el, GradNiXGradNj)))"

text \<open>The body of the second loop over the Gauss points.\<close>

definition mass_gauss :: "su2double \<Rightarrow> nat \<Rightarrow> nat \<Rightarrow> CGradSmoothing \<times> CElement
    \<Rightarrow> error + CGradSmoothing \<times> CElement" where
  "mass_gauss zeta nNode iGauss =
     (\<lambda>(num, el).
        let Weight = GetWeight el iGauss;
            Jac_X = GetJ_X el iGauss
        in ebind (for_loop [0..<nNode] (\<lambda>iShape num.
                    ebind (wr1 (Ni_Vec num) iShape (GetNi el iShape iGauss))
                      (\<lambda>N. Inr (num\<lparr>Ni_Vec := N\<rparr>))) num)
             (\<lambda>num.
                ebind (for_loop [0..<nNode] (\<lambda>iShape.
                         for_loop [0..<nNode] (\<lambda>jShape el.
                           ebind (rd1 (Ni_Vec num) iShape) (\<lambda>ni.
                           ebind (rd1 (Ni_Vec num) jShape) (\<lambda>nj.
                             Add_HiHj el (Weight * Jac_X * zeta * ni * nj) iShape jShape)))) el)
                  (\<lambda>el. Inr (num, el))))"

text \<open>The element as \<^verbatim>\<open>Compute_Tangent_Matrix\<close> prepares it: accumulators cleared,
  gradients computed in the configuration the run is in.\<close>

definition prepare_element :: "CGradSmoothing \<Rightarrow> CElement \<Rightarrow> CConfig \<Rightarrow> CElement" where
  "prepare_element num element config =
     (let el = clearElement element True
      in if SmoothOnSurface config then ComputeGrad_Linear_Coord (Coord num) el
         else ComputeGrad_Linear el)"

definition Compute_Tangent_Matrix :: "CGradSmoothing \<Rightarrow> CElement \<Rightarrow> CConfig
    \<Rightarrow> error + CGradSmoothing \<times> CElement" where
  "Compute_Tangent_Matrix num element config =
     (let nDim = CNumerics_nDim num;
          nDimGlobal = (if SmoothOnSurface config then nDim + 1 else nDim);
          GradNiXGradNj = 0;
          epsilon = SmoothingParam config;
          zeta = SmoothingParamSecond config;
          el = prepare_element num element config;
          nNode = nNodes el;
          nGauss = nGaussPoints el
      in ebind (for_loop [0..<nGauss] (stiffness_gauss nDim nDimGlobal epsilon nNode)
                  (num, el, GradNiXGradNj))
           (\<lambda>(num, el, GradNiXGradNj).
              for_loop [0..<nGauss] (mass_gauss zeta nNode) (num, el)))"


section \<open>The global assembly: \<^verbatim>\<open>solver_gradient_smoothing.cpp\<close>\<close>

subsection \<open>\<^verbatim>\<open>Compute_StiffMatrix\<close>\<close>

text \<open>
  The locals of \<^verbatim>\<open>Compute_StiffMatrix\<close> that live across the iterations of the element
  loop, next to the solver and the numerics object: \<^verbatim>\<open>nNodes\<close> (initially 0),
  \<^verbatim>\<open>EL_KIND\<close> (initially 0) and the array \<^verbatim>\<open>indexNode[8]\<close> (initially all 0).
\<close>

record StiffMatrix_state =
  st_solver :: CSolver
  st_numerics :: CGradSmoothing
  st_nNodes :: nat
  st_EL_KIND :: int
  st_indexNode :: "nat list"

text \<open>The six tests on the VTK type, one after the other and without an \<^verbatim>\<open>else\<close>: a
  type that none of them matches leaves \<^verbatim>\<open>nNodes\<close> and \<^verbatim>\<open>EL_KIND\<close> as they were.\<close>

definition tag_dispatch :: "FE_KINDS \<Rightarrow> GEO_TYPE \<Rightarrow> nat \<times> int \<Rightarrow> nat \<times> int" where
  "tag_dispatch kinds t nk =
     (let nk1 = (if t = TRIANGLE then (3, EL_TRIA kinds) else nk);
          nk2 = (if t = QUADRILATERAL then (4, EL_QUAD kinds) else nk1);
          nk3 = (if t = TETRAHEDRON then (4, EL_TETRA kinds) else nk2);
          nk4 = (if t = PYRAMID then (5, EL_PYRAM kinds) else nk3);
          nk5 = (if t = PRISM then (6, EL_PRISM kinds) else nk4)
      in if t = HEXAHEDRON then (8, EL_HEXA kinds) else nk5)"

text \<open>
  Modelled from the spec: \<^verbatim>\<open>Get_ValCoord\<close>, \<^verbatim>\<open>Get_DHiDHj\<close>, \<^verbatim>\<open>GetDHiHj\<close> and the constant
  \<^verbatim>\<open>Gradient_Map\<close> are declared outside the given sources. Following section 4.3 of the
  specification, the coordinate copied into the element is the coordinate of the mesh
  node, the block read is \<open>DHiDHj[i][j]\<close> and the scalar read is \<open>HiHj[i][j]\<close> of the same
  element handler. The unused read \<^verbatim>\<open>Get_DHiHj\<close> is left out.
\<close>

definition Get_ValCoord :: "CGeometry \<Rightarrow> nat \<Rightarrow> nat \<Rightarrow> su2double" where
  "Get_ValCoord geometry indexNode iDim = node_Coord geometry indexNode iDim"

text \<open>
  Modelled from the spec: the classes of the mesh elements (\<^verbatim>\<open>CPrimalGrid\<close> and its
  descendants) are not among the sources. Following section 5 of the specification the
  geometry supplies, per element, the node count and the global node indices; the node
  array of a mesh element has as many entries as its VTK type has corners, and
  \<^verbatim>\<open>GetNode\<close> reads it without testing the index.
\<close>

definition grid_nNodes :: "GEO_TYPE \<Rightarrow> nat" where
  "grid_nNodes t =
     (case t of VERTEX \<Rightarrow> 1 | LINE \<Rightarrow> 2 | TRIANGLE \<Rightarrow> 3 | QUADRILATERAL \<Rightarrow> 4
      | TETRAHEDRON \<Rightarrow> 4 | HEXAHEDRON \<Rightarrow> 8 | PRISM \<Rightarrow> 6 | PYRAMID \<Rightarrow> 5)"

definition GetNode :: "CPrimalGrid \<Rightarrow> nat \<Rightarrow> error + nat" where
  "GetNode e iNode =
     (if iNode < grid_nNodes (VTK_Type e) then Inr (Node e iNode) else Inl OutOfBounds)"

text \<open>The copy of the node indices and coordinates of a mesh element into \<^verbatim>\<open>indexNode\<close>
  and into the handler \<^verbatim>\<open>element_container[GRAD_TERM][EL_KIND]\<close>.\<close>

definition copy_coordinates :: "CGeometry \<Rightarrow> CPrimalGrid \<Rightarrow> nat \<Rightarrow> nat \<Rightarrow> int
    \<Rightarrow> nat list \<times> (int \<Rightarrow> CElement option) \<Rightarrow> error + nat list \<times> (int \<Rightarrow> CElement option)" where
  "copy_coordinates geometry e nDim nNodes_e EL_KIND =
     for_loop [0..<nNodes_e] (\<lambda>iNode (indexNode, container).
       ebind (GetNode e iNode) (\<lambda>node.
       ebind (wr1 indexNode iNode node) (\<lambda>indexNode.
       ebind (for_loop [0..<nDim] (\<lambda>iDim container.
                ebind (rd1 indexNode iNode) (\<lambda>p.
                  case container EL_KIND of
                    None \<Rightarrow> Inl NullPointer
                  | Some el \<Rightarrow>
                      ebind (SetRef_Coord el (Get_ValCoord geometry p iDim) iNode iDim)
                        (\<lambda>el. Inr (container(EL_KIND := Some el)))))
                container)
         (\<lambda>container. Inr (indexNode, container)))))"

text \<open>The block \<^verbatim>\<open>Jacobian_ij\<close> after the two loops over \<^verbatim>\<open>iVar\<close> and \<^verbatim>\<open>jVar\<close>.\<close>

definition fill_Jacobian_ij :: "nat \<Rightarrow> block \<Rightarrow> block \<Rightarrow> su2double \<Rightarrow> block" where
  "fill_Jacobian_ij n Jij0 D H =
     fold (\<lambda>iVar Jij.
             let Jij1 = fold (\<lambda>jVar Jij. upd2 Jij iVar jVar (D iVar jVar)) [0..<n] Jij
             in upd2 Jij1 iVar iVar (Jij1 iVar iVar - H))
          [0..<n] Jij0"

text \<open>The body of the two loops over the local nodes of an element. The constructor
  allocates \<^verbatim>\<open>Jacobian_ij\<close> as \<open>nDim\<close> rows of \<open>nDim\<close> entries, and a block \<open>DHiDHj[i][j]\<close> of
  the element has the element's \<open>nDim\<close> rows of \<open>nDim\<close> entries: the loops over \<^verbatim>\<open>iVar\<close> and
  \<^verbatim>\<open>jVar\<close> stay inside both when \<open>nVar\<close> is at most these dimensions. The field \<^verbatim>\<open>nVar\<close> is
  not set in the given sources and is an input here.\<close>

definition scatter_pair :: "int \<Rightarrow> nat list \<Rightarrow> nat \<Rightarrow> nat \<Rightarrow> CSolver \<Rightarrow> error + CSolver" where
  "scatter_pair EL_KIND indexNode iNode jNode s =
     (case element_container s EL_KIND of
        None \<Rightarrow> Inl NullPointer
      | Some el \<Rightarrow>
          (case DHiDHj el of
             None \<Rightarrow> Inl NullPointer
           | Some D \<Rightarrow>
               (case HiHj el of
                  None \<Rightarrow> Inl NullPointer
                | Some H \<Rightarrow>
                    if nVar s \<le> CSolver_nDim s \<and> nVar s \<le> CElement_nDim el
                    then
                      let Jij = fill_Jacobian_ij (nVar s) (Jacobian_ij s) (D iNode jNode)
                                  (H iNode jNode)
                      in ebind (rd1 indexNode iNode) (\<lambda>p.
                         ebind (rd1 indexNode jNode) (\<lambda>q.
                           Inr (s\<lparr>Jacobian_ij := Jij,
                                  Jacobian := Mat_AddBlock (CSolver_nDim s) (Jacobian s) p q Jij\<rparr>)))
                    else Inl OutOfBounds)))"

text \<open>The body of the element loop.\<close>

definition StiffMatrix_elem :: "FE_KINDS \<Rightarrow> CGeometry \<Rightarrow> CConfig \<Rightarrow> nat
    \<Rightarrow> StiffMatrix_state \<Rightarrow> error + StiffMatrix_state" where
  "StiffMatrix_elem kinds geometry config iElem st =
     (let e = elem geometry ! iElem;
          s = st_solver st
      in case tag_dispatch kinds (VTK_Type e) (st_nNodes st, st_EL_KIND st) of
           (nNodes_e, EL_KIND) \<Rightarrow>
             ebind (copy_coordinates geometry e (CSolver_nDim s) nNodes_e EL_KIND
                      (st_indexNode st, element_container s))
               (\<lambda>(indexNode, container).
                  case container EL_KIND of
                    None \<Rightarrow> Inl NullPointer
                  | Some el \<Rightarrow>
                      ebind (Compute_Tangent_Matrix (st_numerics st) el config)
                        (\<lambda>(num, el).
                           let NelNodes = nNodes el
                           in ebind (for_loop [0..<NelNodes] (\<lambda>iNode.
                                       for_loop [0..<NelNodes] (\<lambda>jNode.
                                         scatter_pair EL_KIND indexNode iNode jNode))
                                       (s\<lparr>element_container := container(EL_KIND := Some el)\<rparr>))
                                (\<lambda>s. Inr \<lparr>st_solver = s, st_numerics = num, st_nNodes = nNodes_e,
                                           st_EL_KIND = EL_KIND, st_indexNode = indexNode\<rparr>))))"

definition StiffMatrix_init :: "CSolver \<Rightarrow> CGradSmoothing \<Rightarrow> StiffMatrix_state" where
  "StiffMatrix_init s num =
     \<lparr>st_solver = s, st_numerics = num, st_nNodes = 0, st_EL_KIND = 0,
      st_indexNode = replicate 8 0\<rparr>"

text \<open>The state after the first \<open>n\<close> iterations of the element loop.\<close>

definition StiffMatrix_upto :: "FE_KINDS \<Rightarrow> CGeometry \<Rightarrow> CConfig \<Rightarrow> nat \<Rightarrow> CSolver
    \<Rightarrow> CGradSmoothing \<Rightarrow> error + StiffMatrix_state" where
  "StiffMatrix_upto kinds geometry config n s num =
     for_loop [0..<n] (StiffMatrix_elem kinds geometry config) (StiffMatrix_init s num)"

definition Compute_StiffMatrix :: "FE_KINDS \<Rightarrow> CGeometry \<Rightarrow> CConfig \<Rightarrow> CSolver \<Rightarrow> CGradSmoothing
    \<Rightarrow> error + CSolver \<times> CGradSmoothing" where
  "Compute_StiffMatrix kinds geometry config s num =
     ebind (StiffMatrix_upto kinds geometry config (length (elem geometry)) s num)
       (\<lambda>st. Inr (st_solver st, st_numerics st))"


subsection \<open>\<^verbatim>\<open>Compute_Residual\<close>\<close>

text \<open>
  The body of \<^verbatim>\<open>Compute_Residual\<close> uses the names \<^verbatim>\<open>element\<close>, \<^verbatim>\<open>iElem\<close>, \<^verbatim>\<open>nNodes\<close>,
  \<^verbatim>\<open>EL_KIND\<close>, \<^verbatim>\<open>indexNode\<close>, \<^verbatim>\<open>iNode\<close>, \<^verbatim>\<open>Weight\<close>, \<^verbatim>\<open>Jac_X\<close> and \<^verbatim>\<open>iDim\<close> without
  declaring them, and the given sources declare them nowhere else. The model reads the
  text as it stands: the names are variables that live outside the function, with the
  values the caller left in them (the record below holds those that are read before
  they are written); the loop \<^verbatim>\<open>for (iNode = 0; iNode < nNodes; iNode++)\<close> leaves the outer
  \<^verbatim>\<open>iNode\<close> at \<^verbatim>\<open>nNodes\<close>, and the loop \<^verbatim>\<open>for (unsigned short iNode = 0; iNode < nNode; iNode++)\<close>
  has a counter of its own. The assignment in that loop ends at its first semicolon,
  \<^verbatim>\<open>Residual[iDim] = Weight * Jac_X * element->GetNi(iNode,iGauss);\<close>, and what follows it,
  \<^verbatim>\<open>* solver->node[indexNode[iNode]]->GetSensitivity(iDim);\<close>, stores nothing. The
  sensitivities of the argument \<^verbatim>\<open>solver\<close> are the parameter \<open>Sensitivity\<close>. The array
  \<^verbatim>\<open>indexNode\<close> has no declared length here and is a function.
\<close>

record Residual_locals =
  rl_element :: CElement
  rl_nNodes :: nat
  rl_EL_KIND :: int
  rl_indexNode :: "nat \<Rightarrow> nat"
  rl_iNode :: nat
  rl_iDim :: nat

text \<open>The body of the loop over the Gauss points.\<close>

definition Residual_gauss :: "CPrimalGrid \<Rightarrow> (nat \<Rightarrow> nat \<Rightarrow> su2double) \<Rightarrow> nat \<Rightarrow> nat
    \<Rightarrow> CSolver \<times> Residual_locals \<Rightarrow> error + CSolver \<times> Residual_locals" where
  "Residual_gauss e Sensitivity nNode iGauss =
     (\<lambda>(s, l).
        let indexNode = fold (\<lambda>iNode indexNode. indexNode(iNode := Node e iNode))
                          [0..<rl_nNodes l] (rl_indexNode l);
            l1 = l\<lparr>rl_indexNode := indexNode, rl_iNode := rl_nNodes l\<rparr>
        in case element_container s (rl_EL_KIND l1) of
             None \<Rightarrow> Inl NullPointer
           | Some handler \<Rightarrow>
               let Weight = GetWeight handler iGauss;
                   Jac_X = GetJ_X (rl_element l1) iGauss;
                   R = fold (\<lambda>iNode R. R(rl_iDim l1 :=
                               Weight * Jac_X * GetNi (rl_element l1) iNode iGauss))
                         [0..<nNode] (Residual s)
               in Inr (s\<lparr>Residual := R,
                          LinSysRes := Vec_SetBlock (CSolver_nDim s) (LinSysRes s)
                                         (rl_indexNode l1 (rl_iNode l1)) R\<rparr>,
                       l1))"

definition Compute_Residual :: "FE_KINDS \<Rightarrow> CGeometry \<Rightarrow> (nat \<Rightarrow> nat \<Rightarrow> su2double) \<Rightarrow> CConfig
    \<Rightarrow> CSolver \<times> Residual_locals \<Rightarrow> error + CSolver \<times> Residual_locals" where
  "Compute_Residual kinds geometry Sensitivity config =
     (\<lambda>(s, l).
        let nNode = nNodes (rl_element l);
            nGauss = nGaussPoints (rl_element l)
        in for_loop [0..<length (elem geometry)]
             (\<lambda>iElem (s, l).
                let e = elem geometry ! iElem
                in case tag_dispatch kinds (VTK_Type e) (rl_nNodes l, rl_EL_KIND l) of
                     (nNodes_e, EL_KIND) \<Rightarrow>
                       for_loop [0..<nGauss] (Residual_gauss e Sensitivity nNode)
                         (s, l\<lparr>rl_nNodes := nNodes_e, rl_EL_KIND := EL_KIND\<rparr>))
             (s, l))"

text \<open>
  The right-hand side that section 4.3 of the specification describes for
  \<^verbatim>\<open>AssembleResidual\<close>, written from its words to compare the code with: for every element,
  Gauss point and local node, \<open>weight\<cdot>J\<cdot>Ni(node)\<cdot>sensitivity(node)\<close> is added at the global
  node and dimension. The element \<open>el\<close> supplies weights, Jacobian values and shape
  values; the vector is point-major with \<open>n\<close> entries per node.
\<close>

definition L2_projection_rhs :: "CGeometry \<Rightarrow> CElement \<Rightarrow> (nat \<Rightarrow> nat \<Rightarrow> su2double) \<Rightarrow> nat
    \<Rightarrow> CSysVector \<Rightarrow> CSysVector" where
  "L2_projection_rhs geometry el Sensitivity n rhs =
     (\<lambda>t. rhs t +
        (\<Sum>e\<leftarrow>elem geometry. \<Sum>iGauss<nGaussPoints el. \<Sum>iNode<nNodes el.
           if Node e iNode = t div n
           then GetWeight el iGauss * GetJ_X el iGauss * GetNi el iNode iGauss
                  * Sensitivity (Node e iNode) (t mod n)
           else 0))"


section \<open>Notions used in the statements and proofs about the local operator\<close>

text \<open>A rectangular buffer of \<open>r\<close> rows and \<open>c\<close> columns.\<close>

definition rect :: "nat \<Rightarrow> nat \<Rightarrow> 'a list list \<Rightarrow> bool" where
  "rect r c xss \<longleftrightarrow> length xss = r \<and> (\<forall>i<r. length (xss ! i) = c)"

text \<open>The coefficient that one pair iteration adds, computed from the scratch buffer
  \<open>G\<close> that holds the gradients of the current Gauss point.\<close>

definition stiff_coeff :: "su2double list list \<Rightarrow> nat \<Rightarrow> su2double \<Rightarrow> su2double \<Rightarrow> su2double
    \<Rightarrow> nat \<Rightarrow> nat \<Rightarrow> su2double" where
  "stiff_coeff G nDG eps W J p q = W * J * eps * eps * (\<Sum>d<nDG. G ! p ! d * G ! q ! d)"

text \<open>The specification's contribution of one Gauss point to the stiffness block of the
  node pair \<open>(i, j)\<close>: \<open>w\<cdot>J\<cdot>epsilon\<^sup>2\<cdot>(GradNi_X \<cdot> GradNj_X)\<close>, the dot product running over
  \<open>nDimGlobal\<close> components.\<close>

definition stiff_term :: "CElement \<Rightarrow> nat \<Rightarrow> su2double \<Rightarrow> nat \<Rightarrow> nat \<Rightarrow> nat \<Rightarrow> su2double" where
  "stiff_term el nDimGlobal epsilon iGauss i j =
     GetWeight el iGauss * GetJ_X el iGauss * epsilon * epsilon
       * (\<Sum>iDim<nDimGlobal. GetGradNi_X el i iGauss iDim * GetGradNi_X el j iGauss iDim)"

text \<open>The fields that the first half of \<open>clearElement\<close> leaves alone.\<close>

definition nonstruct :: "CElement \<Rightarrow> _" where
  "nonstruct el = (CElement_nDim el, nNodes el, nGaussPoints el, CurrentCoord el, RefCoord el,
     GaussWeight el, dNiXj el, Ni el, J_X el, J_x el, GradNi_Xj el, GradNi_xj el,
     HiHj el, DHiDHj el)"

text \<open>The specification's contribution of one Gauss point to the mass scalar of the node
  pair \<open>(i, j)\<close>: \<open>w\<cdot>J\<cdot>zeta\<cdot>Ni\<cdot>Nj\<close>.\<close>

definition mass_term :: "CElement \<Rightarrow> su2double \<Rightarrow> nat \<Rightarrow> nat \<Rightarrow> nat \<Rightarrow> su2double" where
  "mass_term el zeta iGauss i j =
     GetWeight el iGauss * GetJ_X el iGauss * zeta * GetNi el i iGauss * GetNi el j iGauss"


section \<open>Notions used in the statements and proofs about the global assembly\<close>

text \<open>The handler after the coordinates of the mesh nodes of the element \<open>e\<close> have been
  copied into it, for the first \<open>n\<close> nodes and the first \<open>m\<close> dimensions.\<close>

definition with_ref_coords :: "CGeometry \<Rightarrow> CPrimalGrid \<Rightarrow> nat \<Rightarrow> nat \<Rightarrow> CElement \<Rightarrow> CElement" where
  "with_ref_coords geometry e n m el =
     el\<lparr>RefCoord := (\<lambda>iNode iDim. if iNode < n \<and> iDim < m
                        then node_Coord geometry (Node e iNode) iDim
                        else RefCoord el iNode iDim)\<rparr>"

text \<open>The block that the specification adds for the local node pair \<open>(i, j)\<close>:
  \<open>DHiDHj[i][j] - HiHj[i][j]\<cdot>Identity\<close>.\<close>

definition contribution :: "(nat \<Rightarrow> nat \<Rightarrow> block) \<Rightarrow> (nat \<Rightarrow> nat \<Rightarrow> su2double) \<Rightarrow> nat \<Rightarrow> nat \<Rightarrow> block" where
  "contribution D H i j a b = D i j a b - (if a = b then H i j else 0)"

text \<open>The VTK types that one of the six tests of the element loop matches.\<close>

definition supported :: "GEO_TYPE \<Rightarrow> bool" where
  "supported t \<longleftrightarrow> t = TRIANGLE \<or> t = QUADRILATERAL \<or> t = TETRAHEDRON \<or> t = PYRAMID
     \<or> t = PRISM \<or> t = HEXAHEDRON"

text \<open>The node count and the kind that the element loop works with at the element
  \<open>iElem\<close>: the outcome of the six tests on the types of the elements up to and
  including \<open>iElem\<close>, starting from 0 nodes and kind 0.\<close>

definition in_force :: "FE_KINDS \<Rightarrow> CGeometry \<Rightarrow> nat \<Rightarrow> nat \<times> int" where
  "in_force kinds geometry iElem =
     fold (\<lambda>e. tag_dispatch kinds (VTK_Type e)) (take (Suc iElem) (elem geometry)) (0, 0)"

text \<open>The handler of kind \<open>k\<close> exists and the loop can work on it with \<open>n\<close> nodes: \<open>n\<close> rows
  and the solver's dimension fit into its coordinate array, its nodes fit into
  \<^verbatim>\<open>indexNode[8]\<close>, it has the dimension of the numerics object and both smoothing
  accumulators.\<close>

definition handler_fits :: "CSolver \<Rightarrow> CGradSmoothing \<Rightarrow> nat \<times> int \<Rightarrow> bool" where
  "handler_fits s num nk =
     (case nk of
        (n, k) \<Rightarrow>
          (case element_container s k of
             None \<Rightarrow> False
           | Some el \<Rightarrow> n \<le> nNodes el \<and> nNodes el \<le> 8
                        \<and> CElement_nDim el = CNumerics_nDim num
                        \<and> CSolver_nDim s \<le> CElement_nDim el
                        \<and> HiHj el \<noteq> None \<and> DHiDHj el \<noteq> None))"

text \<open>The handler of kind \<open>k\<close> is the one for elements of \<open>n\<close> nodes in the solver's
  dimension.\<close>

definition handler_matches :: "CSolver \<Rightarrow> CGradSmoothing \<Rightarrow> nat \<times> int \<Rightarrow> bool" where
  "handler_matches s num nk =
     (case nk of
        (n, k) \<Rightarrow>
          (case element_container s k of
             None \<Rightarrow> False
           | Some el \<Rightarrow> nNodes el = n
                        \<and> CElement_nDim el = CNumerics_nDim num
                        \<and> CElement_nDim el = CSolver_nDim s
                        \<and> HiHj el \<noteq> None \<and> DHiDHj el \<noteq> None))"

text \<open>The block \<open>DHiDHj[i][j] - HiHj[i][j]\<cdot>Identity\<close> of the mesh element \<open>e\<close>: the one that
  \<^verbatim>\<open>Compute_Tangent_Matrix\<close> leaves in the handler of the element's kind, taken as the
  solver holds it before the assembly, with the coordinates of the nodes of \<open>e\<close> copied
  in.\<close>

definition element_blocks :: "FE_KINDS \<Rightarrow> CGeometry \<Rightarrow> CConfig \<Rightarrow> CSolver \<Rightarrow> CGradSmoothing
    \<Rightarrow> CPrimalGrid \<Rightarrow> nat \<Rightarrow> nat \<Rightarrow> block" where
  "element_blocks kinds geometry config s num e i j a b =
     (case tag_dispatch kinds (VTK_Type e) (0, 0) of
        (n, k) \<Rightarrow>
          (case element_container s k of
             None \<Rightarrow> 0
           | Some el \<Rightarrow>
               (case Compute_Tangent_Matrix num
                       (with_ref_coords geometry e n (CSolver_nDim s) el) config of
                  Inl err \<Rightarrow> 0
                | Inr (num', el') \<Rightarrow>
                    (case DHiDHj el' of
                       None \<Rightarrow> 0
                     | Some D \<Rightarrow>
                         (case HiHj el' of
                            None \<Rightarrow> 0
                          | Some H \<Rightarrow> D i j a b - (if a = b then H i j else 0))))))"

text \<open>A handler in the course of the assembly, compared with the handler the solver held
  before it: the tables are the same and the reference coordinates differ inside the
  allocated extents only.\<close>

definition evolved :: "CElement option \<Rightarrow> CElement option \<Rightarrow> bool" where
  "evolved h0 h =
     (case h0 of
        None \<Rightarrow> h = None
      | Some el0 \<Rightarrow>
          (case h of
             None \<Rightarrow> False
           | Some el \<Rightarrow>
               CElement_nDim el = CElement_nDim el0 \<and> nNodes el = nNodes el0
               \<and> nGaussPoints el = nGaussPoints el0 \<and> GaussWeight el = GaussWeight el0
               \<and> Ni el = Ni el0 \<and> dNiXj el = dNiXj el0
               \<and> (\<forall>a d. (a < nNodes el0 \<and> d < CElement_nDim el0)
                          \<or> RefCoord el a d = RefCoord el0 a d)
               \<and> (HiHj el0 \<noteq> None \<longrightarrow> HiHj el \<noteq> None)
               \<and> (DHiDHj el0 \<noteq> None \<longrightarrow> DHiDHj el \<noteq> None)))"

text \<open>What holds after \<open>m\<close> iterations of the element loop.\<close>

definition StiffMatrix_inv :: "FE_KINDS \<Rightarrow> CGeometry \<Rightarrow> CSolver \<Rightarrow> CGradSmoothing \<Rightarrow> nat
    \<Rightarrow> StiffMatrix_state \<Rightarrow> bool" where
  "StiffMatrix_inv kinds geometry s num m st \<longleftrightarrow>
     allocated (st_numerics st) \<and> CNumerics_nDim (st_numerics st) = CNumerics_nDim num
     \<and> CSolver_nDim (st_solver st) = CSolver_nDim s \<and> nVar (st_solver st) = nVar s
     \<and> (\<forall>a b. (a < nVar s \<and> b < nVar s)
                \<or> Jacobian_ij (st_solver st) a b = Jacobian_ij s a b)
     \<and> (st_nNodes st, st_EL_KIND st)
         = fold (\<lambda>e. tag_dispatch kinds (VTK_Type e)) (take m (elem geometry)) (0, 0)
     \<and> length (st_indexNode st) = 8
     \<and> (\<forall>k. evolved (element_container s k) (element_container (st_solver st) k))"


section \<open>Concrete inputs\<close>

text \<open>A mesh of one triangle on three nodes, two markers (marker 0 of kind Dirichlet with
  an owned node 0 and a halo node 2, marker 1 of kind Neumann) and a solver state whose
  entries are told apart by their values.\<close>

definition ex_config :: CConfig where
  "ex_config = \<lparr>SmoothOnSurface = False, SmoothingParam = 1, SmoothingParamSecond = 1,
     nMarker_All = 2, Marker_All_SobolevBC = (\<lambda>iMarker. if iMarker = 0 then NO else YES)\<rparr>"

definition ex_geometry :: CGeometry where
  "ex_geometry = \<lparr>elem = [\<lparr>VTK_Type = TRIANGLE, Node = (\<lambda>i. i)\<rparr>],
     node_Coord = (\<lambda>p d. if (p = 1 \<and> d = 0) \<or> (p = 2 \<and> d = 1) then 1 else 0),
     node_Domain = (\<lambda>p. p \<noteq> 2),
     vertex = (\<lambda>iMarker. if iMarker = 0 then [0, 2] else [1])\<rparr>"

definition ex_solver :: CSolver where
  "ex_solver = \<lparr>CSolver_nDim = 2, nVar = 2, nPoint = 3, element_container = (\<lambda>k. None),
     Jacobian_ij = (\<lambda>a b. 0), Solution = (\<lambda>d. 7), Residual = (\<lambda>d. 7),
     LinSysSol = (\<lambda>t. 3), LinSysRes = (\<lambda>t. 4), Jacobian = (\<lambda>p q a b. 5)\<rparr>"


text \<open>A three-node triangle with one Gauss point: the unit right triangle with the
  derivative table of the linear shape functions \<open>1 - \<xi> - \<eta>\<close>, \<open>\<xi>\<close>, \<open>\<eta>\<close>. The accumulators
  hold stale values, the other fields are not yet computed.\<close>

definition ex_tria :: CElement where
  "ex_tria = \<lparr>CElement_nDim = 2, nNodes = 3, nGaussPoints = 1,
     CurrentCoord = (\<lambda>iNode iDim. 0),
     RefCoord = (\<lambda>iNode iDim. if (iNode = 1 \<and> iDim = 0) \<or> (iNode = 2 \<and> iDim = 1) then 1 else 0),
     GaussWeight = (\<lambda>iGauss. 1 / 2),
     dNiXj = (\<lambda>iGauss iNode iDim.
        if iNode = 0 then - 1 else if iNode = 1 then (if iDim = 0 then 1 else 0)
        else (if iDim = 0 then 0 else 1)),
     Ni = (\<lambda>iGauss iNode. 1 / 3),
     J_X = (\<lambda>iGauss. 0), J_x = (\<lambda>iGauss. 0),
     GradNi_Xj = (\<lambda>iGauss iNode iDim. 0), GradNi_xj = (\<lambda>iGauss iNode iDim. 0),
     Mab = None, Kab = None, Ks_ab = None, Kt_a = None, FDL_a = None,
     HiHj = Some (\<lambda>iNode jNode. 9), DHiDHj = Some (\<lambda>iNode jNode iDim jDim. 9)\<rparr>"

text \<open>A four-node quadrilateral on the reference square \<open>[-1, 1]\<^sup>2\<close> with the derivative
  table of the bilinear shape functions at the four Gauss points \<open>(\<plusminus>1/\<surd>3, \<plusminus>1/\<surd>3)\<close>: the
  kind of element that the solver's constructor puts in the container next to the
  triangle.\<close>

definition quad_dNiXj :: "su2double \<Rightarrow> su2double \<Rightarrow> nat \<Rightarrow> nat \<Rightarrow> su2double" where
  "quad_dNiXj Xi Eta iNode iDim =
     (if iNode = 0 then (if iDim = 0 then - (1 - Eta) / 4 else - (1 - Xi) / 4)
      else if iNode = 1 then (if iDim = 0 then (1 - Eta) / 4 else - (1 + Xi) / 4)
      else if iNode = 2 then (if iDim = 0 then (1 + Eta) / 4 else (1 + Xi) / 4)
      else (if iDim = 0 then - (1 + Eta) / 4 else (1 - Xi) / 4))"

definition ex_quad :: CElement where
  "ex_quad = \<lparr>CElement_nDim = 2, nNodes = 4, nGaussPoints = 4,
     CurrentCoord = (\<lambda>iNode iDim. 0),
     RefCoord = (\<lambda>iNode iDim.
        if iDim = 0 then (if iNode = 1 \<or> iNode = 2 then 1 else - 1)
        else (if iNode = 2 \<or> iNode = 3 then 1 else - 1)),
     GaussWeight = (\<lambda>iGauss. 1),
     dNiXj = (\<lambda>iGauss.
        quad_dNiXj ((if iGauss = 1 \<or> iGauss = 2 then 1 else - 1) / sqrt 3)
                   ((if iGauss = 2 \<or> iGauss = 3 then 1 else - 1) / sqrt 3)),
     Ni = (\<lambda>iGauss iNode. 0),
     J_X = (\<lambda>iGauss. 0), J_x = (\<lambda>iGauss. 0),
     GradNi_Xj = (\<lambda>iGauss iNode iDim. 0), GradNi_xj = (\<lambda>iGauss iNode iDim. 0),
     Mab = None, Kab = None, Ks_ab = None, Kt_a = None, FDL_a = None,
     HiHj = Some (\<lambda>iNode jNode. 0), DHiDHj = Some (\<lambda>iNode jNode iDim jDim. 0)\<rparr>"

text \<open>The specification's normal-equation matrix \<open>J\<^sup>t\<cdot>J\<close> of a 3 by 2 matrix \<open>J\<close>,
  written as the sum it is.\<close>

definition normal_matrix :: "(nat \<Rightarrow> nat \<Rightarrow> su2double) \<Rightarrow> nat \<Rightarrow> nat \<Rightarrow> su2double" where
  "normal_matrix J i j = (\<Sum>k<(3::nat). J k i * J k j)"

text \<open>The Jacobian matrix of section 4.1 of the specification, built from the coordinates
  of the nodes and the table of parametric derivatives of the shape functions: the
  entry \<open>(iDim, jDim)\<close> is the derivative of the physical coordinate \<open>iDim\<close> with respect to
  the parametric coordinate \<open>jDim\<close>, \<open>\<Sum>iNode. X[iNode][iDim] \<cdot> dN[iNode]/d\<xi>[jDim]\<close>.\<close>

definition Jacobian_table :: "(nat \<Rightarrow> nat \<Rightarrow> su2double) \<Rightarrow> (nat \<Rightarrow> nat \<Rightarrow> su2double) \<Rightarrow> nat
    \<Rightarrow> nat \<Rightarrow> nat \<Rightarrow> su2double" where
  "Jacobian_table C dN n iDim jDim = (\<Sum>iNode<n. C iNode iDim * dN iNode jDim)"

text \<open>The reference square in the plane \<open>z = 0\<close> of space: \<open>(-1,-1,0)\<close>, \<open>(1,-1,0)\<close>, \<open>(1,1,0)\<close>,
  \<open>(-1,1,0)\<close>.\<close>

definition ex_square :: "nat \<Rightarrow> nat \<Rightarrow> su2double" where
  "ex_square iNode iDim =
     (if iDim = 0 then (if iNode = 1 \<or> iNode = 2 then 1 else - 1)
      else if iDim = 1 then (if iNode = 2 \<or> iNode = 3 then 1 else - 1)
      else 0)"

text \<open>Coordinates of a triangle in space: \<open>(0,0,0)\<close>, \<open>(1,0,1)\<close>, \<open>(0,1,0)\<close>.\<close>

definition ex_Coord3 :: "nat \<Rightarrow> nat \<Rightarrow> su2double" where
  "ex_Coord3 iNode iDim =
     (if (iNode = 1 \<and> (iDim = 0 \<or> iDim = 2)) \<or> (iNode = 2 \<and> iDim = 1) then 1 else 0)"

text \<open>The example configuration with smoothing on a curved surface switched on.\<close>

definition ex_config_surface :: CConfig where
  "ex_config_surface = ex_config\<lparr>SmoothOnSurface := True\<rparr>"


text \<open>The kinds of element as SU2 numbers them, and the two-dimensional solver: the
  triangle as kind 0, the quadrilateral as kind 1, no other handler.\<close>

definition ex_kinds :: FE_KINDS where
  "ex_kinds = \<lparr>EL_TRIA = 0, EL_QUAD = 1, EL_TETRA = 0, EL_HEXA = 1, EL_PYRAM = 2, EL_PRISM = 3\<rparr>"

definition ex_solver_2D :: CSolver where
  "ex_solver_2D = ex_solver\<lparr>element_container :=
     (\<lambda>k. if k = 0 then Some ex_tria else if k = 1 then Some ex_quad else None)\<rparr>"

text \<open>Three meshes on the nodes of the example: one element of type \<^verbatim>\<open>LINE\<close>, which none of
  the tests of the element loop matches; one triangle whose three corners are the same
  mesh node; and both elements together.\<close>

definition ex_geometry_line :: CGeometry where
  "ex_geometry_line = ex_geometry\<lparr>elem := [\<lparr>VTK_Type = LINE, Node = (\<lambda>i. i)\<rparr>]\<rparr>"

definition ex_geometry_degenerate :: CGeometry where
  "ex_geometry_degenerate = ex_geometry\<lparr>elem := [\<lparr>VTK_Type = TRIANGLE, Node = (\<lambda>i. 0)\<rparr>]\<rparr>"

definition ex_geometry_bad :: CGeometry where
  "ex_geometry_bad = ex_geometry\<lparr>elem := [\<lparr>VTK_Type = LINE, Node = (\<lambda>i. i)\<rparr>,
                                            \<lparr>VTK_Type = TRIANGLE, Node = (\<lambda>i. 0)\<rparr>]\<rparr>"

text \<open>Inputs for \<^verbatim>\<open>Compute_Residual\<close>: the triangle of the example with its Jacobian value
  computed, a solver with a zero right-hand side, and the variables the function does
  not declare, of which the index array and \<^verbatim>\<open>iDim\<close> are left open.\<close>

definition ex_tria_computed :: CElement where
  "ex_tria_computed = ex_tria\<lparr>J_X := (\<lambda>iGauss. 1)\<rparr>"

definition ex_solver_rhs :: CSolver where
  "ex_solver_rhs = ex_solver\<lparr>element_container := (\<lambda>k. if k = 0 then Some ex_tria_computed else None),
     Residual := (\<lambda>d. 0), LinSysRes := (\<lambda>t. 0)\<rparr>"

definition ex_locals :: "(nat \<Rightarrow> nat) \<Rightarrow> nat \<Rightarrow> Residual_locals" where
  "ex_locals indexNode iDim = \<lparr>rl_element = ex_tria_computed, rl_nNodes = 0, rl_EL_KIND = 0,
     rl_indexNode = indexNode, rl_iNode = 0, rl_iDim = iDim\<rparr>"


section \<open>Boundary conditions: proofs\<close>

subsection \<open>Closed forms of the loops of \<^verbatim>\<open>BC_Dirichlet\<close>\<close>

lemma fold_SetBlock_col:
  "fold (\<lambda>iVar M. Mat_SetBlock n M iVar k (B iVar)) [0..<m] M =
     (\<lambda>p q a b. if p < m \<and> q = k \<and> a < n \<and> b < n then B p a b else M p q a b)"
proof (induction m)
  case 0
  show ?case by simp
next
  case (Suc m)
  have "fold (\<lambda>iVar M. Mat_SetBlock n M iVar k (B iVar)) [0..<Suc m] M =
        Mat_SetBlock n (fold (\<lambda>iVar M. Mat_SetBlock n M iVar k (B iVar)) [0..<m] M) m k (B m)"
    by simp
  also have "\<dots> = Mat_SetBlock n
        (\<lambda>p q a b. if p < m \<and> q = k \<and> a < n \<and> b < n then B p a b else M p q a b) m k (B m)"
    by (simp only: Suc)
  finally show ?case
    by (auto simp add: Mat_SetBlock_def fun_eq_iff less_Suc_eq)
qed

lemma fold_SetBlock_row:
  "fold (\<lambda>jVar M. if k \<noteq> jVar then Mat_SetBlock n M k jVar B else M) [0..<m] M =
     (\<lambda>p q a b. if p = k \<and> q < m \<and> q \<noteq> k \<and> a < n \<and> b < n then B a b else M p q a b)"
proof (induction m)
  case 0
  show ?case by simp
next
  case (Suc m)
  let ?f = "\<lambda>jVar M. if k \<noteq> jVar then Mat_SetBlock n M k jVar B else M"
  have "fold ?f [0..<Suc m] M = ?f m (fold ?f [0..<m] M)"
    by simp
  also have "\<dots> = ?f m
        (\<lambda>p q a b. if p = k \<and> q < m \<and> q \<noteq> k \<and> a < n \<and> b < n then B a b else M p q a b)"
    by (simp only: Suc)
  finally show ?case
    by (auto simp add: Mat_SetBlock_def fun_eq_iff less_Suc_eq)
qed

lemma if_SetBlock:
  "(if c then Mat_SetBlock n M i j B1 else Mat_SetBlock n M i j B2) =
     Mat_SetBlock n M i j (if c then B1 else B2)"
  by simp

lemma Jacobian_vertex:
  "Jacobian (BC_Dirichlet_vertex geometry k s) =
     (\<lambda>p q a b.
        if a < CSolver_nDim s \<and> b < CSolver_nDim s \<and> q = k \<and> p < nPoint s
        then (if node_Domain geometry k \<and> p = k then mId_Aux a b else 0)
        else if a < CSolver_nDim s \<and> b < CSolver_nDim s \<and> node_Domain geometry k
                \<and> p = k \<and> q < nPoint s
        then 0
        else Jacobian s p q a b)"
  unfolding BC_Dirichlet_vertex_def Let_def if_SetBlock
  by (auto simp add: fold_SetBlock_col fold_SetBlock_row fun_eq_iff mZeros_Aux_def)

lemma nDim_vertex [simp]: "CSolver_nDim (BC_Dirichlet_vertex geometry k s) = CSolver_nDim s"
  by (simp add: BC_Dirichlet_vertex_def Let_def)

lemma nPoint_vertex [simp]: "nPoint (BC_Dirichlet_vertex geometry k s) = nPoint s"
  by (simp add: BC_Dirichlet_vertex_def Let_def)

lemma LinSysRes_vertex:
  "LinSysRes (BC_Dirichlet_vertex geometry k s) =
     (if node_Domain geometry k
      then Vec_SetBlock (CSolver_nDim s) (LinSysRes s) k
             (if CSolver_nDim s = 2 then (Residual s)(0 := 0, 1 := 0)
              else (Residual s)(0 := 0, 1 := 0, 2 := 0))
      else LinSysRes s)"
  by (simp add: BC_Dirichlet_vertex_def Let_def)

lemma LinSysSol_vertex:
  "LinSysSol (BC_Dirichlet_vertex geometry k s) =
     (if node_Domain geometry k
      then Vec_SetBlock (CSolver_nDim s) (LinSysSol s) k
             (if CSolver_nDim s = 2 then (Solution s)(0 := 0, 1 := 0)
              else (Solution s)(0 := 0, 1 := 0, 2 := 0))
      else LinSysSol s)"
  by (simp add: BC_Dirichlet_vertex_def Let_def)


lemma Jacobian_fold_vertex:
  "Jacobian (fold (BC_Dirichlet_vertex geometry) vs s) =
     (\<lambda>p q a b.
        if a < CSolver_nDim s \<and> b < CSolver_nDim s \<and> q \<in> set vs \<and> p < nPoint s
        then (if node_Domain geometry q \<and> p = q then mId_Aux a b else 0)
        else if a < CSolver_nDim s \<and> b < CSolver_nDim s \<and> p \<in> set vs
                \<and> node_Domain geometry p \<and> q < nPoint s
        then 0
        else Jacobian s p q a b)"
proof (induction vs arbitrary: s)
  case Nil
  show ?case by simp
next
  case (Cons k vs)
  show ?case
    by (simp add: Cons Jacobian_vertex fun_eq_iff) blast
qed

lemma nDim_fold_vertex [simp]:
  "CSolver_nDim (fold (BC_Dirichlet_vertex geometry) vs s) = CSolver_nDim s"
  by (induction vs arbitrary: s) simp_all

lemma nPoint_fold_vertex [simp]:
  "nPoint (fold (BC_Dirichlet_vertex geometry) vs s) = nPoint s"
  by (induction vs arbitrary: s) simp_all

lemma Vec_SetBlock_zero:
  assumes "n \<le> 3"
  shows "Vec_SetBlock n v k (if n = 2 then r(0 := 0, 1 := 0) else r(0 := 0, 1 := 0, 2 := 0)) =
         (\<lambda>t. if k * n \<le> t \<and> t < k * n + n then 0 else v t)"
proof
  fix t
  let ?val = "if n = 2 then r(0 := 0, 1 := 0) else r(0 := 0, 1 := (0::real), 2 := 0)"
  have zero: "?val d = 0" if "d < n" for d
  proof -
    from that assms have "d = 0 \<or> d = 1 \<or> (d = 2 \<and> n \<noteq> 2)" by arith
    then show ?thesis by auto
  qed
  show "Vec_SetBlock n v k ?val t = (if k * n \<le> t \<and> t < k * n + n then 0 else v t)"
  proof (cases "k * n \<le> t \<and> t < k * n + n")
    case True
    then have "t - k * n < n" by arith
    then have "?val (t - k * n) = 0" by (rule zero)
    with True show ?thesis unfolding Vec_SetBlock_def by (simp only: if_True)
  next
    case False
    then show ?thesis unfolding Vec_SetBlock_def by (simp only: if_False)
  qed
qed

lemma LinSysRes_fold_vertex:
  assumes "CSolver_nDim s \<le> 3"
  shows "LinSysRes (fold (BC_Dirichlet_vertex geometry) vs s) =
     (\<lambda>t. if \<exists>k \<in> set vs. node_Domain geometry k
                  \<and> k * CSolver_nDim s \<le> t \<and> t < k * CSolver_nDim s + CSolver_nDim s
           then 0 else LinSysRes s t)"
  using assms
proof (induction vs arbitrary: s)
  case Nil
  show ?case by simp
next
  case (Cons k vs)
  show ?case
    using Cons.prems
    by (simp add: Cons.IH LinSysRes_vertex Vec_SetBlock_zero fun_eq_iff) blast
qed

lemma LinSysSol_fold_vertex:
  assumes "CSolver_nDim s \<le> 3"
  shows "LinSysSol (fold (BC_Dirichlet_vertex geometry) vs s) =
     (\<lambda>t. if \<exists>k \<in> set vs. node_Domain geometry k
                  \<and> k * CSolver_nDim s \<le> t \<and> t < k * CSolver_nDim s + CSolver_nDim s
           then 0 else LinSysSol s t)"
  using assms
proof (induction vs arbitrary: s)
  case Nil
  show ?case by simp
next
  case (Cons k vs)
  show ?case
    using Cons.prems
    by (simp add: Cons.IH LinSysSol_vertex Vec_SetBlock_zero fun_eq_iff) blast
qed

lemma Impose_BC_marker_cases:
  "Impose_BC_marker geometry config m s =
     (if Marker_All_SobolevBC config m = NO then BC_Dirichlet geometry m s else s)"
  by (simp add: Impose_BC_marker_def BC_Neumann_def Let_def)

lemma fold_markers:
  "fold (Impose_BC_marker geometry config) ms s =
     fold (BC_Dirichlet geometry) (filter (\<lambda>m. Marker_All_SobolevBC config m = NO) ms) s"
  by (induction ms arbitrary: s) (simp_all add: Impose_BC_marker_cases)

lemma fold_BC_Dirichlet_concat:
  "fold (BC_Dirichlet geometry) ms s =
     fold (BC_Dirichlet_vertex geometry) (concat (map (vertex geometry) ms)) s"
  by (induction ms arbitrary: s) (simp_all add: BC_Dirichlet_def)

lemma Impose_BC_vertices:
  "Impose_BC geometry config s =
     fold (BC_Dirichlet_vertex geometry) (Dirichlet_vertices geometry config) s"
  by (simp add: Impose_BC_def fold_markers fold_BC_Dirichlet_concat Dirichlet_vertices_def)

subsection \<open>Dispatch on the kind of a marker\<close>

text \<open>
  Claim C10. \<^verbatim>\<open>Impose_BC\<close> runs the Dirichlet treatment on exactly the markers whose
  Sobolev flag is \<open>NO\<close>, in the order of the marker loop; the Neumann treatment, which
  is the call made for a flag \<open>YES\<close>, returns the state it was given; a marker whose flag
  is not \<open>NO\<close> leaves the state as it was; and the dispatch never touches the dimensions,
  the element container or the scratch block \<open>Jacobian_ij\<close> of the solver.
\<close>

theorem Impose_BC_dispatch:
  "Impose_BC geometry config s =
     fold (BC_Dirichlet geometry)
       (filter (\<lambda>iMarker. Marker_All_SobolevBC config iMarker = NO) [0..<nMarker_All config]) s
   \<and> BC_Neumann geometry iMarker s = s
   \<and> (Marker_All_SobolevBC config iMarker = NO \<longrightarrow>
        Impose_BC_marker geometry config iMarker s = BC_Dirichlet geometry iMarker s)
   \<and> (Marker_All_SobolevBC config iMarker \<noteq> NO \<longrightarrow>
        Impose_BC_marker geometry config iMarker s = s)
   \<and> CSolver_nDim (Impose_BC geometry config s) = CSolver_nDim s
   \<and> nVar (Impose_BC geometry config s) = nVar s
   \<and> nPoint (Impose_BC geometry config s) = nPoint s
   \<and> element_container (Impose_BC geometry config s) = element_container s
   \<and> Jacobian_ij (Impose_BC geometry config s) = Jacobian_ij s"
proof -
  have keep: "nVar (fold (BC_Dirichlet_vertex geometry) vs t) = nVar t
      \<and> element_container (fold (BC_Dirichlet_vertex geometry) vs t) = element_container t
      \<and> Jacobian_ij (fold (BC_Dirichlet_vertex geometry) vs t) = Jacobian_ij t" for vs t
    by (induction vs arbitrary: t) (simp_all add: BC_Dirichlet_vertex_def Let_def)
  have disp: "Impose_BC geometry config s =
     fold (BC_Dirichlet geometry)
       (filter (\<lambda>iMarker. Marker_All_SobolevBC config iMarker = NO) [0..<nMarker_All config]) s"
    by (simp add: Impose_BC_def fold_markers)
  have rest: "CSolver_nDim (Impose_BC geometry config s) = CSolver_nDim s
      \<and> nVar (Impose_BC geometry config s) = nVar s
      \<and> nPoint (Impose_BC geometry config s) = nPoint s
      \<and> element_container (Impose_BC geometry config s) = element_container s
      \<and> Jacobian_ij (Impose_BC geometry config s) = Jacobian_ij s"
    unfolding Impose_BC_vertices by (simp add: keep)
  from disp rest show ?thesis
    by (simp add: Impose_BC_marker_cases BC_Neumann_def)
qed

text \<open>On the example, marker 0 is treated as Dirichlet and marker 1 is left alone.\<close>

theorem Impose_BC_dispatch_witness:
  "Impose_BC ex_geometry ex_config ex_solver = BC_Dirichlet ex_geometry 0 ex_solver
   \<and> Impose_BC_marker ex_geometry ex_config 1 ex_solver = ex_solver
   \<and> Impose_BC_marker ex_geometry ex_config 0 ex_solver = BC_Dirichlet ex_geometry 0 ex_solver"
  using Impose_BC_dispatch [of ex_geometry ex_config ex_solver 1]
        Impose_BC_dispatch [of ex_geometry ex_config ex_solver 0]
  by (simp add: ex_config_def NO_def YES_def upt_rec)

subsection \<open>Strong enforcement at a constrained node\<close>

text \<open>
  Claim C3. Let \<open>k\<close> be a node of a marker that \<^verbatim>\<open>Impose_BC\<close> treats as Dirichlet, with
  \<open>k < nPoint\<close>. If the process owns \<open>k\<close>, then after \<^verbatim>\<open>Impose_BC\<close> the entries of the
  right-hand side and of the solution at \<open>k\<close> are zero, the diagonal block \<open>(k, k)\<close> is the
  identity, and every other block of row \<open>k\<close> and of column \<open>k\<close> is zero. If \<open>k\<close> is a halo
  node, the whole column \<open>k\<close> is zero (its diagonal block included), the blocks of row
  \<open>k\<close> that lie in no constrained column are the ones the matrix had before, and the
  treatment of \<open>k\<close> itself alters nothing but the blocks of column \<open>k\<close>.
\<close>

theorem Dirichlet_decoupling:
  assumes "k \<in> set (Dirichlet_vertices geometry config)"
    and "k < nPoint s"
    and "CSolver_nDim s \<le> 3"
  shows "(node_Domain geometry k \<longrightarrow>
           (\<forall>d < CSolver_nDim s.
              LinSysRes (Impose_BC geometry config s) (k * CSolver_nDim s + d) = 0
              \<and> LinSysSol (Impose_BC geometry config s) (k * CSolver_nDim s + d) = 0)
           \<and> (\<forall>a < CSolver_nDim s. \<forall>b < CSolver_nDim s.
                Jacobian (Impose_BC geometry config s) k k a b = (if a = b then 1 else 0)
                \<and> (\<forall>i < nPoint s. i \<noteq> k \<longrightarrow>
                      Jacobian (Impose_BC geometry config s) i k a b = 0
                      \<and> Jacobian (Impose_BC geometry config s) k i a b = 0)))
       \<and> (\<not> node_Domain geometry k \<longrightarrow>
           (\<forall>i < nPoint s. \<forall>a < CSolver_nDim s. \<forall>b < CSolver_nDim s.
              Jacobian (Impose_BC geometry config s) i k a b = 0)
           \<and> (\<forall>j. j \<notin> set (Dirichlet_vertices geometry config) \<longrightarrow>
                 Jacobian (Impose_BC geometry config s) k j = Jacobian s k j)
           \<and> BC_Dirichlet_vertex geometry k s =
               s\<lparr>Jacobian := (\<lambda>p q a b.
                    if q = k \<and> p < nPoint s \<and> a < CSolver_nDim s \<and> b < CSolver_nDim s
                    then 0 else Jacobian s p q a b)\<rparr>)"
proof (intro conjI impI)
  assume own: "node_Domain geometry k"
  show "\<forall>d < CSolver_nDim s.
          LinSysRes (Impose_BC geometry config s) (k * CSolver_nDim s + d) = 0
          \<and> LinSysSol (Impose_BC geometry config s) (k * CSolver_nDim s + d) = 0"
    using assms own
    by (auto simp add: Impose_BC_vertices LinSysRes_fold_vertex LinSysSol_fold_vertex)
  show "\<forall>a < CSolver_nDim s. \<forall>b < CSolver_nDim s.
          Jacobian (Impose_BC geometry config s) k k a b = (if a = b then 1 else 0)
          \<and> (\<forall>i < nPoint s. i \<noteq> k \<longrightarrow>
                Jacobian (Impose_BC geometry config s) i k a b = 0
                \<and> Jacobian (Impose_BC geometry config s) k i a b = 0)"
    using assms own
    by (auto simp add: Impose_BC_vertices Jacobian_fold_vertex mId_Aux_def)
next
  assume halo: "\<not> node_Domain geometry k"
  show "\<forall>i < nPoint s. \<forall>a < CSolver_nDim s. \<forall>b < CSolver_nDim s.
          Jacobian (Impose_BC geometry config s) i k a b = 0"
    using assms halo
    by (auto simp add: Impose_BC_vertices Jacobian_fold_vertex)
  show "\<forall>j. j \<notin> set (Dirichlet_vertices geometry config) \<longrightarrow>
          Jacobian (Impose_BC geometry config s) k j = Jacobian s k j"
    using assms halo
    by (auto simp add: Impose_BC_vertices Jacobian_fold_vertex fun_eq_iff)
  show "BC_Dirichlet_vertex geometry k s =
          s\<lparr>Jacobian := (\<lambda>p q a b.
               if q = k \<and> p < nPoint s \<and> a < CSolver_nDim s \<and> b < CSolver_nDim s
               then 0 else Jacobian s p q a b)\<rparr>"
    using halo
    by (auto simp add: BC_Dirichlet_vertex_def fold_SetBlock_col fun_eq_iff mZeros_Aux_def
        intro!: arg_cong [where f = "\<lambda>J. Jacobian_update J s"])
qed

text \<open>On the example, node 0 is owned and node 2 is a halo node, both on marker 0.\<close>

theorem Dirichlet_decoupling_witness:
  "LinSysRes (Impose_BC ex_geometry ex_config ex_solver) 1 = 0
   \<and> LinSysSol (Impose_BC ex_geometry ex_config ex_solver) 0 = 0
   \<and> Jacobian (Impose_BC ex_geometry ex_config ex_solver) 0 0 1 1 = 1
   \<and> Jacobian (Impose_BC ex_geometry ex_config ex_solver) 0 0 0 1 = 0
   \<and> Jacobian (Impose_BC ex_geometry ex_config ex_solver) 1 0 0 0 = 0
   \<and> Jacobian (Impose_BC ex_geometry ex_config ex_solver) 0 1 1 1 = 0
   \<and> Jacobian (Impose_BC ex_geometry ex_config ex_solver) 1 2 0 0 = 0
   \<and> Jacobian (Impose_BC ex_geometry ex_config ex_solver) 2 2 1 1 = 0
   \<and> Jacobian (Impose_BC ex_geometry ex_config ex_solver) 2 1 0 0 = 5
   \<and> Jacobian (Impose_BC ex_geometry ex_config ex_solver) 1 1 0 0 = 5"
proof -
  have vs: "Dirichlet_vertices ex_geometry ex_config = [0, 2]"
    by (simp add: Dirichlet_vertices_def ex_geometry_def ex_config_def NO_def YES_def upt_rec)
  have own: "node_Domain ex_geometry 0" and halo: "\<not> node_Domain ex_geometry 2"
    by (simp_all add: ex_geometry_def)
  have n: "CSolver_nDim ex_solver = 2" and np: "nPoint ex_solver = 3"
    and J: "Jacobian ex_solver = (\<lambda>p q a b. 5)"
    by (simp_all add: ex_solver_def)
  have d0: "\<forall>d < 2. LinSysRes (Impose_BC ex_geometry ex_config ex_solver) d = 0
              \<and> LinSysSol (Impose_BC ex_geometry ex_config ex_solver) d = 0"
    and j0: "\<forall>a < 2. \<forall>b < 2.
            Jacobian (Impose_BC ex_geometry ex_config ex_solver) 0 0 a b = (if a = b then 1 else 0)
            \<and> (\<forall>i < 3. i \<noteq> 0 \<longrightarrow>
                  Jacobian (Impose_BC ex_geometry ex_config ex_solver) i 0 a b = 0
                  \<and> Jacobian (Impose_BC ex_geometry ex_config ex_solver) 0 i a b = 0)"
    using Dirichlet_decoupling [of 0 ex_geometry ex_config ex_solver] own
    by (simp_all add: vs n np)
  have j2: "\<forall>i < 3. \<forall>a < 2. \<forall>b < 2.
            Jacobian (Impose_BC ex_geometry ex_config ex_solver) i 2 a b = 0"
    and r2: "\<forall>j. j \<notin> set [0, 2] \<longrightarrow>
            Jacobian (Impose_BC ex_geometry ex_config ex_solver) 2 j = (\<lambda>a b. 5)"
    using Dirichlet_decoupling [of 2 ex_geometry ex_config ex_solver] halo
    by (simp_all add: vs n np J)
  have r21: "Jacobian (Impose_BC ex_geometry ex_config ex_solver) 2 1 = (\<lambda>a b. 5)"
    using r2 by simp
  have "Jacobian (Impose_BC ex_geometry ex_config ex_solver) 1 1 0 0 =
          Jacobian ex_solver 1 1 0 0"
    unfolding Impose_BC_vertices Jacobian_fold_vertex by (simp add: vs)
  then have free: "Jacobian (Impose_BC ex_geometry ex_config ex_solver) 1 1 0 0 = 5"
    by (simp add: J)
  from d0 j0 j2 r21 free show ?thesis
    by (simp add: numeral_2_eq_2 numeral_3_eq_3 less_Suc_eq all_conj_distrib)
qed


section \<open>Gradients of the shape functions: proofs\<close>

subsection \<open>Closed forms of the loops\<close>

lemma accumulate_sum: "accumulate n f = (\<Sum>k<n. f k)"
proof -
  have "fold (\<lambda>k acc. acc + f k) [0..<n] a = a + (\<Sum>k<n. f k)" for a
    by (induction n) simp_all
  then show ?thesis by (simp add: accumulate_def)
qed

lemma fold_upt_Suc: "fold f [0..<Suc n] s = f n (fold f [0..<n] s)"
  by simp

lemma accumulate_2: "accumulate 2 f = f 0 + f 1"
  by (simp add: accumulate_sum numeral_2_eq_2)

lemma accumulate_3: "accumulate 3 f = f 0 + f 1 + f 2"
  by (simp add: accumulate_sum numeral_3_eq_3 numeral_2_eq_2)

lemma upd3_apply:
  "upd3 A i j k v i' j' k' = (if i' = i \<and> j' = j \<and> k' = k then v else A i' j' k')"
  by (simp add: upd3_def upd2_def)

lemma fold_SetGradNi_Xj_dims:
  "fold (\<lambda>iDim el. SetGradNi_Xj el g (V iDim) iDim i) [0..<m] el =
     el\<lparr>GradNi_Xj := (\<lambda>g' i' d. if g' = g \<and> i' = i \<and> d < m then V d else GradNi_Xj el g' i' d)\<rparr>"
proof (induction m)
  case 0
  show ?case by simp
next
  case (Suc m)
  show ?case
    by (simp only: fold_upt_Suc Suc)
       (auto simp add: SetGradNi_Xj_def upd3_apply fun_eq_iff less_Suc_eq)
qed

lemma fold_SetGradNi_Xj_nodes:
  "fold (\<lambda>iNode. fold (\<lambda>iDim el. SetGradNi_Xj el g (V iNode iDim) iDim iNode) [0..<m]) [0..<n] el =
     el\<lparr>GradNi_Xj := (\<lambda>g' i d. if g' = g \<and> i < n \<and> d < m then V i d else GradNi_Xj el g' i d)\<rparr>"
proof (induction n)
  case 0
  show ?case by simp
next
  case (Suc n)
  show ?case
    by (simp only: fold_upt_Suc Suc)
       (auto simp add: fold_SetGradNi_Xj_dims fun_eq_iff less_Suc_eq)
qed

lemma fold_gauss:
  assumes step: "\<And>g (e::CElement). step g e =
      e\<lparr>J_X := (J_X e)(g := a g (RefCoord e) (dNiXj e)  (nNodes e)),
        GradNi_Xj := (\<lambda>g' i d. if g' = g \<and> i < nNodes e \<and> d < m
                                 then V g (RefCoord e) (dNiXj e) (nNodes e) i d
                                 else GradNi_Xj e g' i d)\<rparr>"
  shows "fold step [0..<n] e =
      e\<lparr>J_X := (\<lambda>g. if g < n then a g (RefCoord e) (dNiXj e)  (nNodes e) else J_X e g),
        GradNi_Xj := (\<lambda>g i d. if g < n \<and> i < nNodes e \<and> d < m
                                then V g (RefCoord e) (dNiXj e) (nNodes e) i d
                                else GradNi_Xj e g i d)\<rparr>"
proof (induction n)
  case 0
  show ?case by simp
next
  case (Suc n)
  show ?case
    by (simp only: fold_upt_Suc Suc) (auto simp add: step fun_eq_iff less_Suc_eq)
qed

lemma ComputeGrad_2D_REFERENCE:
  "ComputeGrad_2D REFERENCE el =
     el\<lparr>J_X := (\<lambda>g. if g < nGaussPoints el then TrafoJacobi (RefCoord el) else J_X el g),
        GradNi_Xj := (\<lambda>g i d.
          if g < nGaussPoints el \<and> i < nNodes el \<and> d < 2
          then accumulate 2 (\<lambda>jDim.
                 ad_2D (Jacobian_flat (RefCoord el) (dNiXj el g) (nNodes el)) d jDim
                   / detJac_2D (Jacobian_flat (RefCoord el) (dNiXj el g) (nNodes el))
                 * dNiXj el g i jDim)
          else GradNi_Xj el g i d)\<rparr>"
  unfolding ComputeGrad_2D_def
  by (subst fold_gauss [where a = "\<lambda>g C dN n. TrafoJacobi C" and m = 2
        and V = "\<lambda>g C dN n i d. accumulate 2 (\<lambda>jDim.
                 ad_2D (Jacobian_flat C (dN g) n) d jDim / detJac_2D (Jacobian_flat C (dN g) n)
                 * dN g i jDim)"])
     (simp_all add: ComputeGrad_2D_gauss_def Let_def fold_SetGradNi_Xj_nodes SetJ_X_def cong: if_cong)

lemma ComputeGrad_3D_REFERENCE:
  "ComputeGrad_3D REFERENCE el =
     el\<lparr>J_X := (\<lambda>g. if g < nGaussPoints el
                     then detJac_3D (Jacobian_flat (RefCoord el) (dNiXj el g) (nNodes el))
                     else J_X el g),
        GradNi_Xj := (\<lambda>g i d.
          if g < nGaussPoints el \<and> i < nNodes el \<and> d < 3
          then accumulate 3 (\<lambda>jDim.
                 ad_3D (Jacobian_flat (RefCoord el) (dNiXj el g) (nNodes el)) d jDim
                   / detJac_3D (Jacobian_flat (RefCoord el) (dNiXj el g) (nNodes el))
                 * dNiXj el g i jDim)
          else GradNi_Xj el g i d)\<rparr>"
  unfolding ComputeGrad_3D_def
  by (subst fold_gauss [where a = "\<lambda>g C dN n. detJac_3D (Jacobian_flat C (dN g) n)" and m = 3
        and V = "\<lambda>g C dN n i d. accumulate 3 (\<lambda>jDim.
                 ad_3D (Jacobian_flat C (dN g) n) d jDim / detJac_3D (Jacobian_flat C (dN g) n)
                 * dN g i jDim)"])
     (simp_all add: ComputeGrad_3D_gauss_def Let_def fold_SetGradNi_Xj_nodes SetJ_X_def cong: if_cong)

lemma fold_SetGradNi_Xj_nodes1:
  "fold (\<lambda>iNode el. SetGradNi_Xj el g (V iNode) 0 iNode) [0..<n] el =
     el\<lparr>GradNi_Xj := (\<lambda>g' i d. if g' = g \<and> i < n \<and> d < 1 then V i else GradNi_Xj el g' i d)\<rparr>"
  using fold_SetGradNi_Xj_nodes [of g "\<lambda>i d. V i" 1 n el]
  by simp

lemma ComputeGrad_1D_REFERENCE:
  "ComputeGrad_1D REFERENCE el =
     el\<lparr>J_X := (\<lambda>g. if g < nGaussPoints el then RefCoord el 1 0 - RefCoord el 0 0 else J_X el g),
        GradNi_Xj := (\<lambda>g i d.
          if g < nGaussPoints el \<and> i < nNodes el \<and> d < 1
          then dNiXj el g i 0 / (RefCoord el 1 0 - RefCoord el 0 0)
          else GradNi_Xj el g i d)\<rparr>"
  unfolding ComputeGrad_1D_def
  by (subst fold_gauss [where a = "\<lambda>g C dN n. C 1 0 - C 0 0" and m = 1
        and V = "\<lambda>g C dN n i d. dN g i 0 / (C 1 0 - C 0 0)"])
     (simp_all add: ComputeGrad_1D_gauss_def Let_def fold_SetGradNi_Xj_nodes1 SetJ_X_def cong: if_cong)

lemma ComputeGrad_2D_Coord_closed:
  "ComputeGrad_2D_Coord C el =
     el\<lparr>J_X := (\<lambda>g. if g < nGaussPoints el then sqrt (detJacobian_surf C) else J_X el g),
        GradNi_Xj := (\<lambda>g i d.
          if g < nGaussPoints el \<and> i < nNodes el \<and> d < 3
          then accumulate 2 (\<lambda>jDim. Jdagger_surf C jDim d * dNiXj el g i jDim)
          else GradNi_Xj el g i d)\<rparr>"
  unfolding ComputeGrad_2D_Coord_def
  by (subst fold_gauss [where a = "\<lambda>g R dN n. sqrt (detJacobian_surf C)" and m = 3
        and V = "\<lambda>g R dN n i d. accumulate 2 (\<lambda>jDim. Jdagger_surf C jDim d * dN g i jDim)"])
     (simp_all add: ComputeGrad_2D_Coord_gauss_def Let_def fold_SetGradNi_Xj_nodes SetJ_X_def cong: if_cong)

lemma ComputeGrad_1D_Coord_closed:
  "ComputeGrad_1D_Coord C el =
     el\<lparr>J_X := (\<lambda>g. if g < nGaussPoints el then sqrt (JTJ_1D C) else J_X el g),
        GradNi_Xj := (\<lambda>g i d.
          if g < nGaussPoints el \<and> i < nNodes el \<and> d < 2
          then (if d = 0 then C 1 0 - C 0 0 else C 1 1 - C 0 1) * dNiXj el g i 0 / JTJ_1D C
          else GradNi_Xj el g i d)\<rparr>"
  unfolding ComputeGrad_1D_Coord_def Let_def
  by (subst fold_gauss [where a = "\<lambda>g R dN n. sqrt (JTJ_1D C)" and m = 2
        and V = "\<lambda>g R dN n i d.
               (if d = 0 then C 1 0 - C 0 0 else C 1 1 - C 0 1) * dN g i 0 / JTJ_1D C"])
     (simp_all add: fold_SetGradNi_Xj_nodes SetJ_X_def JTJ_1D_def cong: if_cong)

lemma sum_lessThan_2: "(\<Sum>k<(2::nat). f k) = f 0 + (f 1 :: real)"
  by (simp add: numeral_2_eq_2)

lemma sum_lessThan_3: "(\<Sum>k<(3::nat). f k) = f 0 + f 1 + (f 2 :: real)"
  by (simp add: numeral_3_eq_3 numeral_2_eq_2)

lemma less_2_cases: "(d::nat) < 2 \<longleftrightarrow> d = 0 \<or> d = 1"
  by auto

lemma less_3_cases: "(d::nat) < 3 \<longleftrightarrow> d = 0 \<or> d = 1 \<or> d = 2"
  by auto

lemma GradNi_2D_REFERENCE:
  assumes "g < nGaussPoints el" "i < nNodes el" "d < 2"
  shows "GetGradNi_X (ComputeGrad_2D REFERENCE el) i g d =
     ad_2D (Jacobian_flat (RefCoord el) (dNiXj el g) (nNodes el)) d 0
       / detJac_2D (Jacobian_flat (RefCoord el) (dNiXj el g) (nNodes el)) * dNiXj el g i 0
   + ad_2D (Jacobian_flat (RefCoord el) (dNiXj el g) (nNodes el)) d 1
       / detJac_2D (Jacobian_flat (RefCoord el) (dNiXj el g) (nNodes el)) * dNiXj el g i 1"
  using assms by (simp add: GetGradNi_X_def ComputeGrad_2D_REFERENCE accumulate_2)

lemma GradNi_3D_REFERENCE:
  assumes "g < nGaussPoints el" "i < nNodes el" "d < 3"
  shows "GetGradNi_X (ComputeGrad_3D REFERENCE el) i g d =
     ad_3D (Jacobian_flat (RefCoord el) (dNiXj el g) (nNodes el)) d 0
       / detJac_3D (Jacobian_flat (RefCoord el) (dNiXj el g) (nNodes el)) * dNiXj el g i 0
   + ad_3D (Jacobian_flat (RefCoord el) (dNiXj el g) (nNodes el)) d 1
       / detJac_3D (Jacobian_flat (RefCoord el) (dNiXj el g) (nNodes el)) * dNiXj el g i 1
   + ad_3D (Jacobian_flat (RefCoord el) (dNiXj el g) (nNodes el)) d 2
       / detJac_3D (Jacobian_flat (RefCoord el) (dNiXj el g) (nNodes el)) * dNiXj el g i 2"
  using assms by (simp add: GetGradNi_X_def ComputeGrad_3D_REFERENCE accumulate_3)

lemma sum_lin2:
  fixes f0 f1 :: "nat \<Rightarrow> real"
  assumes "(\<Sum>i<n. f0 i) = 0" "(\<Sum>i<n. f1 i) = 0"
  shows "(\<Sum>i<n. a * f0 i + b * f1 i) = 0"
  by (simp add: sum.distrib sum_distrib_left [symmetric] assms)

lemma sum_lin3:
  fixes f0 f1 f2 :: "nat \<Rightarrow> real"
  assumes "(\<Sum>i<n. f0 i) = 0" "(\<Sum>i<n. f1 i) = 0" "(\<Sum>i<n. f2 i) = 0"
  shows "(\<Sum>i<n. a * f0 i + b * f1 i + c * f2 i) = 0"
  by (simp add: sum.distrib sum_distrib_left [symmetric] assms)

subsection \<open>Partition of unity\<close>

text \<open>
  Claim C8. Take a flat element of dimension two or three and a Gauss point at which
  the Jacobian determinant is not zero. If the parametric derivatives of the shape
  functions sum to zero over the nodes, in every parametric direction, then so do the
  physical gradients that \<^verbatim>\<open>ComputeGrad_Linear\<close> stores, in every direction.
\<close>

theorem partition_of_unity:
  assumes dim: "CElement_nDim el = 2 \<or> CElement_nDim el = 3"
    and g: "iGauss < nGaussPoints el"
    and pu: "\<forall>jDim < CElement_nDim el. (\<Sum>iNode < nNodes el. dNiXj el iGauss iNode jDim) = 0"
    and nondeg: "(if CElement_nDim el = 2
                  then detJac_2D (Jacobian_flat (RefCoord el) (dNiXj el iGauss) (nNodes el))
                  else detJac_3D (Jacobian_flat (RefCoord el) (dNiXj el iGauss) (nNodes el))) \<noteq> 0"
  shows "\<forall>iDim < CElement_nDim el.
           (\<Sum>iNode < nNodes el. GetGradNi_X (ComputeGrad_Linear el) iNode iGauss iDim) = 0"
proof (intro allI impI)
  fix iDim
  assume d: "iDim < CElement_nDim el"
  from dim show "(\<Sum>iNode < nNodes el. GetGradNi_X (ComputeGrad_Linear el) iNode iGauss iDim) = 0"
  proof
    assume two: "CElement_nDim el = 2"
    from pu two have p0: "(\<Sum>iNode < nNodes el. dNiXj el iGauss iNode 0) = 0"
      and p1: "(\<Sum>iNode < nNodes el. dNiXj el iGauss iNode 1) = 0"
      by simp_all
    let ?J = "Jacobian_flat (RefCoord el) (dNiXj el iGauss) (nNodes el)"
    from d two have d2: "iDim < 2" by simp
    have "(\<Sum>iNode < nNodes el. GetGradNi_X (ComputeGrad_2D REFERENCE el) iNode iGauss iDim) =
          (\<Sum>iNode < nNodes el.
             ad_2D ?J iDim 0 / detJac_2D ?J * dNiXj el iGauss iNode 0
             + ad_2D ?J iDim 1 / detJac_2D ?J * dNiXj el iGauss iNode 1)"
      by (rule sum.cong) (simp_all only: GradNi_2D_REFERENCE [OF g _ d2] lessThan_iff)
    also have "\<dots> = 0"
      by (rule sum_lin2 [OF p0 p1])
    finally have "(\<Sum>iNode < nNodes el.
        GetGradNi_X (ComputeGrad_2D REFERENCE el) iNode iGauss iDim) = 0" .
    with two show ?thesis by (simp add: ComputeGrad_Linear_def)
  next
    assume three: "CElement_nDim el = 3"
    from pu three have p0: "(\<Sum>iNode < nNodes el. dNiXj el iGauss iNode 0) = 0"
      and p1: "(\<Sum>iNode < nNodes el. dNiXj el iGauss iNode 1) = 0"
      and p2: "(\<Sum>iNode < nNodes el. dNiXj el iGauss iNode 2) = 0"
      by simp_all
    let ?J = "Jacobian_flat (RefCoord el) (dNiXj el iGauss) (nNodes el)"
    from d three have d3: "iDim < 3" by simp
    have "(\<Sum>iNode < nNodes el. GetGradNi_X (ComputeGrad_3D REFERENCE el) iNode iGauss iDim) =
          (\<Sum>iNode < nNodes el.
             ad_3D ?J iDim 0 / detJac_3D ?J * dNiXj el iGauss iNode 0
             + ad_3D ?J iDim 1 / detJac_3D ?J * dNiXj el iGauss iNode 1
             + ad_3D ?J iDim 2 / detJac_3D ?J * dNiXj el iGauss iNode 2)"
      by (rule sum.cong) (simp_all only: GradNi_3D_REFERENCE [OF g _ d3] lessThan_iff)
    also have "\<dots> = 0"
      by (rule sum_lin3 [OF p0 p1 p2])
    finally have "(\<Sum>iNode < nNodes el.
        GetGradNi_X (ComputeGrad_3D REFERENCE el) iNode iGauss iDim) = 0" .
    with three show ?thesis by (simp add: ComputeGrad_Linear_def)
  qed
qed

lemma Jacobian_flat_3: "Jacobian_flat C dN 3 i j = C 0 j * dN 0 i + C 1 j * dN 1 i + C 2 j * dN 2 i"
  by (simp add: Jacobian_flat_def accumulate_3)

lemma ex_tria_Jacobian:
  "Jacobian_flat (RefCoord ex_tria) (dNiXj ex_tria 0) (nNodes ex_tria) =
     (\<lambda>i j. if (i = 0 \<and> j = 0) \<or> (i \<noteq> 0 \<and> j = 1) then 1 else 0)"
  by (auto simp add: ex_tria_def Jacobian_flat_3 fun_eq_iff)

text \<open>The unit right triangle: the three gradients add up to zero in both directions.\<close>

theorem partition_of_unity_witness:
  "GetGradNi_X (ComputeGrad_Linear ex_tria) 0 0 0
     + GetGradNi_X (ComputeGrad_Linear ex_tria) 1 0 0
     + GetGradNi_X (ComputeGrad_Linear ex_tria) 2 0 0 = 0
   \<and> GetGradNi_X (ComputeGrad_Linear ex_tria) 0 0 1
     + GetGradNi_X (ComputeGrad_Linear ex_tria) 1 0 1
     + GetGradNi_X (ComputeGrad_Linear ex_tria) 2 0 1 = 0"
proof -
  have dim: "CElement_nDim ex_tria = 2 \<or> CElement_nDim ex_tria = 3"
    and g: "0 < nGaussPoints ex_tria"
    by (simp_all add: ex_tria_def)
  have pu: "\<forall>jDim < CElement_nDim ex_tria.
              (\<Sum>iNode < nNodes ex_tria. dNiXj ex_tria 0 iNode jDim) = 0"
    by (simp add: ex_tria_def sum_lessThan_3 less_2_cases)
  have nondeg: "(if CElement_nDim ex_tria = 2
        then detJac_2D (Jacobian_flat (RefCoord ex_tria) (dNiXj ex_tria 0) (nNodes ex_tria))
        else detJac_3D (Jacobian_flat (RefCoord ex_tria) (dNiXj ex_tria 0) (nNodes ex_tria))) \<noteq> 0"
    by (simp add: ex_tria_Jacobian detJac_2D_def ad_2D_def) (simp add: ex_tria_def)
  have n: "nNodes ex_tria = 3" and d: "CElement_nDim ex_tria = 2"
    by (simp_all add: ex_tria_def)
  from partition_of_unity [OF dim g pu nondeg] show ?thesis
    by (simp add: n d sum_lessThan_3 less_2_cases)
qed

subsection \<open>The two Jacobian values of the flat two-dimensional routine\<close>

lemma accumulate_4: "accumulate 4 f = f 0 + f 1 + f 2 + f 3"
proof -
  have "{..<4::nat} = {0, 1, 2, 3}" by auto
  then show ?thesis
    by (simp add: accumulate_sum)
qed

lemma quad_Jacobian_identity:
  "Jacobian_flat (RefCoord ex_quad) (quad_dNiXj Xi Eta) 4 =
     (\<lambda>iDim jDim. if iDim = 0 then (if jDim = 0 then 1 else 0)
                   else (if jDim = 0 then 0 else 1))"
  by (auto simp add: fun_eq_iff Jacobian_flat_def accumulate_4 ex_quad_def quad_dNiXj_def
      field_simps)

text \<open>
  Claim C7. On the four-node quadrilateral that coincides with its reference square,
  the adjugate-based determinant of \<^verbatim>\<open>ComputeGrad_2D\<close> is 1 at the first Gauss point,
  while the edge-vector value computed from the first three corners is 4, and it is
  the latter that is stored as \<open>J_X\<close>: the two values do not agree in magnitude.
\<close>

theorem quad_Jacobian_mismatch:
  "detJac_2D (Jacobian_flat (RefCoord ex_quad) (dNiXj ex_quad 0) (nNodes ex_quad)) = 1
   \<and> TrafoJacobi (RefCoord ex_quad) = 4
   \<and> GetJ_X (ComputeGrad_2D REFERENCE ex_quad) 0 = 4"
proof -
  have dN: "dNiXj ex_quad 0 = quad_dNiXj (- 1 / sqrt 3) (- 1 / sqrt 3)"
    and n: "nNodes ex_quad = 4" and g: "nGaussPoints ex_quad = 4"
    by (simp_all add: ex_quad_def)
  have det: "detJac_2D (Jacobian_flat (RefCoord ex_quad) (dNiXj ex_quad 0) (nNodes ex_quad)) = 1"
    by (simp add: dN n quad_Jacobian_identity detJac_2D_def ad_2D_def)
  have trafo: "TrafoJacobi (RefCoord ex_quad) = 4"
    by (simp add: TrafoJacobi_def ex_quad_def)
  have "GetJ_X (ComputeGrad_2D REFERENCE ex_quad) 0 = TrafoJacobi (RefCoord ex_quad)"
    by (simp add: GetJ_X_def ComputeGrad_2D_REFERENCE g)
  with det trafo show ?thesis by simp
qed

text \<open>For the three-node triangle with the linear derivative table the two values do
  agree in magnitude, whatever the coordinates.\<close>

lemma tria_detJac_agrees:
  assumes "nNodes el = 3"
    and "dNiXj el g 0 0 = - 1" "dNiXj el g 0 1 = - 1"
    and "dNiXj el g 1 0 = 1" "dNiXj el g 1 1 = 0"
    and "dNiXj el g 2 0 = 0" "dNiXj el g 2 1 = 1"
  shows "\<bar>detJac_2D (Jacobian_flat (RefCoord el) (dNiXj el g) (nNodes el))\<bar> = TrafoJacobi (RefCoord el)"
proof -
  have "detJac_2D (Jacobian_flat (RefCoord el) (dNiXj el g) (nNodes el)) =
        (RefCoord el 1 0 - RefCoord el 0 0) * (RefCoord el 2 1 - RefCoord el 0 1)
        - (RefCoord el 2 0 - RefCoord el 0 0) * (RefCoord el 1 1 - RefCoord el 0 1)"
    using assms by (simp add: detJac_2D_def ad_2D_def Jacobian_flat_3 algebra_simps)
  then show ?thesis by (simp add: TrafoJacobi_def)
qed

subsection \<open>The curved case\<close>

lemma JTJ_surf_normal: "JTJ_surf C = normal_matrix (Jacobian_surf C)"
  by (simp add: fun_eq_iff JTJ_surf_def normal_matrix_def accumulate_sum)

lemma inverse_2x2_row:
  fixes a b c d x y D :: real
  assumes D: "D \<noteq> 0" and det: "a * d - b * c = D"
  shows "a * (d / D * x + - b / D * y) + b * (- c / D * x + a / D * y) = x"
    and "c * (d / D * x + - b / D * y) + d * (- c / D * x + a / D * y) = y"
proof -
  have "a * (d / D * x + - b / D * y) + b * (- c / D * x + a / D * y) = (a * d - b * c) * x / D"
    using D by (simp add: field_simps)
  then show "a * (d / D * x + - b / D * y) + b * (- c / D * x + a / D * y) = x"
    using D by (simp add: det)
  have "c * (d / D * x + - b / D * y) + d * (- c / D * x + a / D * y) = (a * d - b * c) * y / D"
    using D by (simp add: field_simps)
  then show "c * (d / D * x + - b / D * y) + d * (- c / D * x + a / D * y) = y"
    using D by (simp add: det)
qed

lemma normal_times_Jdagger:
  assumes "detJacobian_surf C \<noteq> 0" "i < 2"
  shows "(\<Sum>k<(2::nat). JTJ_surf C i k * Jdagger_surf C k j) = Jacobian_surf C j i"
proof -
  have det: "JTJ_surf C 0 0 * JTJ_surf C 1 1 - JTJ_surf C 0 1 * JTJ_surf C 1 0 = detJacobian_surf C"
    by (simp add: detJacobian_surf_def)
  note inv = inverse_2x2_row [OF assms(1) det, of "Jacobian_surf C j 0" "Jacobian_surf C j 1"]
  from assms(2) have "i = 0 \<or> i = 1" by auto
  then show ?thesis
  proof
    assume "i = 0"
    then show ?thesis
      using inv(1) by (simp add: sum_lessThan_2 Jdagger_surf_def accumulate_2 JTJinv_surf_def)
  next
    assume "i = 1"
    then show ?thesis
      using inv(2) by (simp add: sum_lessThan_2 Jdagger_surf_def accumulate_2 JTJinv_surf_def)
  qed
qed

text \<open>
  In the curved case \<^verbatim>\<open>ComputeGrad_Linear\<close> works from the caller's coordinates. For two
  parametric dimensions let \<open>E\<close> be the 3 by 2 matrix of the edge vectors from node 0 to
  the nodes 1 and 2, which is what the code calls \<^verbatim>\<open>Jacobian\<close>. The matrix \<open>JTJ\<close> of the code
  is \<open>E\<^sup>t\<cdot>E\<close>; when its determinant is not zero, the matrix \<open>Jdagger\<close> of the code satisfies
  \<open>(E\<^sup>t\<cdot>E)\<cdot>Jdagger = E\<^sup>t\<close>; the stored gradient of a shape function has the components
  \<open>\<Sum>j. Jdagger[j][d] \<cdot> dN/d\<xi>\<^sub>j\<close>; and the stored Jacobian value is \<open>sqrt (det (E\<^sup>t\<cdot>E))\<close>. For one
  parametric dimension \<open>E\<close> is the edge vector in the plane and the same facts hold. This
  is the pseudo-inverse of the edge matrix, whatever the element.
\<close>

lemma edge_matrix_pseudo_inverse:
  assumes g: "iGauss < nGaussPoints el" and n: "iShape < nNodes el"
  shows "(CElement_nDim el \<noteq> 1 \<longrightarrow> detJacobian_surf C \<noteq> 0 \<longrightarrow>
            JTJ_surf C = normal_matrix (Jacobian_surf C)
            \<and> (\<forall>i<2. \<forall>j<3.
                  (\<Sum>k<(2::nat). normal_matrix (Jacobian_surf C) i k * Jdagger_surf C k j)
                    = Jacobian_surf C j i)
            \<and> (\<forall>iDim<3.
                  GetGradNi_X (ComputeGrad_Linear_Coord C el) iShape iGauss iDim
                    = (\<Sum>jDim<(2::nat). Jdagger_surf C jDim iDim * dNiXj el iGauss iShape jDim))
            \<and> GetJ_X (ComputeGrad_Linear_Coord C el) iGauss
                = sqrt (normal_matrix (Jacobian_surf C) 0 0 * normal_matrix (Jacobian_surf C) 1 1
                        - normal_matrix (Jacobian_surf C) 0 1 * normal_matrix (Jacobian_surf C) 1 0))
       \<and> (CElement_nDim el = 1 \<longrightarrow> JTJ_1D C \<noteq> 0 \<longrightarrow>
            (\<forall>iDim<2.
               JTJ_1D C * ((C 1 iDim - C 0 iDim) / JTJ_1D C) = C 1 iDim - C 0 iDim
               \<and> GetGradNi_X (ComputeGrad_Linear_Coord C el) iShape iGauss iDim
                   = (C 1 iDim - C 0 iDim) / JTJ_1D C * dNiXj el iGauss iShape 0)
            \<and> GetJ_X (ComputeGrad_Linear_Coord C el) iGauss
                = sqrt ((C 1 0 - C 0 0) * (C 1 0 - C 0 0) + (C 1 1 - C 0 1) * (C 1 1 - C 0 1)))"
proof (intro conjI impI)
  assume "CElement_nDim el \<noteq> 1" and det: "detJacobian_surf C \<noteq> 0"
  then have lin: "ComputeGrad_Linear_Coord C el = ComputeGrad_2D_Coord C el"
    by (simp add: ComputeGrad_Linear_Coord_def)
  show "JTJ_surf C = normal_matrix (Jacobian_surf C)"
    by (rule JTJ_surf_normal)
  show "\<forall>i<2. \<forall>j<3.
          (\<Sum>k<(2::nat). normal_matrix (Jacobian_surf C) i k * Jdagger_surf C k j)
            = Jacobian_surf C j i"
    using normal_times_Jdagger [OF det] by (simp add: JTJ_surf_normal)
  show "\<forall>iDim<3.
          GetGradNi_X (ComputeGrad_Linear_Coord C el) iShape iGauss iDim
            = (\<Sum>jDim<(2::nat). Jdagger_surf C jDim iDim * dNiXj el iGauss iShape jDim)"
    using g n by (simp add: lin GetGradNi_X_def ComputeGrad_2D_Coord_closed accumulate_sum)
  show "GetJ_X (ComputeGrad_Linear_Coord C el) iGauss
          = sqrt (normal_matrix (Jacobian_surf C) 0 0 * normal_matrix (Jacobian_surf C) 1 1
                  - normal_matrix (Jacobian_surf C) 0 1 * normal_matrix (Jacobian_surf C) 1 0)"
    using g by (simp add: lin GetJ_X_def ComputeGrad_2D_Coord_closed detJacobian_surf_def
        JTJ_surf_normal)
next
  assume one: "CElement_nDim el = 1" and nz: "JTJ_1D C \<noteq> 0"
  then have lin: "ComputeGrad_Linear_Coord C el = ComputeGrad_1D_Coord C el"
    by (simp add: ComputeGrad_Linear_Coord_def)
  show "\<forall>iDim<2.
          JTJ_1D C * ((C 1 iDim - C 0 iDim) / JTJ_1D C) = C 1 iDim - C 0 iDim
          \<and> GetGradNi_X (ComputeGrad_Linear_Coord C el) iShape iGauss iDim
              = (C 1 iDim - C 0 iDim) / JTJ_1D C * dNiXj el iGauss iShape 0"
    using g n nz
    by (auto simp add: lin GetGradNi_X_def ComputeGrad_1D_Coord_closed less_2_cases)
  show "GetJ_X (ComputeGrad_Linear_Coord C el) iGauss
          = sqrt ((C 1 0 - C 0 0) * (C 1 0 - C 0 0) + (C 1 1 - C 0 1) * (C 1 1 - C 0 1))"
    using g by (simp add: lin GetJ_X_def ComputeGrad_1D_Coord_closed JTJ_1D_def)
qed

lemma ex_Coord3_JTJ:
  "JTJ_surf ex_Coord3 = (\<lambda>i j. if i = 0 \<and> j = 0 then 2 else if i = j \<and> i = 1 then 1 else 0)"
  by (auto simp add: fun_eq_iff JTJ_surf_def accumulate_3 Jacobian_surf_def ex_Coord3_def)

text \<open>The triangle \<open>(0,0,0)\<close>, \<open>(1,0,1)\<close>, \<open>(0,1,0)\<close>: the gradient of the second shape
  function is \<open>(1/2, 0, 1/2)\<close> and the area element is \<open>\<surd>2\<close>.\<close>

lemma edge_matrix_pseudo_inverse_tria:
  "GetGradNi_X (ComputeGrad_Linear_Coord ex_Coord3 ex_tria) 1 0 0 = 1 / 2
   \<and> GetGradNi_X (ComputeGrad_Linear_Coord ex_Coord3 ex_tria) 1 0 1 = 0
   \<and> GetGradNi_X (ComputeGrad_Linear_Coord ex_Coord3 ex_tria) 1 0 2 = 1 / 2
   \<and> GetJ_X (ComputeGrad_Linear_Coord ex_Coord3 ex_tria) 0 = sqrt 2"
proof -
  have g: "0 < nGaussPoints ex_tria" and n: "1 < nNodes ex_tria"
    and d: "CElement_nDim ex_tria \<noteq> 1"
    by (simp_all add: ex_tria_def)
  have det: "detJacobian_surf ex_Coord3 = 2"
    by (simp add: detJacobian_surf_def ex_Coord3_JTJ)
  have nm: "normal_matrix (Jacobian_surf ex_Coord3) =
      (\<lambda>i j. if i = 0 \<and> j = 0 then 2 else if i = j \<and> i = 1 then 1 else 0)"
    using JTJ_surf_normal [of ex_Coord3] by (simp add: ex_Coord3_JTJ)
  have Jd: "Jdagger_surf ex_Coord3 0 0 = 1 / 2" "Jdagger_surf ex_Coord3 0 (Suc 0) = 0"
    "Jdagger_surf ex_Coord3 0 2 = 1 / 2"
    by (simp_all add: Jdagger_surf_def accumulate_2 JTJinv_surf_def det ex_Coord3_JTJ
        Jacobian_surf_def ex_Coord3_def)
  have dN: "dNiXj ex_tria 0 (Suc 0) = (\<lambda>iDim. if iDim = 0 then 1 else 0)"
    by (simp add: ex_tria_def fun_eq_iff)
  from edge_matrix_pseudo_inverse [OF g n, of ex_Coord3] d det show ?thesis
    by (simp add: nm Jd dN sum_lessThan_2 less_3_cases)
qed

text \<open>For the three-node triangle with the linear derivative table the matrix of the
  edge vectors is the Jacobian matrix of the specification, so that there the stored
  values are those of the pseudo-inverse of the Jacobian.\<close>

lemma tria_Jacobian_table:
  assumes "dNiXj el g 0 0 = - 1" "dNiXj el g 0 1 = - 1"
    and "dNiXj el g 1 0 = 1" "dNiXj el g 1 1 = 0"
    and "dNiXj el g 2 0 = 0" "dNiXj el g 2 1 = 1"
    and "jDim < 2"
  shows "Jacobian_table C (dNiXj el g) 3 iDim jDim = Jacobian_surf C iDim jDim"
proof -
  from assms(7) have "jDim = 0 \<or> jDim = 1" by auto
  then show ?thesis
    using assms(1-6)
    by (auto simp add: Jacobian_table_def sum_lessThan_3 Jacobian_surf_def numeral_2_eq_2)
qed

lemma sum_lessThan_4: "(\<Sum>k<(4::nat). f k) = f 0 + f 1 + f 2 + (f 3 :: real)"
proof -
  have "{..<4::nat} = {0, 1, 2, 3}" by auto
  then show ?thesis by simp
qed

lemma ex_square_Jacobian_table:
  "Jacobian_table ex_square (quad_dNiXj Xi Eta) 4 iDim jDim =
     (if iDim = jDim \<and> jDim < 2 then 1 else 0)"
  if "jDim < 2" for jDim
proof -
  from that have "jDim = 0 \<or> jDim = 1" by auto
  then show ?thesis
    by (auto simp add: Jacobian_table_def sum_lessThan_4 ex_square_def quad_dNiXj_def field_simps)
qed

text \<open>
  Claim C6. The four-node quadrilateral, which the solver constructs next to the
  triangle, on the reference square in the plane \<open>z = 0\<close> of space, at its first Gauss
  point. The Jacobian matrix \<open>J\<close> built from the derivative table has \<open>J\<^sup>t\<cdot>J\<close> equal to the
  identity, so that \<open>sqrt (det (J\<^sup>t\<cdot>J))\<close> is 1 and \<open>(J\<^sup>t\<cdot>J)\<^sup>-\<^sup>1\<cdot>J\<^sup>t\<close> applied to the parametric
  derivatives of the shape function of node 1 has the first component
  \<open>(1 + 1/\<surd>3)/4\<close>. The curved branch of \<^verbatim>\<open>ComputeGrad_Linear\<close> stores the Jacobian value 4
  and the first component \<open>(1 + 1/\<surd>3)/8\<close>: it takes the edge vectors of the first three
  corners for the Jacobian matrix, which they are for the three-node triangle only.
\<close>

theorem quad_surface_Jacobian_mismatch:
  "normal_matrix (Jacobian_table ex_square (dNiXj ex_quad 0) (nNodes ex_quad)) 0 0 = 1
   \<and> normal_matrix (Jacobian_table ex_square (dNiXj ex_quad 0) (nNodes ex_quad)) 0 1 = 0
   \<and> normal_matrix (Jacobian_table ex_square (dNiXj ex_quad 0) (nNodes ex_quad)) 1 0 = 0
   \<and> normal_matrix (Jacobian_table ex_square (dNiXj ex_quad 0) (nNodes ex_quad)) 1 1 = 1
   \<and> GetJ_X (ComputeGrad_Linear_Coord ex_square ex_quad) 0 = 4
   \<and> (\<Sum>jDim<(2::nat). Jacobian_table ex_square (dNiXj ex_quad 0) (nNodes ex_quad) 0 jDim
                          * dNiXj ex_quad 0 1 jDim) = (1 + 1 / sqrt 3) / 4
   \<and> GetGradNi_X (ComputeGrad_Linear_Coord ex_square ex_quad) 1 0 0 = (1 + 1 / sqrt 3) / 8"
proof -
  have dN: "dNiXj ex_quad 0 = quad_dNiXj (- 1 / sqrt 3) (- 1 / sqrt 3)"
    and n: "nNodes ex_quad = 4" and g: "nGaussPoints ex_quad = 4"
    and d: "CElement_nDim ex_quad = 2"
    by (simp_all add: ex_quad_def)
  have lin: "ComputeGrad_Linear_Coord ex_square ex_quad = ComputeGrad_2D_Coord ex_square ex_quad"
    by (simp add: ComputeGrad_Linear_Coord_def d)
  have nm: "normal_matrix (Jacobian_table ex_square (dNiXj ex_quad 0) (nNodes ex_quad)) i j
      = (if i = j then 1 else 0)" if "i < 2" "j < 2" for i j
    unfolding dN n normal_matrix_def using that
    by (simp add: ex_square_Jacobian_table sum_lessThan_3)
  have det: "detJacobian_surf ex_square = 16"
    by (simp add: detJacobian_surf_def JTJ_surf_def accumulate_3 Jacobian_surf_def ex_square_def)
  have sq: "sqrt 16 = (4::real)"
    by (rule real_sqrt_unique) simp_all
  have JX: "GetJ_X (ComputeGrad_Linear_Coord ex_square ex_quad) 0 = 4"
    by (simp add: lin GetJ_X_def ComputeGrad_2D_Coord_closed g det sq)
  have cl: "(\<Sum>jDim<(2::nat). Jacobian_table ex_square (dNiXj ex_quad 0) (nNodes ex_quad) 0 jDim
                          * dNiXj ex_quad 0 1 jDim) = (1 + 1 / sqrt 3) / 4"
    unfolding dN n
    by (simp add: sum_lessThan_2 ex_square_Jacobian_table) (simp add: quad_dNiXj_def)
  have Jd: "Jdagger_surf ex_square 0 0 = 1 / 2" "Jdagger_surf ex_square (Suc 0) 0 = 0"
    by (simp_all add: Jdagger_surf_def accumulate_2 JTJinv_surf_def det JTJ_surf_def accumulate_3
        Jacobian_surf_def ex_square_def)
  have gr: "GetGradNi_X (ComputeGrad_Linear_Coord ex_square ex_quad) 1 0 0 = (1 + 1 / sqrt 3) / 8"
    by (simp add: lin GetGradNi_X_def ComputeGrad_2D_Coord_closed g n accumulate_2 Jd dN)
       (simp add: quad_dNiXj_def)
  from nm [of 0 0] nm [of 0 1] nm [of 1 0] nm [of 1 1] JX cl gr show ?thesis by simp
qed


section \<open>The local operator: proofs\<close>

subsection \<open>Loops that may fail\<close>

lemma ebind_Inr [simp]: "ebind (Inr x) f = f x"
  by (simp add: ebind_def)

lemma ebind_Inl [simp]: "ebind (Inl e) f = Inl e"
  by (simp add: ebind_def)

lemma for_loop_snoc: "for_loop (xs @ [x]) body s = ebind (for_loop xs body s) (body x)"
proof (induction xs arbitrary: s)
  case Nil
  show ?case by (cases "body x s") simp_all
next
  case (Cons y ys)
  show ?case
    by (cases "body y s") (simp_all add: Cons)
qed

lemma for_loop_rule:
  assumes le: "a \<le> m"
    and init: "I a s"
    and step: "\<And>i s. a \<le> i \<Longrightarrow> i < m \<Longrightarrow> I i s \<Longrightarrow> \<exists>s'. body i s = Inr s' \<and> I (Suc i) s'"
  shows "\<exists>s'. for_loop [a..<m] body s = Inr s' \<and> I m s'"
proof -
  have "k \<le> m - a \<Longrightarrow> \<exists>s'. for_loop [a..<a + k] body s = Inr s' \<and> I (a + k) s'" for k
  proof (induction k)
    case 0
    show ?case using init by simp
  next
    case (Suc k)
    then obtain s1 where s1: "for_loop [a..<a + k] body s = Inr s1" "I (a + k) s1"
      by auto
    from Suc.prems have "a + k < m" by arith
    from step [OF _ this s1(2)] obtain s2 where "body (a + k) s1 = Inr s2" "I (Suc (a + k)) s2"
      by auto
    then show ?case
      by (simp add: for_loop_snoc s1)
  qed
  from this [of "m - a"] le show ?thesis by simp
qed

lemma rd1_in [simp]: "i < length xs \<Longrightarrow> rd1 xs i = Inr (xs ! i)"
  by (simp add: rd1_def)

lemma wr1_in [simp]: "i < length xs \<Longrightarrow> wr1 xs i v = Inr (xs[i := v])"
  by (simp add: wr1_def)

lemma rd2_in [simp]: "i < length xss \<Longrightarrow> j < length (xss ! i) \<Longrightarrow> rd2 xss i j = Inr (xss ! i ! j)"
  by (simp add: rd2_def)

lemma wr2_in [simp]:
  "i < length xss \<Longrightarrow> j < length (xss ! i) \<Longrightarrow> wr2 xss i j v = Inr (xss[i := (xss ! i)[j := v]])"
  by (simp add: wr2_def)

lemma rect_update: "rect r c xss \<Longrightarrow> i < r \<Longrightarrow> rect r c (xss[i := (xss ! i)[j := v]])"
  by (auto simp add: rect_def nth_list_update)

lemma rect_nth_update:
  "rect r c xss \<Longrightarrow> i < r \<Longrightarrow> j < c \<Longrightarrow> i' < r \<Longrightarrow> j' < c \<Longrightarrow>
   xss[i := (xss ! i)[j := v]] ! i' ! j' = (if i' = i \<and> j' = j then v else xss ! i' ! j')"
  by (auto simp add: rect_def nth_list_update)

lemma allocated_rect:
  "allocated num \<longleftrightarrow> rect 8 (CNumerics_nDim num) (GradNi_Ref_Mat num)
     \<and> rect (CNumerics_nDim num) (CNumerics_nDim num) (val_DHiDHj num)
     \<and> length (Ni_Vec num) = 8"
  by (auto simp add: allocated_def rect_def all_set_conv_all_nth)

text \<open>Filling a rectangular region of a buffer, row by row.\<close>

lemma fill_rows:
  fixes upd :: "'b \<Rightarrow> su2double list list \<Rightarrow> 'b" and buf :: "'b \<Rightarrow> su2double list list"
  assumes buf_upd: "\<And>s X. buf (upd s X) = X"
    and upd_upd: "\<And>s X Y. upd (upd s X) Y = upd s Y"
    and upd_buf: "\<And>s. upd s (buf s) = s"
    and rect: "rect r c (buf s)"
    and m: "m \<le> r" and k: "k \<le> c"
  shows "\<exists>X. for_loop [0..<m] (\<lambda>i. for_loop [0..<k] (\<lambda>j s.
                ebind (wr2 (buf s) i j (f i j)) (\<lambda>X. Inr (upd s X)))) s = Inr (upd s X)
             \<and> rect r c X \<and> (\<forall>i<m. \<forall>j<k. X ! i ! j = f i j)"
proof -
  let ?body = "\<lambda>i j s. ebind (wr2 (buf s) i j (f i j)) (\<lambda>X. Inr (upd s X))"
  let ?inner = "\<lambda>i. for_loop [0..<k] (?body i)"
  let ?I = "\<lambda>i t. \<exists>X. t = upd s X \<and> rect r c X \<and> (\<forall>i'<i. \<forall>j<k. X ! i' ! j = f i' j)"
  have "\<exists>s'. for_loop [0..<m] ?inner s = Inr s' \<and> ?I m s'"
  proof (rule for_loop_rule [where I = ?I])
    show "0 \<le> m" by simp
    show "?I 0 s" using rect upd_buf [of s] by (intro exI [of _ "buf s"]) simp
  next
    fix i t
    assume i: "i < m" and inv: "?I i t"
    let ?I' = "\<lambda>j t. \<exists>X. t = upd s X \<and> rect r c X
        \<and> (\<forall>i'<i. \<forall>j'<k. X ! i' ! j' = f i' j') \<and> (\<forall>j'<j. X ! i ! j' = f i j')"
    have "\<exists>s'. ?inner i t = Inr s' \<and> ?I' k s'"
    proof (rule for_loop_rule [where I = ?I'])
      show "0 \<le> k" by simp
      show "?I' 0 t" using inv by auto
    next
      fix j u
      assume j: "j < k" and inv': "?I' j u"
      then obtain X where X: "u = upd s X" "rect r c X"
        "\<forall>i'<i. \<forall>j'<k. X ! i' ! j' = f i' j'" "\<forall>j'<j. X ! i ! j' = f i j'"
        by auto
      from i m have ir: "i < r" by simp
      from j k have jc: "j < c" by simp
      let ?X' = "X[i := (X ! i)[j := f i j]]"
      from X(2) ir jc have "wr2 X i j (f i j) = Inr ?X'"
        by (simp add: rect_def)
      then have run: "?body i j u = Inr (upd s ?X')"
        by (simp add: X(1) buf_upd upd_upd)
      have r': "rect r c ?X'" using X(2) ir by (rule rect_update)
      have v1: "\<forall>i'<i. \<forall>j'<k. ?X' ! i' ! j' = f i' j'"
        using X(3) rect_nth_update [OF X(2) ir jc] ir k by auto
      have v2: "\<forall>j'<Suc j. ?X' ! i ! j' = f i j'"
        using X(4) rect_nth_update [OF X(2) ir jc ir] jc by (auto simp add: less_Suc_eq)
      from run r' v1 v2 show "\<exists>s'. ?body i j u = Inr s' \<and> ?I' (Suc j) s'"
        by blast
    qed
    then show "\<exists>s'. ?inner i t = Inr s' \<and> ?I (Suc i) s'"
      by (auto simp add: less_Suc_eq)
  qed
  then show ?thesis by auto
qed

lemma for_loop_Suc: "for_loop [0..<Suc k] body s = ebind (for_loop [0..<k] body s) (body k)"
  by (simp add: for_loop_snoc)

lemma dot_loop:
  assumes "rect r c G" "i < r" "j < r" "k \<le> c"
  shows "for_loop [0..<k] (\<lambda>iDim acc.
           ebind (rd2 G i iDim) (\<lambda>gi. ebind (rd2 G j iDim) (\<lambda>gj. Inr (acc + gi * gj)))) a
         = Inr (a + (\<Sum>d<k. G ! i ! d * G ! j ! d))"
  using assms(4)
proof (induction k)
  case 0
  show ?case by simp
next
  case (Suc k)
  then have "k < c" by simp
  with assms(1-3) have "rd2 G i k = Inr (G ! i ! k)" "rd2 G j k = Inr (G ! j ! k)"
    by (simp_all add: rect_def)
  with Suc show ?case
    by (simp only: for_loop_Suc) (simp add: add.assoc)
qed

lemma upd4_apply:
  "upd4 A i j k l v i' j' k' l' =
     (if i' = i \<and> j' = j \<and> k' = k \<and> l' = l then v else A i' j' k' l')"
  by (simp add: upd4_def upd3_def upd2_def)

lemma upd2_apply: "upd2 A i j v i' j' = (if i' = i \<and> j' = j then v else A i' j')"
  by (simp add: upd2_def)

lemma Add_loop_closed:
  fixes el :: CElement
  assumes R: "\<And>i j. i < n \<Longrightarrow> j < n \<Longrightarrow> R i j = Inr (w i j)"
    and D: "DHiDHj el = Some D"
  shows "for_loop [0..<n] (\<lambda>iDim. for_loop [0..<n] (\<lambda>jDim el.
           ebind (R iDim jDim) (\<lambda>v.
             case DHiDHj el of
               None \<Rightarrow> Inl NullPointer
             | Some D \<Rightarrow> Inr (el\<lparr>DHiDHj := Some (upd4 D A B iDim jDim
                                                   (D A B iDim jDim + v))\<rparr>)))) el
         = Inr (el\<lparr>DHiDHj := Some (\<lambda>a b i j.
                     if a = A \<and> b = B \<and> i < n \<and> j < n then D a b i j + w i j
                     else D a b i j)\<rparr>)"
proof -
  let ?body = "\<lambda>iDim jDim (el::CElement).
           ebind (R iDim jDim) (\<lambda>v.
             case DHiDHj el of
               None \<Rightarrow> Inl NullPointer
             | Some D \<Rightarrow> Inr (el\<lparr>DHiDHj := Some (upd4 D A B iDim jDim
                                                   (D A B iDim jDim + v))\<rparr>))"
  let ?I = "\<lambda>k t. t = el\<lparr>DHiDHj := Some (\<lambda>a b i j.
                     if a = A \<and> b = B \<and> i < k \<and> j < n then D a b i j + w i j
                     else D a b i j)\<rparr>"
  have "\<exists>s'. for_loop [0..<n] (\<lambda>iDim. for_loop [0..<n] (?body iDim)) el = Inr s' \<and> ?I n s'"
  proof (rule for_loop_rule [where I = ?I])
    show "0 \<le> n" by simp
    show "?I 0 el" using D by simp
  next
    fix i t
    assume i: "i < n" and inv: "?I i t"
    let ?I' = "\<lambda>l t. t = el\<lparr>DHiDHj := Some (\<lambda>a b i' j.
                     if a = A \<and> b = B \<and> (i' < i \<and> j < n \<or> i' = i \<and> j < l)
                     then D a b i' j + w i' j else D a b i' j)\<rparr>"
    have "\<exists>s'. for_loop [0..<n] (?body i) t = Inr s' \<and> ?I' n s'"
    proof (rule for_loop_rule [where I = ?I'])
      show "0 \<le> n" by simp
      show "?I' 0 t" using inv by simp
    next
      fix j u
      assume j: "j < n" and inv': "?I' j u"
      let ?D = "\<lambda>a b i' j'.
                     if a = A \<and> b = B \<and> (i' < i \<and> j' < n \<or> i' = i \<and> j' < j)
                     then D a b i' j' + w i' j' else D a b i' j'"
      have fe: "upd4 ?D A B i j (?D A B i j + w i j) = (\<lambda>a b i' j'.
                     if a = A \<and> b = B \<and> (i' < i \<and> j' < n \<or> i' = i \<and> j' < Suc j)
                     then D a b i' j' + w i' j' else D a b i' j')"
        by (auto simp add: fun_eq_iff upd4_apply less_Suc_eq)
      have "?body i j u = Inr (el\<lparr>DHiDHj := Some (upd4 ?D A B i j (?D A B i j + w i j))\<rparr>)"
        using i j by (simp add: inv' R)
      then have "?body i j u = Inr (el\<lparr>DHiDHj := Some (\<lambda>a b i' j'.
                     if a = A \<and> b = B \<and> (i' < i \<and> j' < n \<or> i' = i \<and> j' < Suc j)
                     then D a b i' j' + w i' j' else D a b i' j')\<rparr>)"
        by (simp only: fe)
      then show "\<exists>s'. ?body i j u = Inr s' \<and> ?I' (Suc j) s'"
        by simp
    qed
    then obtain s' where s': "for_loop [0..<n] (?body i) t = Inr s'" "?I' n s'"
      by blast
    have "(\<lambda>a b i' j.
                     if a = A \<and> b = B \<and> (i' < i \<and> j < n \<or> i' = i \<and> j < n)
                     then D a b i' j + w i' j else D a b i' j) = (\<lambda>a b i' j.
                     if a = A \<and> b = B \<and> i' < Suc i \<and> j < n then D a b i' j + w i' j
                     else D a b i' j)"
      by (auto simp add: fun_eq_iff less_Suc_eq)
    with s'(2) have "?I (Suc i) s'"
      by (simp only:)
    with s'(1) show "\<exists>s'. for_loop [0..<n] (?body i) t = Inr s' \<and> ?I (Suc i) s'"
      by blast
  qed
  then show ?thesis by simp
qed

lemma Add_DHiDHj_closed:
  assumes "rect n n V" "CElement_nDim el = n" "DHiDHj el = Some D"
  shows "Add_DHiDHj el V A B =
     Inr (el\<lparr>DHiDHj := Some (\<lambda>a b i j.
            if a = A \<and> b = B \<and> i < n \<and> j < n then D a b i j + V ! i ! j else D a b i j)\<rparr>)"
proof -
  have R: "\<And>i j. i < n \<Longrightarrow> j < n \<Longrightarrow> rd2 V i j = Inr (V ! i ! j)"
    using assms(1) by (simp add: rect_def)
  show ?thesis
    unfolding Add_DHiDHj_def assms(2)
    by (rule Add_loop_closed [where R = "rd2 V" and w = "\<lambda>i j. V ! i ! j", OF R assms(3)])
qed

lemma Add_DHiDHj_T_closed:
  assumes "rect n n V" "CElement_nDim el = n" "DHiDHj el = Some D"
  shows "Add_DHiDHj_T el V A B =
     Inr (el\<lparr>DHiDHj := Some (\<lambda>a b i j.
            if a = A \<and> b = B \<and> i < n \<and> j < n then D a b i j + V ! j ! i else D a b i j)\<rparr>)"
proof -
  have R: "\<And>i j. i < n \<Longrightarrow> j < n \<Longrightarrow> rd2 V j i = Inr (V ! j ! i)"
    using assms(1) by (simp add: rect_def)
  show ?thesis
    unfolding Add_DHiDHj_T_def assms(2)
    by (rule Add_loop_closed [where R = "\<lambda>i j. rd2 V j i" and w = "\<lambda>i j. V ! j ! i", OF R assms(3)])
qed

lemma stiff_coeff_sym: "stiff_coeff G nDG eps W J p q = stiff_coeff G nDG eps W J q p"
  by (simp add: stiff_coeff_def mult.commute)

lemma stiffness_pair_closed:
  assumes alloc: "allocated num" and n: "CNumerics_nDim num = n" and en: "CElement_nDim el = n"
    and D: "DHiDHj el = Some D" and i8: "iShape < 8" and j8: "jShape < 8" and dg: "nDG \<le> n"
  shows "\<exists>V. stiffness_pair n nDG eps W J iShape jShape (num, el, 0) =
           Inr (num\<lparr>val_DHiDHj := V\<rparr>,
                el\<lparr>DHiDHj := Some (\<lambda>p q i j.
                   if ((p = iShape \<and> q = jShape) \<or> (p = jShape \<and> q = iShape)) \<and> i = j \<and> i < n
                   then D p q i j + stiff_coeff (GradNi_Ref_Mat num) nDG eps W J iShape jShape
                   else D p q i j)\<rparr>,
                0)
         \<and> rect n n V"
proof -
  let ?G = "GradNi_Ref_Mat num"
  let ?c = "stiff_coeff ?G nDG eps W J iShape jShape"
  from alloc n have rG: "rect 8 n ?G" and rV: "rect n n (val_DHiDHj num)"
    by (simp_all add: allocated_rect)
  have dot: "for_loop [0..<nDG] (\<lambda>iDim acc.
           ebind (rd2 ?G iShape iDim) (\<lambda>gi. ebind (rd2 ?G jShape iDim) (\<lambda>gj. Inr (acc + gi * gj)))) 0
         = Inr (\<Sum>d<nDG. ?G ! iShape ! d * ?G ! jShape ! d)"
    using dot_loop [OF rG i8 j8 dg, of 0] by simp
  let ?f = "\<lambda>iDim jDim. if iDim = jDim
        then W * J * eps * eps * (\<Sum>d<nDG. ?G ! iShape ! d * ?G ! jShape ! d) else (0::real)"
  from fill_rows [where upd = "\<lambda>num V. num\<lparr>val_DHiDHj := V\<rparr>" and buf = val_DHiDHj
      and f = ?f and s = num and r = n and c = n and m = n and k = n] rV
  obtain V where V: "for_loop [0..<n] (\<lambda>iDim. for_loop [0..<n] (\<lambda>jDim num.
        ebind (wr2 (val_DHiDHj num) iDim jDim (?f iDim jDim))
          (\<lambda>V. Inr (num\<lparr>val_DHiDHj := V\<rparr>)))) num = Inr (num\<lparr>val_DHiDHj := V\<rparr>)"
    "rect n n V" "\<forall>i<n. \<forall>j<n. V ! i ! j = ?f i j"
    by auto
  let ?D1 = "\<lambda>a b i j. if a = iShape \<and> b = jShape \<and> i < n \<and> j < n
                       then D a b i j + V ! i ! j else D a b i j"
  let ?el1 = "el\<lparr>DHiDHj := Some ?D1\<rparr>"
  have A1: "Add_DHiDHj el V iShape jShape = Inr ?el1"
    by (rule Add_DHiDHj_closed [OF V(2) en D])
  let ?D2 = "\<lambda>a b i j. if a = jShape \<and> b = iShape \<and> i < n \<and> j < n
                       then ?D1 a b i j + V ! j ! i else ?D1 a b i j"
  have A2: "Add_DHiDHj_T ?el1 V jShape iShape = Inr (?el1\<lparr>DHiDHj := Some ?D2\<rparr>)"
    by (rule Add_DHiDHj_T_closed [OF V(2)]) (simp_all add: en)
  let ?Dt = "\<lambda>p q i j.
                   if ((p = iShape \<and> q = jShape) \<or> (p = jShape \<and> q = iShape)) \<and> i = j \<and> i < n
                   then D p q i j + ?c else D p q i j"
  have Vij: "V ! i ! j = (if i = j then ?c else 0)" if "i < n" "j < n" for i j
    using V(3) that by (simp add: stiff_coeff_def)
  have e1: "?D1 = ?Dt" if eq: "iShape = jShape"
  proof (intro ext)
    fix a b i j
    show "?D1 a b i j = ?Dt a b i j"
    proof -
      consider (a) "i < n" "j < n" | (b) "\<not> i < n" | (c) "i < n" "\<not> j < n" by blast
      then show ?thesis
      proof cases
        case a
        then show ?thesis using Vij [of i j] eq by (cases "i = j") simp_all
      next
        case b
        then show ?thesis by simp
      next
        case c
        then have "i \<noteq> j" by blast
        with c show ?thesis by simp
      qed
    qed
  qed
  have e2: "?D2 = ?Dt" if ne: "iShape \<noteq> jShape"
  proof (intro ext)
    fix a b i j
    show "?D2 a b i j = ?Dt a b i j"
    proof -
      consider (a) "i < n" "j < n" | (b) "\<not> i < n" | (c) "i < n" "\<not> j < n" by blast
      then show ?thesis
      proof cases
        case a
        then show ?thesis using Vij [of i j] Vij [of j i] ne
          by (cases "i = j"; cases "a = iShape"; cases "b = jShape";
              cases "a = jShape"; cases "b = iShape") simp_all
      next
        case b
        then show ?thesis by simp
      next
        case c
        then have "i \<noteq> j" by blast
        with c show ?thesis by simp
      qed
    qed
  qed
  have step: "stiffness_pair n nDG eps W J iShape jShape (num, el, 0) =
      ebind (Add_DHiDHj el V iShape jShape) (\<lambda>el.
        ebind (if iShape \<noteq> jShape then Add_DHiDHj_T el V jShape iShape else Inr el)
          (\<lambda>el. Inr (num\<lparr>val_DHiDHj := V\<rparr>, el, 0)))"
    unfolding stiffness_pair_def by (simp add: dot V(1) cong: if_cong)
  have "stiffness_pair n nDG eps W J iShape jShape (num, el, 0) =
          Inr (num\<lparr>val_DHiDHj := V\<rparr>, el\<lparr>DHiDHj := Some ?Dt\<rparr>, 0)"
  proof (cases "iShape = jShape")
    case True
    have "stiffness_pair n nDG eps W J iShape jShape (num, el, 0) =
          Inr (num\<lparr>val_DHiDHj := V\<rparr>, ?el1, 0)"
      by (simp only: step A1 ebind_Inr) (simp add: True)
    then show ?thesis by (simp only: e1 [OF True])
  next
    case False
    have "?el1\<lparr>DHiDHj := Some ?D2\<rparr> = el\<lparr>DHiDHj := Some ?D2\<rparr>" by simp
    then have "stiffness_pair n nDG eps W J iShape jShape (num, el, 0) =
          Inr (num\<lparr>val_DHiDHj := V\<rparr>, el\<lparr>DHiDHj := Some ?D2\<rparr>, 0)"
      using False by (simp only: step A1 ebind_Inr A2 if_True not_False_eq_True)
    then show ?thesis by (simp only: e2 [OF False])
  qed
  then show ?thesis using V(2) by blast
qed

lemma pair_step_eq:
  fixes c :: "nat \<Rightarrow> nat \<Rightarrow> real"
  assumes sym: "c k l = c l k" and kl: "k \<le> l"
  shows "(if ((p = k \<and> q = l) \<or> (p = l \<and> q = k)) \<and> b
          then (d + (if ((p = k \<and> k \<le> q \<and> q < l) \<or> (q = k \<and> k < p \<and> p < l)) \<and> b
                     then c p q else 0)) + c k l
          else d + (if ((p = k \<and> k \<le> q \<and> q < l) \<or> (q = k \<and> k < p \<and> p < l)) \<and> b
                    then c p q else 0))
         = d + (if ((p = k \<and> k \<le> q \<and> q < Suc l) \<or> (q = k \<and> k < p \<and> p < Suc l)) \<and> b
                then c p q else 0)"
  using sym kl by (cases b) (auto simp add: less_Suc_eq)

lemma row_step_eq:
  fixes c :: "nat \<Rightarrow> nat \<Rightarrow> real"
  assumes "k < N"
  shows "(d + (if (p < k \<or> q < k) \<and> p < N \<and> q < N \<and> b then c p q else 0))
           + (if ((p = k \<and> k \<le> q \<and> q < N) \<or> (q = k \<and> k < p \<and> p < N)) \<and> b then c p q else 0)
         = d + (if (p < Suc k \<or> q < Suc k) \<and> p < N \<and> q < N \<and> b then c p q else 0)"
  using assms by (cases b) (auto simp add: less_Suc_eq)

lemma allocated_val_update:
  "allocated num \<Longrightarrow> rect (CNumerics_nDim num) (CNumerics_nDim num) V
     \<Longrightarrow> allocated (num\<lparr>val_DHiDHj := V\<rparr>)"
  by (simp add: allocated_rect)

lemma stiffness_jloop:
  assumes alloc: "allocated num" and n: "CNumerics_nDim num = n" and en: "CElement_nDim el = n"
    and D: "DHiDHj el = Some D" and k: "k < nNode" and n8: "nNode \<le> 8" and dg: "nDG \<le> n"
  shows "\<exists>V. for_loop [k..<nNode] (stiffness_pair n nDG eps W J k) (num, el, 0) =
           Inr (num\<lparr>val_DHiDHj := V\<rparr>,
                el\<lparr>DHiDHj := Some (\<lambda>p q i j. D p q i j +
                   (if ((p = k \<and> k \<le> q \<and> q < nNode) \<or> (q = k \<and> k < p \<and> p < nNode))
                       \<and> (i = j \<and> i < n)
                    then stiff_coeff (GradNi_Ref_Mat num) nDG eps W J p q else 0))\<rparr>,
                0)
         \<and> rect n n V"
proof -
  let ?c = "stiff_coeff (GradNi_Ref_Mat num) nDG eps W J"
  let ?Dl = "\<lambda>l p q i j. D p q i j +
                   (if ((p = k \<and> k \<le> q \<and> q < l) \<or> (q = k \<and> k < p \<and> p < l)) \<and> (i = j \<and> i < n)
                    then ?c p q else 0)"
  let ?I = "\<lambda>l t. \<exists>V. t = (num\<lparr>val_DHiDHj := V\<rparr>, el\<lparr>DHiDHj := Some (?Dl l)\<rparr>, 0::real)
                    \<and> rect n n V"
  have "\<exists>s'. for_loop [k..<nNode] (stiffness_pair n nDG eps W J k) (num, el, 0) = Inr s'
          \<and> ?I nNode s'"
  proof (rule for_loop_rule [where I = ?I])
    show "k \<le> nNode" using k by simp
    have "?Dl k = D" by (auto simp add: fun_eq_iff)
    then have "el\<lparr>DHiDHj := Some (?Dl k)\<rparr> = el" using D by simp
    moreover have "rect n n (val_DHiDHj num)" using alloc n by (simp add: allocated_rect)
    ultimately show "?I k (num, el, 0)"
      by (intro exI [of _ "val_DHiDHj num"]) simp
  next
    fix l t
    assume kl: "k \<le> l" and l: "l < nNode" and inv: "?I l t"
    then obtain V where t: "t = (num\<lparr>val_DHiDHj := V\<rparr>, el\<lparr>DHiDHj := Some (?Dl l)\<rparr>, 0)"
      and V: "rect n n V" by blast
    have a': "allocated (num\<lparr>val_DHiDHj := V\<rparr>)"
      using alloc V n by (simp add: allocated_val_update)
    have G': "GradNi_Ref_Mat (num\<lparr>val_DHiDHj := V\<rparr>) = GradNi_Ref_Mat num" by simp
    have uu1: "\<And>V'. (num\<lparr>val_DHiDHj := V\<rparr>)\<lparr>val_DHiDHj := V'\<rparr> = num\<lparr>val_DHiDHj := V'\<rparr>"
      by simp
    have uu2: "\<And>X. (el\<lparr>DHiDHj := Some (?Dl l)\<rparr>)\<lparr>DHiDHj := X\<rparr> = el\<lparr>DHiDHj := X\<rparr>"
      by simp
    have "\<exists>V'. stiffness_pair n nDG eps W J k l
             (num\<lparr>val_DHiDHj := V\<rparr>, el\<lparr>DHiDHj := Some (?Dl l)\<rparr>, 0) =
           Inr ((num\<lparr>val_DHiDHj := V\<rparr>)\<lparr>val_DHiDHj := V'\<rparr>,
                (el\<lparr>DHiDHj := Some (?Dl l)\<rparr>)\<lparr>DHiDHj := Some (\<lambda>p q i j.
                   if ((p = k \<and> q = l) \<or> (p = l \<and> q = k)) \<and> i = j \<and> i < n
                   then ?Dl l p q i j
                        + stiff_coeff (GradNi_Ref_Mat (num\<lparr>val_DHiDHj := V\<rparr>)) nDG eps W J k l
                   else ?Dl l p q i j)\<rparr>,
                0)
         \<and> rect n n V'"
      by (rule stiffness_pair_closed [OF a']) (use n en k l n8 dg in simp_all)
    then obtain V' where V': "stiffness_pair n nDG eps W J k l t =
        Inr (num\<lparr>val_DHiDHj := V'\<rparr>,
             el\<lparr>DHiDHj := Some (\<lambda>p q i j.
                   if ((p = k \<and> q = l) \<or> (p = l \<and> q = k)) \<and> i = j \<and> i < n
                   then ?Dl l p q i j + ?c k l else ?Dl l p q i j)\<rparr>, 0)" "rect n n V'"
      unfolding G' uu1 uu2 t by blast
    have "(\<lambda>p q i j. if ((p = k \<and> q = l) \<or> (p = l \<and> q = k)) \<and> i = j \<and> i < n
                   then ?Dl l p q i j + ?c k l else ?Dl l p q i j) = ?Dl (Suc l)"
      by (intro ext) (rule pair_step_eq [OF stiff_coeff_sym kl, where b = "_ = _ \<and> _ < n"])
    with V' show "\<exists>s'. stiffness_pair n nDG eps W J k l t = Inr s' \<and> ?I (Suc l) s'"
      by auto
  qed
  then show ?thesis by auto
qed

lemma stiffness_iloop:
  assumes alloc: "allocated num" and n: "CNumerics_nDim num = n" and en: "CElement_nDim el = n"
    and D: "DHiDHj el = Some D" and n8: "nNode \<le> 8" and dg: "nDG \<le> n"
  shows "\<exists>V. for_loop [0..<nNode] (\<lambda>iShape.
              for_loop [iShape..<nNode] (stiffness_pair n nDG eps W J iShape)) (num, el, 0) =
           Inr (num\<lparr>val_DHiDHj := V\<rparr>,
                el\<lparr>DHiDHj := Some (\<lambda>p q i j. D p q i j +
                   (if (p < nNode \<and> q < nNode) \<and> (i = j \<and> i < n)
                    then stiff_coeff (GradNi_Ref_Mat num) nDG eps W J p q else 0))\<rparr>,
                0)
         \<and> rect n n V"
proof -
  let ?c = "stiff_coeff (GradNi_Ref_Mat num) nDG eps W J"
  let ?Dk = "\<lambda>k p q i j. D p q i j +
                   (if (p < k \<or> q < k) \<and> p < nNode \<and> q < nNode \<and> (i = j \<and> i < n)
                    then ?c p q else 0)"
  let ?I = "\<lambda>k t. \<exists>V. t = (num\<lparr>val_DHiDHj := V\<rparr>, el\<lparr>DHiDHj := Some (?Dk k)\<rparr>, 0::real)
                    \<and> rect n n V"
  have "\<exists>s'. for_loop [0..<nNode] (\<lambda>iShape.
              for_loop [iShape..<nNode] (stiffness_pair n nDG eps W J iShape)) (num, el, 0) = Inr s'
          \<and> ?I nNode s'"
  proof (rule for_loop_rule [where I = ?I])
    show "0 \<le> nNode" by simp
    have "?Dk 0 = D" by (auto simp add: fun_eq_iff)
    then have "el\<lparr>DHiDHj := Some (?Dk 0)\<rparr> = el" using D by simp
    moreover have "rect n n (val_DHiDHj num)" using alloc n by (simp add: allocated_rect)
    ultimately show "?I 0 (num, el, 0)"
      by (intro exI [of _ "val_DHiDHj num"]) simp
  next
    fix k t
    assume k: "k < nNode" and inv: "?I k t"
    then obtain V where t: "t = (num\<lparr>val_DHiDHj := V\<rparr>, el\<lparr>DHiDHj := Some (?Dk k)\<rparr>, 0)"
      and V: "rect n n V" by blast
    have a': "allocated (num\<lparr>val_DHiDHj := V\<rparr>)"
      using alloc V n by (simp add: allocated_val_update)
    have G': "GradNi_Ref_Mat (num\<lparr>val_DHiDHj := V\<rparr>) = GradNi_Ref_Mat num" by simp
    have uu1: "\<And>V'. (num\<lparr>val_DHiDHj := V\<rparr>)\<lparr>val_DHiDHj := V'\<rparr> = num\<lparr>val_DHiDHj := V'\<rparr>"
      by simp
    have uu2: "\<And>X. (el\<lparr>DHiDHj := Some (?Dk k)\<rparr>)\<lparr>DHiDHj := X\<rparr> = el\<lparr>DHiDHj := X\<rparr>"
      by simp
    have "\<exists>V'. for_loop [k..<nNode] (stiffness_pair n nDG eps W J k)
             (num\<lparr>val_DHiDHj := V\<rparr>, el\<lparr>DHiDHj := Some (?Dk k)\<rparr>, 0) =
           Inr ((num\<lparr>val_DHiDHj := V\<rparr>)\<lparr>val_DHiDHj := V'\<rparr>,
                (el\<lparr>DHiDHj := Some (?Dk k)\<rparr>)\<lparr>DHiDHj := Some (\<lambda>p q i j. ?Dk k p q i j +
                   (if ((p = k \<and> k \<le> q \<and> q < nNode) \<or> (q = k \<and> k < p \<and> p < nNode))
                       \<and> (i = j \<and> i < n)
                    then stiff_coeff (GradNi_Ref_Mat (num\<lparr>val_DHiDHj := V\<rparr>)) nDG eps W J p q
                    else 0))\<rparr>,
                0)
         \<and> rect n n V'"
      by (rule stiffness_jloop [OF a']) (use n en k n8 dg in simp_all)
    then obtain V' where V': "for_loop [k..<nNode] (stiffness_pair n nDG eps W J k) t =
        Inr (num\<lparr>val_DHiDHj := V'\<rparr>,
             el\<lparr>DHiDHj := Some (\<lambda>p q i j. ?Dk k p q i j +
                   (if ((p = k \<and> k \<le> q \<and> q < nNode) \<or> (q = k \<and> k < p \<and> p < nNode))
                       \<and> (i = j \<and> i < n)
                    then ?c p q else 0))\<rparr>, 0)" "rect n n V'"
      unfolding G' uu1 uu2 t by blast
    have "(\<lambda>p q i j. ?Dk k p q i j +
                   (if ((p = k \<and> k \<le> q \<and> q < nNode) \<or> (q = k \<and> k < p \<and> p < nNode))
                       \<and> (i = j \<and> i < n)
                    then ?c p q else 0)) = ?Dk (Suc k)"
      by (intro ext) (rule row_step_eq [OF k, where b = "_ = _ \<and> _ < n"])
    with V' show "\<exists>s'. for_loop [k..<nNode] (stiffness_pair n nDG eps W J k) t = Inr s'
        \<and> ?I (Suc k) s'"
      by auto
  qed
  then obtain V where V: "for_loop [0..<nNode] (\<lambda>iShape.
              for_loop [iShape..<nNode] (stiffness_pair n nDG eps W J iShape)) (num, el, 0) =
        Inr (num\<lparr>val_DHiDHj := V\<rparr>, el\<lparr>DHiDHj := Some (?Dk nNode)\<rparr>, 0)" "rect n n V"
    by blast
  have "?Dk nNode = (\<lambda>p q i j. D p q i j +
                   (if (p < nNode \<and> q < nNode) \<and> (i = j \<and> i < n) then ?c p q else 0))"
    by (intro ext) auto
  with V show ?thesis by auto
qed

lemma stiffness_gauss_closed:
  assumes alloc: "allocated num" and n: "CNumerics_nDim num = n" and en: "CElement_nDim el = n"
    and D: "DHiDHj el = Some D" and n8: "nNode \<le> 8" and dg: "nDG \<le> n"
  shows "\<exists>num'. stiffness_gauss n nDG eps nNode g (num, el, 0) =
           Inr (num',
                el\<lparr>DHiDHj := Some (\<lambda>p q i j. D p q i j +
                   (if (p < nNode \<and> q < nNode) \<and> (i = j \<and> i < n)
                    then stiff_term el nDG eps g p q else 0))\<rparr>,
                0)
         \<and> allocated num' \<and> CNumerics_nDim num' = n"
proof -
  from alloc n have rG: "rect 8 n (GradNi_Ref_Mat num)" by (simp add: allocated_rect)
  from fill_rows [where upd = "\<lambda>num G. num\<lparr>GradNi_Ref_Mat := G\<rparr>" and buf = GradNi_Ref_Mat
      and f = "\<lambda>iShape iDim. GetGradNi_X el iShape g iDim" and s = num and r = 8 and c = n
      and m = nNode and k = nDG] rG n8 dg
  obtain G where G: "for_loop [0..<nNode] (\<lambda>iShape. for_loop [0..<nDG] (\<lambda>iDim num.
        ebind (wr2 (GradNi_Ref_Mat num) iShape iDim (GetGradNi_X el iShape g iDim))
          (\<lambda>G. Inr (num\<lparr>GradNi_Ref_Mat := G\<rparr>)))) num = Inr (num\<lparr>GradNi_Ref_Mat := G\<rparr>)"
    "rect 8 n G" "\<forall>i<nNode. \<forall>d<nDG. G ! i ! d = GetGradNi_X el i g d"
    by auto
  let ?num1 = "num\<lparr>GradNi_Ref_Mat := G\<rparr>"
  have a1: "allocated ?num1" using alloc G(2) n by (simp add: allocated_rect)
  have "\<exists>V. for_loop [0..<nNode] (\<lambda>iShape.
              for_loop [iShape..<nNode]
                (stiffness_pair n nDG eps (GetWeight el g) (GetJ_X el g) iShape)) (?num1, el, 0) =
           Inr (?num1\<lparr>val_DHiDHj := V\<rparr>,
                el\<lparr>DHiDHj := Some (\<lambda>p q i j. D p q i j +
                   (if (p < nNode \<and> q < nNode) \<and> (i = j \<and> i < n)
                    then stiff_coeff (GradNi_Ref_Mat ?num1) nDG eps (GetWeight el g) (GetJ_X el g) p q
                    else 0))\<rparr>,
                0)
         \<and> rect n n V"
    by (rule stiffness_iloop [OF a1]) (use n en D n8 dg in simp_all)
  then obtain V where V: "for_loop [0..<nNode] (\<lambda>iShape.
              for_loop [iShape..<nNode]
                (stiffness_pair n nDG eps (GetWeight el g) (GetJ_X el g) iShape)) (?num1, el, 0) =
           Inr (?num1\<lparr>val_DHiDHj := V\<rparr>,
                el\<lparr>DHiDHj := Some (\<lambda>p q i j. D p q i j +
                   (if (p < nNode \<and> q < nNode) \<and> (i = j \<and> i < n)
                    then stiff_coeff (GradNi_Ref_Mat ?num1) nDG eps (GetWeight el g) (GetJ_X el g) p q
                    else 0))\<rparr>,
                0)" "rect n n V"
    by blast
  have coeff: "stiff_coeff G nDG eps (GetWeight el g) (GetJ_X el g) p q
                 = stiff_term el nDG eps g p q" if "p < nNode" "q < nNode" for p q
    using G(3) that by (simp add: stiff_coeff_def stiff_term_def)
  have eq: "(\<lambda>p q i j. D p q i j +
                   (if (p < nNode \<and> q < nNode) \<and> (i = j \<and> i < n)
                    then stiff_coeff (GradNi_Ref_Mat ?num1) nDG eps (GetWeight el g) (GetJ_X el g) p q
                    else 0))
          = (\<lambda>p q i j. D p q i j +
                   (if (p < nNode \<and> q < nNode) \<and> (i = j \<and> i < n)
                    then stiff_term el nDG eps g p q else 0))"
    by (intro ext) (auto simp add: coeff)
  have run: "stiffness_gauss n nDG eps nNode g (num, el, 0) =
          Inr (?num1\<lparr>val_DHiDHj := V\<rparr>,
                el\<lparr>DHiDHj := Some (\<lambda>p q i j. D p q i j +
                   (if (p < nNode \<and> q < nNode) \<and> (i = j \<and> i < n)
                    then stiff_term el nDG eps g p q else 0))\<rparr>, 0)"
    unfolding stiffness_gauss_def
    by (simp only: prod.case Let_def G(1) ebind_Inr V(1) eq)
  have "allocated (?num1\<lparr>val_DHiDHj := V\<rparr>)"
    using a1 V(2) n by (simp add: allocated_rect)
  moreover have "CNumerics_nDim (?num1\<lparr>val_DHiDHj := V\<rparr>) = n" using n by simp
  ultimately show ?thesis using run by blast
qed

lemma stiff_term_DHiDHj [simp]: "stiff_term (el\<lparr>DHiDHj := X\<rparr>) = stiff_term el"
  by (simp add: fun_eq_iff stiff_term_def GetWeight_def GetJ_X_def GetGradNi_X_def)

lemma stiffness_pass:
  assumes alloc: "allocated num" and n: "CNumerics_nDim num = n" and en: "CElement_nDim el = n"
    and D: "DHiDHj el = Some D" and n8: "nNode \<le> 8" and dg: "nDG \<le> n"
  shows "\<exists>num'. for_loop [0..<nG] (stiffness_gauss n nDG eps nNode) (num, el, 0) =
           Inr (num',
                el\<lparr>DHiDHj := Some (\<lambda>p q i j. D p q i j +
                   (if (p < nNode \<and> q < nNode) \<and> (i = j \<and> i < n)
                    then (\<Sum>g<nG. stiff_term el nDG eps g p q) else 0))\<rparr>,
                0)
         \<and> allocated num' \<and> CNumerics_nDim num' = n"
proof -
  let ?Dg = "\<lambda>m p q i j. D p q i j +
                   (if (p < nNode \<and> q < nNode) \<and> (i = j \<and> i < n)
                    then (\<Sum>g<m. stiff_term el nDG eps g p q) else 0)"
  let ?I = "\<lambda>m t. \<exists>num'. t = (num', el\<lparr>DHiDHj := Some (?Dg m)\<rparr>, 0::real)
                    \<and> allocated num' \<and> CNumerics_nDim num' = n"
  have "\<exists>s'. for_loop [0..<nG] (stiffness_gauss n nDG eps nNode) (num, el, 0) = Inr s' \<and> ?I nG s'"
  proof (rule for_loop_rule [where I = ?I])
    show "0 \<le> nG" by simp
    have "?Dg 0 = D" by (auto simp add: fun_eq_iff)
    then have "el\<lparr>DHiDHj := Some (?Dg 0)\<rparr> = el" using D by simp
    then show "?I 0 (num, el, 0)" using alloc n by simp
  next
    fix m t
    assume inv: "?I m t"
    then obtain num1 where t: "t = (num1, el\<lparr>DHiDHj := Some (?Dg m)\<rparr>, 0)"
      and a1: "allocated num1" and n1: "CNumerics_nDim num1 = n" by blast
    have uu2: "\<And>X. (el\<lparr>DHiDHj := Some (?Dg m)\<rparr>)\<lparr>DHiDHj := X\<rparr> = el\<lparr>DHiDHj := X\<rparr>"
      by simp
    have "\<exists>num'. stiffness_gauss n nDG eps nNode m (num1, el\<lparr>DHiDHj := Some (?Dg m)\<rparr>, 0) =
           Inr (num',
                (el\<lparr>DHiDHj := Some (?Dg m)\<rparr>)\<lparr>DHiDHj := Some (\<lambda>p q i j. ?Dg m p q i j +
                   (if (p < nNode \<and> q < nNode) \<and> (i = j \<and> i < n)
                    then stiff_term (el\<lparr>DHiDHj := Some (?Dg m)\<rparr>) nDG eps m p q else 0))\<rparr>,
                0)
         \<and> allocated num' \<and> CNumerics_nDim num' = n"
      by (rule stiffness_gauss_closed [OF a1 n1]) (use en n8 dg in simp_all)
    then obtain num2 where num2: "stiffness_gauss n nDG eps nNode m t =
           Inr (num2,
                el\<lparr>DHiDHj := Some (\<lambda>p q i j. ?Dg m p q i j +
                   (if (p < nNode \<and> q < nNode) \<and> (i = j \<and> i < n)
                    then stiff_term el nDG eps m p q else 0))\<rparr>,
                0)" "allocated num2" "CNumerics_nDim num2 = n"
      unfolding uu2 stiff_term_DHiDHj t by blast
    have "(\<lambda>p q i j. ?Dg m p q i j +
                   (if (p < nNode \<and> q < nNode) \<and> (i = j \<and> i < n)
                    then stiff_term el nDG eps m p q else 0)) = ?Dg (Suc m)"
      by (intro ext) simp
    with num2 show "\<exists>s'. stiffness_gauss n nDG eps nNode m t = Inr s' \<and> ?I (Suc m) s'"
      by auto
  qed
  then show ?thesis by auto
qed

lemma fill_vec:
  fixes upd :: "'b \<Rightarrow> su2double list \<Rightarrow> 'b" and buf :: "'b \<Rightarrow> su2double list"
  assumes buf_upd: "\<And>s X. buf (upd s X) = X"
    and upd_upd: "\<And>s X Y. upd (upd s X) Y = upd s Y"
    and upd_buf: "\<And>s. upd s (buf s) = s"
    and len: "length (buf s) = r"
    and m: "m \<le> r"
  shows "\<exists>X. for_loop [0..<m] (\<lambda>i s. ebind (wr1 (buf s) i (f i)) (\<lambda>X. Inr (upd s X))) s
               = Inr (upd s X)
             \<and> length X = r \<and> (\<forall>i<m. X ! i = f i)"
proof -
  let ?body = "\<lambda>i s. ebind (wr1 (buf s) i (f i)) (\<lambda>X. Inr (upd s X))"
  let ?I = "\<lambda>i t. \<exists>X. t = upd s X \<and> length X = r \<and> (\<forall>i'<i. X ! i' = f i')"
  have "\<exists>s'. for_loop [0..<m] ?body s = Inr s' \<and> ?I m s'"
  proof (rule for_loop_rule [where I = ?I])
    show "0 \<le> m" by simp
    show "?I 0 s" using len upd_buf [of s] by (intro exI [of _ "buf s"]) simp
  next
    fix i t
    assume i: "i < m" and inv: "?I i t"
    then obtain X where X: "t = upd s X" "length X = r" "\<forall>i'<i. X ! i' = f i'"
      by auto
    from i m X(2) have "wr1 X i (f i) = Inr (X[i := f i])" by simp
    then have run: "?body i t = Inr (upd s (X[i := f i]))"
      by (simp add: X(1) buf_upd upd_upd)
    have "\<forall>i'<Suc i. X[i := f i] ! i' = f i'"
      using X(2,3) i m by (auto simp add: less_Suc_eq nth_list_update)
    with run X(2) show "\<exists>s'. ?body i t = Inr s' \<and> ?I (Suc i) s'"
      by auto
  qed
  then show ?thesis by auto
qed

lemma mass_loops:
  assumes len: "length N = 8" and n8: "nNode \<le> 8" and H: "HiHj el = Some H"
  shows "for_loop [0..<nNode] (\<lambda>iShape. for_loop [0..<nNode] (\<lambda>jShape el.
           ebind (rd1 N iShape) (\<lambda>ni. ebind (rd1 N jShape) (\<lambda>nj.
             Add_HiHj el (c * ni * nj) iShape jShape)))) el
         = Inr (el\<lparr>HiHj := Some (\<lambda>p q. H p q +
                  (if p < nNode \<and> q < nNode then c * N ! p * N ! q else 0))\<rparr>)"
proof -
  let ?body = "\<lambda>iShape jShape (el::CElement).
           ebind (rd1 N iShape) (\<lambda>ni. ebind (rd1 N jShape) (\<lambda>nj.
             Add_HiHj el (c * ni * nj) iShape jShape))"
  let ?H = "\<lambda>k l p q. H p q + (if (p < k \<and> q < nNode) \<or> (p = k \<and> q < l) then c * N ! p * N ! q else 0)"
  let ?I = "\<lambda>k t. t = el\<lparr>HiHj := Some (?H k 0)\<rparr>"
  have "\<exists>s'. for_loop [0..<nNode] (\<lambda>iShape. for_loop [0..<nNode] (?body iShape)) el = Inr s'
          \<and> ?I nNode s'"
  proof (rule for_loop_rule [where I = ?I])
    show "0 \<le> nNode" by simp
    have "?H 0 0 = H" by (auto simp add: fun_eq_iff)
    then show "?I 0 el" using H by simp
  next
    fix k t
    assume k: "k < nNode" and inv: "?I k t"
    let ?I' = "\<lambda>l t. t = el\<lparr>HiHj := Some (?H k l)\<rparr>"
    have "\<exists>s'. for_loop [0..<nNode] (?body k) t = Inr s' \<and> ?I' nNode s'"
    proof (rule for_loop_rule [where I = ?I'])
      show "0 \<le> nNode" by simp
      show "?I' 0 t" using inv by simp
    next
      fix l u
      assume l: "l < nNode" and inv': "?I' l u"
      from k l n8 len have rd: "rd1 N k = Inr (N ! k)" "rd1 N l = Inr (N ! l)"
        by simp_all
      have fe: "upd2 (?H k l) k l (?H k l k l + c * N ! k * N ! l) = ?H k (Suc l)"
        using l by (auto simp add: fun_eq_iff upd2_apply less_Suc_eq)
      have "?body k l u = Inr (el\<lparr>HiHj := Some (upd2 (?H k l) k l (?H k l k l + c * N ! k * N ! l))\<rparr>)"
        by (simp add: rd inv' Add_HiHj_def)
      then show "\<exists>s'. ?body k l u = Inr s' \<and> ?I' (Suc l) s'"
        by (simp only: fe) simp
    qed
    then obtain s' where s': "for_loop [0..<nNode] (?body k) t = Inr s'" "?I' nNode s'"
      by blast
    have "?H k nNode = ?H (Suc k) 0"
      by (auto simp add: fun_eq_iff less_Suc_eq)
    with s'(2) have "?I (Suc k) s'" by (simp only:)
    with s'(1) show "\<exists>s'. for_loop [0..<nNode] (?body k) t = Inr s' \<and> ?I (Suc k) s'"
      by blast
  qed
  moreover have "?H nNode 0 = (\<lambda>p q. H p q +
                  (if p < nNode \<and> q < nNode then c * N ! p * N ! q else 0))"
    by (auto simp add: fun_eq_iff)
  ultimately show ?thesis by simp
qed

lemma nonstruct_fold:
  "(\<And>x s. nonstruct (f x s) = nonstruct s) \<Longrightarrow> nonstruct (fold f xs s) = nonstruct s"
  by (induction xs arbitrary: s) simp_all

lemma nonstruct_Kt_a: "nonstruct (case Kt_a el of None \<Rightarrow> el | Some K \<Rightarrow> el\<lparr>Kt_a := Some (g K)\<rparr>) = nonstruct el"
  by (simp add: nonstruct_def split: option.split)

lemma nonstruct_FDL_a: "nonstruct (case FDL_a el of None \<Rightarrow> el | Some K \<Rightarrow> el\<lparr>FDL_a := Some (g K)\<rparr>) = nonstruct el"
  by (simp add: nonstruct_def split: option.split)

lemma nonstruct_Ks_ab: "nonstruct (case Ks_ab el of None \<Rightarrow> el | Some K \<Rightarrow> el\<lparr>Ks_ab := Some (g K)\<rparr>) = nonstruct el"
  by (simp add: nonstruct_def split: option.split)

lemma nonstruct_Mab: "nonstruct (case Mab el of None \<Rightarrow> el | Some K \<Rightarrow> el\<lparr>Mab := Some (g K)\<rparr>) = nonstruct el"
  by (simp add: nonstruct_def split: option.split)

lemma nonstruct_Kab: "nonstruct (case Kab el of None \<Rightarrow> el | Some K \<Rightarrow> el\<lparr>Kab := Some (g K)\<rparr>) = nonstruct el"
  by (simp add: nonstruct_def split: option.split)

lemma clearElement_False: "nonstruct (clearElement el False) = nonstruct el"
  unfolding clearElement_def Let_def
  by (simp add: nonstruct_fold nonstruct_Kt_a nonstruct_FDL_a nonstruct_Ks_ab nonstruct_Mab
      nonstruct_Kab)

lemma zero_jDim:
  fixes e :: CElement
  assumes "DHiDHj e = Some D"
  shows "fold (\<lambda>jDim el. case DHiDHj el of None \<Rightarrow> el
                 | Some D \<Rightarrow> el\<lparr>DHiDHj := Some (upd4 D a b c jDim 0)\<rparr>) [0..<l] e
         = e\<lparr>DHiDHj := Some (\<lambda>p q i j. if p = a \<and> q = b \<and> i = c \<and> j < l then 0 else D p q i j)\<rparr>"
proof (induction l)
  case 0
  show ?case using assms by simp
next
  case (Suc l)
  have "upd4 (\<lambda>p q i j. if p = a \<and> q = b \<and> i = c \<and> j < l then 0 else D p q i j) a b c l 0
        = (\<lambda>p q i j. if p = a \<and> q = b \<and> i = c \<and> j < Suc l then 0 else D p q i j)"
    by (auto simp add: fun_eq_iff upd4_apply less_Suc_eq)
  then show ?case
    by (simp only: fold_upt_Suc Suc) simp
qed

lemma zero_iDim:
  fixes e :: CElement
  assumes "DHiDHj e = Some D"
  shows "fold (\<lambda>iDim. fold (\<lambda>jDim el. case DHiDHj el of None \<Rightarrow> el
                 | Some D \<Rightarrow> el\<lparr>DHiDHj := Some (upd4 D a b iDim jDim 0)\<rparr>) [0..<n]) [0..<c] e
         = e\<lparr>DHiDHj := Some (\<lambda>p q i j. if p = a \<and> q = b \<and> i < c \<and> j < n then 0 else D p q i j)\<rparr>"
proof (induction c)
  case 0
  show ?case using assms by simp
next
  case (Suc c)
  let ?D = "\<lambda>p q i j. if p = a \<and> q = b \<and> i < c \<and> j < n then 0 else D p q i j"
  have "(\<lambda>p q i j. if p = a \<and> q = b \<and> i = c \<and> j < n then 0 else ?D p q i j)
        = (\<lambda>p q i j. if p = a \<and> q = b \<and> i < Suc c \<and> j < n then 0 else D p q i j)"
    by (auto simp add: fun_eq_iff less_Suc_eq)
  moreover have "DHiDHj (e\<lparr>DHiDHj := Some ?D\<rparr>) = Some ?D" by simp
  ultimately show ?case
    by (simp only: fold_upt_Suc Suc zero_jDim) simp
qed

lemma zero_pair:
  fixes e :: CElement
  assumes H: "HiHj e = Some H" and D: "DHiDHj e = Some D"
  shows "(let e1 = (case HiHj e of None \<Rightarrow> e | Some H \<Rightarrow> e\<lparr>HiHj := Some (upd2 H a b 0)\<rparr>)
          in fold (\<lambda>iDim. fold (\<lambda>jDim el. case DHiDHj el of None \<Rightarrow> el
                 | Some D \<Rightarrow> el\<lparr>DHiDHj := Some (upd4 D a b iDim jDim 0)\<rparr>)
                 [0..<CElement_nDim e]) [0..<CElement_nDim e] e1)
         = e\<lparr>HiHj := Some (\<lambda>p q. if p = a \<and> q = b then 0 else H p q),
              DHiDHj := Some (\<lambda>p q i j. if p = a \<and> q = b \<and> i < CElement_nDim e \<and> j < CElement_nDim e
                                          then 0 else D p q i j)\<rparr>"
proof -
  have "upd2 H a b 0 = (\<lambda>p q. if p = a \<and> q = b then 0 else H p q)"
    by (auto simp add: fun_eq_iff upd2_apply)
  moreover have "DHiDHj (e\<lparr>HiHj := Some (upd2 H a b 0)\<rparr>) = Some D" using D by simp
  ultimately show ?thesis
    by (simp only: Let_def H option.case zero_iDim)
qed

lemma zero_jNode:
  fixes e :: CElement
  assumes H: "HiHj e = Some H" and D: "DHiDHj e = Some D"
  shows "fold (\<lambda>jNode el.
           let e1 = (case HiHj el of None \<Rightarrow> el | Some H \<Rightarrow> el\<lparr>HiHj := Some (upd2 H a jNode 0)\<rparr>)
           in fold (\<lambda>iDim. fold (\<lambda>jDim el. case DHiDHj el of None \<Rightarrow> el
                 | Some D \<Rightarrow> el\<lparr>DHiDHj := Some (upd4 D a jNode iDim jDim 0)\<rparr>)
                 [0..<CElement_nDim el]) [0..<CElement_nDim el] e1) [0..<l] e
         = e\<lparr>HiHj := Some (\<lambda>p q. if p = a \<and> q < l then 0 else H p q),
              DHiDHj := Some (\<lambda>p q i j. if p = a \<and> q < l \<and> i < CElement_nDim e \<and> j < CElement_nDim e
                                          then 0 else D p q i j)\<rparr>"
proof (induction l)
  case 0
  show ?case using H D by simp
next
  case (Suc l)
  let ?n = "CElement_nDim e"
  let ?H = "\<lambda>p q. if p = a \<and> q < l then 0 else H p q"
  let ?D = "\<lambda>p q i j. if p = a \<and> q < l \<and> i < ?n \<and> j < ?n then 0 else D p q i j"
  let ?e = "e\<lparr>HiHj := Some ?H, DHiDHj := Some ?D\<rparr>"
  have step: "(let e1 = (case HiHj ?e of None \<Rightarrow> ?e | Some H \<Rightarrow> ?e\<lparr>HiHj := Some (upd2 H a l 0)\<rparr>)
           in fold (\<lambda>iDim. fold (\<lambda>jDim el. case DHiDHj el of None \<Rightarrow> el
                 | Some D \<Rightarrow> el\<lparr>DHiDHj := Some (upd4 D a l iDim jDim 0)\<rparr>)
                 [0..<CElement_nDim ?e]) [0..<CElement_nDim ?e] e1)
         = ?e\<lparr>HiHj := Some (\<lambda>p q. if p = a \<and> q = l then 0 else ?H p q),
              DHiDHj := Some (\<lambda>p q i j. if p = a \<and> q = l \<and> i < CElement_nDim ?e \<and> j < CElement_nDim ?e
                                          then 0 else ?D p q i j)\<rparr>"
    by (rule zero_pair) simp_all
  have h: "(\<lambda>p q. if p = a \<and> q = l then 0 else ?H p q)
           = (\<lambda>p q. if p = a \<and> q < Suc l then 0 else H p q)"
    by (auto simp add: fun_eq_iff less_Suc_eq)
  have d: "(\<lambda>p q i j. if p = a \<and> q = l \<and> i < ?n \<and> j < ?n then 0 else ?D p q i j)
           = (\<lambda>p q i j. if p = a \<and> q < Suc l \<and> i < ?n \<and> j < ?n then 0 else D p q i j)"
    by (auto simp add: fun_eq_iff less_Suc_eq)
  have n: "CElement_nDim ?e = ?n" by simp
  show ?case
    unfolding fold_upt_Suc Suc
    by (simp only: step) (simp only: n h d, simp)
qed

lemma zero_iNode:
  fixes e :: CElement
  assumes H: "HiHj e = Some H" and D: "DHiDHj e = Some D"
  shows "fold (\<lambda>iNode. fold (\<lambda>jNode el.
           let e1 = (case HiHj el of None \<Rightarrow> el | Some H \<Rightarrow> el\<lparr>HiHj := Some (upd2 H iNode jNode 0)\<rparr>)
           in fold (\<lambda>iDim. fold (\<lambda>jDim el. case DHiDHj el of None \<Rightarrow> el
                 | Some D \<Rightarrow> el\<lparr>DHiDHj := Some (upd4 D iNode jNode iDim jDim 0)\<rparr>)
                 [0..<CElement_nDim el]) [0..<CElement_nDim el] e1) [0..<N]) [0..<k] e
         = e\<lparr>HiHj := Some (\<lambda>p q. if p < k \<and> q < N then 0 else H p q),
              DHiDHj := Some (\<lambda>p q i j. if p < k \<and> q < N \<and> i < CElement_nDim e \<and> j < CElement_nDim e
                                          then 0 else D p q i j)\<rparr>"
proof (induction k)
  case 0
  show ?case using H D by simp
next
  case (Suc k)
  let ?n = "CElement_nDim e"
  let ?H = "\<lambda>p q. if p < k \<and> q < N then 0 else H p q"
  let ?D = "\<lambda>p q i j. if p < k \<and> q < N \<and> i < ?n \<and> j < ?n then 0 else D p q i j"
  let ?e = "e\<lparr>HiHj := Some ?H, DHiDHj := Some ?D\<rparr>"
  have step: "fold (\<lambda>jNode el.
           let e1 = (case HiHj el of None \<Rightarrow> el | Some H \<Rightarrow> el\<lparr>HiHj := Some (upd2 H k jNode 0)\<rparr>)
           in fold (\<lambda>iDim. fold (\<lambda>jDim el. case DHiDHj el of None \<Rightarrow> el
                 | Some D \<Rightarrow> el\<lparr>DHiDHj := Some (upd4 D k jNode iDim jDim 0)\<rparr>)
                 [0..<CElement_nDim el]) [0..<CElement_nDim el] e1) [0..<N] ?e
         = ?e\<lparr>HiHj := Some (\<lambda>p q. if p = k \<and> q < N then 0 else ?H p q),
              DHiDHj := Some (\<lambda>p q i j. if p = k \<and> q < N \<and> i < CElement_nDim ?e \<and> j < CElement_nDim ?e
                                          then 0 else ?D p q i j)\<rparr>"
    by (rule zero_jNode) simp_all
  have h: "(\<lambda>p q. if p = k \<and> q < N then 0 else ?H p q)
           = (\<lambda>p q. if p < Suc k \<and> q < N then 0 else H p q)"
    by (auto simp add: fun_eq_iff less_Suc_eq)
  have d: "(\<lambda>p q i j. if p = k \<and> q < N \<and> i < ?n \<and> j < ?n then 0 else ?D p q i j)
           = (\<lambda>p q i j. if p < Suc k \<and> q < N \<and> i < ?n \<and> j < ?n then 0 else D p q i j)"
    by (auto simp add: fun_eq_iff less_Suc_eq)
  have n: "CElement_nDim ?e = ?n" by simp
  show ?case
    unfolding fold_upt_Suc Suc
    by (simp only: step) (simp only: n h d, simp)
qed

lemma clearElement_True:
  assumes H: "HiHj el = Some H" and D: "DHiDHj el = Some D"
  shows "clearElement el True =
     (clearElement el False)
       \<lparr>HiHj := Some (\<lambda>p q. if p < nNodes el \<and> q < nNodes el then 0 else H p q),
        DHiDHj := Some (\<lambda>p q i j. if p < nNodes el \<and> q < nNodes el
                                      \<and> i < CElement_nDim el \<and> j < CElement_nDim el
                                    then 0 else D p q i j)\<rparr>"
proof -
  let ?e = "clearElement el False"
  have ns: "nonstruct ?e = nonstruct el" by (rule clearElement_False)
  then have H': "HiHj ?e = Some H" and D': "DHiDHj ?e = Some D"
    and n: "CElement_nDim ?e = CElement_nDim el"
    using H D by (simp_all add: nonstruct_def)
  have "clearElement el True =
      fold (\<lambda>iNode. fold (\<lambda>jNode el.
           let e1 = (case HiHj el of None \<Rightarrow> el | Some H \<Rightarrow> el\<lparr>HiHj := Some (upd2 H iNode jNode 0)\<rparr>)
           in fold (\<lambda>iDim. fold (\<lambda>jDim el. case DHiDHj el of None \<Rightarrow> el
                 | Some D \<Rightarrow> el\<lparr>DHiDHj := Some (upd4 D iNode jNode iDim jDim 0)\<rparr>)
                 [0..<CElement_nDim el]) [0..<CElement_nDim el] e1) [0..<nNodes el]) [0..<nNodes el] ?e"
    by (simp add: clearElement_def Let_def)
  also have "\<dots> = ?e\<lparr>HiHj := Some (\<lambda>p q. if p < nNodes el \<and> q < nNodes el then 0 else H p q),
              DHiDHj := Some (\<lambda>p q i j. if p < nNodes el \<and> q < nNodes el
                                          \<and> i < CElement_nDim ?e \<and> j < CElement_nDim ?e
                                          then 0 else D p q i j)\<rparr>"
    by (rule zero_iNode [OF H' D'])
  finally show ?thesis by (simp only: n)
qed

lemma mass_term_HiHj [simp]: "mass_term (el\<lparr>HiHj := X\<rparr>) = mass_term el"
  by (simp add: fun_eq_iff mass_term_def GetWeight_def GetJ_X_def GetNi_def)

lemma mass_gauss_closed:
  assumes alloc: "allocated num" and n8: "nNode \<le> 8" and H: "HiHj el = Some H"
  shows "\<exists>num'. mass_gauss zeta nNode g (num, el) =
           Inr (num', el\<lparr>HiHj := Some (\<lambda>p q. H p q +
                  (if p < nNode \<and> q < nNode then mass_term el zeta g p q else 0))\<rparr>)
         \<and> allocated num' \<and> CNumerics_nDim num' = CNumerics_nDim num"
proof -
  from alloc have len: "length (Ni_Vec num) = 8" by (simp add: allocated_def)
  from fill_vec [where upd = "\<lambda>num N. num\<lparr>Ni_Vec := N\<rparr>" and buf = Ni_Vec
      and f = "\<lambda>iShape. GetNi el iShape g" and s = num and r = 8 and m = nNode] len n8
  obtain N where N: "for_loop [0..<nNode] (\<lambda>iShape num.
        ebind (wr1 (Ni_Vec num) iShape (GetNi el iShape g)) (\<lambda>N. Inr (num\<lparr>Ni_Vec := N\<rparr>))) num
        = Inr (num\<lparr>Ni_Vec := N\<rparr>)"
    "length N = 8" "\<forall>i<nNode. N ! i = GetNi el i g"
    by auto
  let ?c = "GetWeight el g * GetJ_X el g * zeta"
  have loops: "for_loop [0..<nNode] (\<lambda>iShape. for_loop [0..<nNode] (\<lambda>jShape el.
           ebind (rd1 N iShape) (\<lambda>ni. ebind (rd1 N jShape) (\<lambda>nj.
             Add_HiHj el (?c * ni * nj) iShape jShape)))) el
         = Inr (el\<lparr>HiHj := Some (\<lambda>p q. H p q +
                  (if p < nNode \<and> q < nNode then ?c * N ! p * N ! q else 0))\<rparr>)"
    by (rule mass_loops [OF N(2) n8 H])
  have eq: "(\<lambda>p q. H p q + (if p < nNode \<and> q < nNode then ?c * N ! p * N ! q else 0))
          = (\<lambda>p q. H p q + (if p < nNode \<and> q < nNode then mass_term el zeta g p q else 0))"
    using N(3) by (intro ext) (auto simp add: mass_term_def)
  have run: "mass_gauss zeta nNode g (num, el) =
      Inr (num\<lparr>Ni_Vec := N\<rparr>, el\<lparr>HiHj := Some (\<lambda>p q. H p q +
                  (if p < nNode \<and> q < nNode then mass_term el zeta g p q else 0))\<rparr>)"
    unfolding mass_gauss_def
    by (simp add: Let_def N(1) loops eq)
  have "allocated (num\<lparr>Ni_Vec := N\<rparr>)" using alloc N(2) by (simp add: allocated_def)
  with run show ?thesis by auto
qed

lemma mass_pass:
  assumes alloc: "allocated num" and n8: "nNode \<le> 8" and H: "HiHj el = Some H"
  shows "\<exists>num'. for_loop [0..<nG] (mass_gauss zeta nNode) (num, el) =
           Inr (num', el\<lparr>HiHj := Some (\<lambda>p q. H p q +
                  (if p < nNode \<and> q < nNode then (\<Sum>g<nG. mass_term el zeta g p q) else 0))\<rparr>)
         \<and> allocated num' \<and> CNumerics_nDim num' = CNumerics_nDim num"
proof -
  let ?Hg = "\<lambda>m p q. H p q +
                  (if p < nNode \<and> q < nNode then (\<Sum>g<m. mass_term el zeta g p q) else 0)"
  let ?I = "\<lambda>m t. \<exists>num'. t = (num', el\<lparr>HiHj := Some (?Hg m)\<rparr>)
                    \<and> allocated num' \<and> CNumerics_nDim num' = CNumerics_nDim num"
  have "\<exists>s'. for_loop [0..<nG] (mass_gauss zeta nNode) (num, el) = Inr s' \<and> ?I nG s'"
  proof (rule for_loop_rule [where I = ?I])
    show "0 \<le> nG" by simp
    have "?Hg 0 = H" by (auto simp add: fun_eq_iff)
    then have "el\<lparr>HiHj := Some (?Hg 0)\<rparr> = el" using H by simp
    then show "?I 0 (num, el)" using alloc by simp
  next
    fix m t
    assume inv: "?I m t"
    then obtain num1 where t: "t = (num1, el\<lparr>HiHj := Some (?Hg m)\<rparr>)"
      and a1: "allocated num1" and n1: "CNumerics_nDim num1 = CNumerics_nDim num" by blast
    have uu2: "\<And>X. (el\<lparr>HiHj := Some (?Hg m)\<rparr>)\<lparr>HiHj := X\<rparr> = el\<lparr>HiHj := X\<rparr>"
      by simp
    have "\<exists>num'. mass_gauss zeta nNode m (num1, el\<lparr>HiHj := Some (?Hg m)\<rparr>) =
           Inr (num', (el\<lparr>HiHj := Some (?Hg m)\<rparr>)\<lparr>HiHj := Some (\<lambda>p q. ?Hg m p q +
                  (if p < nNode \<and> q < nNode
                   then mass_term (el\<lparr>HiHj := Some (?Hg m)\<rparr>) zeta m p q else 0))\<rparr>)
         \<and> allocated num' \<and> CNumerics_nDim num' = CNumerics_nDim num1"
      by (rule mass_gauss_closed [OF a1 n8]) simp
    then obtain num2 where num2: "mass_gauss zeta nNode m t =
           Inr (num2, el\<lparr>HiHj := Some (\<lambda>p q. ?Hg m p q +
                  (if p < nNode \<and> q < nNode then mass_term el zeta m p q else 0))\<rparr>)"
        "allocated num2" "CNumerics_nDim num2 = CNumerics_nDim num"
      unfolding uu2 mass_term_HiHj t n1 by blast
    have "(\<lambda>p q. ?Hg m p q + (if p < nNode \<and> q < nNode then mass_term el zeta m p q else 0))
          = ?Hg (Suc m)"
      by (intro ext) simp
    with num2 show "\<exists>s'. mass_gauss zeta nNode m t = Inr s' \<and> ?I (Suc m) s'"
      by auto
  qed
  then show ?thesis by auto
qed

lemma ComputeGrad_Linear_fields:
  "\<exists>jx gr. ComputeGrad_Linear e = e\<lparr>J_X := jx, GradNi_Xj := gr\<rparr>"
  unfolding ComputeGrad_Linear_def
  by (simp only: ComputeGrad_1D_REFERENCE ComputeGrad_2D_REFERENCE ComputeGrad_3D_REFERENCE
      split: if_split) blast

lemma ComputeGrad_Linear_Coord_fields:
  "\<exists>jx gr. ComputeGrad_Linear_Coord C e = e\<lparr>J_X := jx, GradNi_Xj := gr\<rparr>"
  unfolding ComputeGrad_Linear_Coord_def
  by (simp only: ComputeGrad_1D_Coord_closed ComputeGrad_2D_Coord_closed split: if_split) blast

text \<open>What \<open>prepare_element\<close> leaves in the element.\<close>

lemma prepare_element_fields:
  assumes H: "HiHj element = Some H" and D: "DHiDHj element = Some D"
  shows "CElement_nDim (prepare_element num element config) = CElement_nDim element"
    and "nNodes (prepare_element num element config) = nNodes element"
    and "nGaussPoints (prepare_element num element config) = nGaussPoints element"
    and "GaussWeight (prepare_element num element config) = GaussWeight element"
    and "Ni (prepare_element num element config) = Ni element"
    and "RefCoord (prepare_element num element config) = RefCoord element"
    and "dNiXj (prepare_element num element config) = dNiXj element"
    and "HiHj (prepare_element num element config) =
           Some (\<lambda>p q. if p < nNodes element \<and> q < nNodes element then 0 else H p q)"
    and "DHiDHj (prepare_element num element config) =
           Some (\<lambda>p q i j. if p < nNodes element \<and> q < nNodes element
                                \<and> i < CElement_nDim element \<and> j < CElement_nDim element
                             then 0 else D p q i j)"
proof -
  let ?e0 = "clearElement element True"
  have ns: "nonstruct (clearElement element False) = nonstruct element"
    by (rule clearElement_False)
  have e0: "CElement_nDim ?e0 = CElement_nDim element" "nNodes ?e0 = nNodes element"
    "nGaussPoints ?e0 = nGaussPoints element" "GaussWeight ?e0 = GaussWeight element"
    "Ni ?e0 = Ni element" "RefCoord ?e0 = RefCoord element" "dNiXj ?e0 = dNiXj element"
    "HiHj ?e0 = Some (\<lambda>p q. if p < nNodes element \<and> q < nNodes element then 0 else H p q)"
    "DHiDHj ?e0 = Some (\<lambda>p q i j. if p < nNodes element \<and> q < nNodes element
                                \<and> i < CElement_nDim element \<and> j < CElement_nDim element
                             then 0 else D p q i j)"
    using ns by (simp_all add: clearElement_True [OF H D] nonstruct_def)
  obtain jx gr where "prepare_element num element config = ?e0\<lparr>J_X := jx, GradNi_Xj := gr\<rparr>"
    using ComputeGrad_Linear_fields [of ?e0] ComputeGrad_Linear_Coord_fields [of "Coord num" ?e0]
    by (cases "SmoothOnSurface config") (auto simp add: prepare_element_def Let_def)
  then show "CElement_nDim (prepare_element num element config) = CElement_nDim element"
    and "nNodes (prepare_element num element config) = nNodes element"
    and "nGaussPoints (prepare_element num element config) = nGaussPoints element"
    and "GaussWeight (prepare_element num element config) = GaussWeight element"
    and "Ni (prepare_element num element config) = Ni element"
    and "RefCoord (prepare_element num element config) = RefCoord element"
    and "dNiXj (prepare_element num element config) = dNiXj element"
    and "HiHj (prepare_element num element config) =
           Some (\<lambda>p q. if p < nNodes element \<and> q < nNodes element then 0 else H p q)"
    and "DHiDHj (prepare_element num element config) =
           Some (\<lambda>p q i j. if p < nNodes element \<and> q < nNodes element
                                \<and> i < CElement_nDim element \<and> j < CElement_nDim element
                             then 0 else D p q i j)"
    using e0 by simp_all
qed

lemma mass_term_DHiDHj [simp]: "mass_term (el\<lparr>DHiDHj := X\<rparr>) = mass_term el"
  by (simp add: fun_eq_iff mass_term_def GetWeight_def GetJ_X_def GetNi_def)

lemma Compute_Tangent_Matrix_flat:
  assumes alloc: "allocated num" and dim: "CElement_nDim element = CNumerics_nDim num"
    and n8: "nNodes element \<le> 8"
    and H: "HiHj element = Some H" and D: "DHiDHj element = Some D"
    and flat: "\<not> SmoothOnSurface config"
  shows "\<exists>num' D' H'.
     Compute_Tangent_Matrix num element config =
       Inr (num', (prepare_element num element config)\<lparr>DHiDHj := Some D', HiHj := Some H'\<rparr>)
     \<and> allocated num'
     \<and> (\<forall>i<nNodes element. \<forall>j<nNodes element.
          (\<forall>iDim<CNumerics_nDim num. \<forall>jDim<CNumerics_nDim num.
             D' i j iDim jDim =
               (if iDim = jDim
                then (\<Sum>g<nGaussPoints element.
                        stiff_term (prepare_element num element config) (CNumerics_nDim num)
                          (SmoothingParam config) g i j)
                else 0))
          \<and> H' i j = (\<Sum>g<nGaussPoints element.
                        mass_term (prepare_element num element config)
                          (SmoothingParamSecond config) g i j))"
proof -
  let ?prep = "prepare_element num element config"
  let ?n = "CNumerics_nDim num"
  let ?N = "nNodes element"
  let ?nG = "nGaussPoints element"
  let ?eps = "SmoothingParam config"
  let ?zeta = "SmoothingParamSecond config"
  note pf = prepare_element_fields [OF H D, of num config]
  let ?D0 = "\<lambda>p q i j. if p < ?N \<and> q < ?N \<and> i < CElement_nDim element \<and> j < CElement_nDim element
                             then 0 else D p q i j"
  let ?H0 = "\<lambda>p q. if p < ?N \<and> q < ?N then 0 else H p q"
  let ?D1 = "\<lambda>p q i j. ?D0 p q i j +
                   (if (p < ?N \<and> q < ?N) \<and> (i = j \<and> i < ?n)
                    then (\<Sum>g<?nG. stiff_term ?prep ?n ?eps g p q) else 0)"
  let ?H1 = "\<lambda>p q. ?H0 p q +
                  (if p < ?N \<and> q < ?N then (\<Sum>g<?nG. mass_term ?prep ?zeta g p q) else 0)"
  have en: "CElement_nDim ?prep = ?n" using pf(1) dim by simp
  have "\<exists>num'. for_loop [0..<?nG] (stiffness_gauss ?n ?n ?eps ?N) (num, ?prep, 0) =
           Inr (num', ?prep\<lparr>DHiDHj := Some ?D1\<rparr>, 0)
         \<and> allocated num' \<and> CNumerics_nDim num' = ?n"
    by (rule stiffness_pass [OF alloc refl en pf(9) n8]) simp
  then obtain num1 where s1: "for_loop [0..<?nG] (stiffness_gauss ?n ?n ?eps ?N) (num, ?prep, 0) =
           Inr (num1, ?prep\<lparr>DHiDHj := Some ?D1\<rparr>, 0)" and a1: "allocated num1"
    by blast
  have "\<exists>num'. for_loop [0..<?nG] (mass_gauss ?zeta ?N) (num1, ?prep\<lparr>DHiDHj := Some ?D1\<rparr>) =
           Inr (num', (?prep\<lparr>DHiDHj := Some ?D1\<rparr>)\<lparr>HiHj := Some (\<lambda>p q. ?H0 p q +
                  (if p < ?N \<and> q < ?N
                   then (\<Sum>g<?nG. mass_term (?prep\<lparr>DHiDHj := Some ?D1\<rparr>) ?zeta g p q) else 0))\<rparr>)
         \<and> allocated num' \<and> CNumerics_nDim num' = CNumerics_nDim num1"
    by (rule mass_pass [OF a1 n8]) (simp add: pf(8))
  then obtain num2 where s2: "for_loop [0..<?nG] (mass_gauss ?zeta ?N) (num1, ?prep\<lparr>DHiDHj := Some ?D1\<rparr>) =
           Inr (num2, ?prep\<lparr>DHiDHj := Some ?D1, HiHj := Some ?H1\<rparr>)" and a2: "allocated num2"
    unfolding mass_term_DHiDHj by auto
  have run: "Compute_Tangent_Matrix num element config =
      Inr (num2, ?prep\<lparr>DHiDHj := Some ?D1, HiHj := Some ?H1\<rparr>)"
    unfolding Compute_Tangent_Matrix_def Let_def
    by (simp only: flat if_False pf(2,3) s1 ebind_Inr prod.case s2)
  have vals: "\<forall>i<?N. \<forall>j<?N.
          (\<forall>iDim<?n. \<forall>jDim<?n.
             ?D1 i j iDim jDim =
               (if iDim = jDim then (\<Sum>g<?nG. stiff_term ?prep ?n ?eps g i j) else 0))
          \<and> ?H1 i j = (\<Sum>g<?nG. mass_term ?prep ?zeta g i j)"
    using dim by simp
  from run a2 vals show ?thesis by blast
qed

lemma for_loop_id:
  "(\<And>i s. body i s = Inr s) \<Longrightarrow> for_loop xs body s = Inr s"
  by (induction xs arbitrary: s) simp_all

lemma for_loop_single: "for_loop [x] body s = body x s"
  by (cases "body x s") simp_all

lemma for_loop_first_fails:
  "0 < m \<Longrightarrow> body 0 s = Inl e \<Longrightarrow> for_loop [0..<m] body s = Inl e"
  by (simp add: upt_conv_Cons)

lemma row_overrun:
  assumes rG: "rect 8 n (GradNi_Ref_Mat num)"
  shows "for_loop [0..<n + 1] (\<lambda>iDim num.
           ebind (wr2 (GradNi_Ref_Mat num) 0 iDim (f iDim))
             (\<lambda>G. Inr (num\<lparr>GradNi_Ref_Mat := G\<rparr>))) num = Inl OutOfBounds"
proof -
  let ?body = "\<lambda>iDim num. ebind (wr2 (GradNi_Ref_Mat num) 0 iDim (f iDim))
             (\<lambda>G. Inr (num\<lparr>GradNi_Ref_Mat := G\<rparr>))"
  have "\<exists>X. for_loop [0..<1] (\<lambda>i. for_loop [0..<n] (\<lambda>j s.
                ebind (wr2 (GradNi_Ref_Mat s) i j (f j)) (\<lambda>X. Inr (s\<lparr>GradNi_Ref_Mat := X\<rparr>)))) num
               = Inr (num\<lparr>GradNi_Ref_Mat := X\<rparr>)
             \<and> rect 8 n X \<and> (\<forall>i<1. \<forall>j<n. X ! i ! j = f j)"
    by (rule fill_rows [where upd = "\<lambda>num G. num\<lparr>GradNi_Ref_Mat := G\<rparr>" and buf = GradNi_Ref_Mat
          and f = "\<lambda>iShape. f"]) (use rG in simp_all)
  then obtain G where G0: "for_loop [0..<1] (\<lambda>i. for_loop [0..<n] (\<lambda>j s.
                ebind (wr2 (GradNi_Ref_Mat s) i j (f j)) (\<lambda>X. Inr (s\<lparr>GradNi_Ref_Mat := X\<rparr>)))) num
               = Inr (num\<lparr>GradNi_Ref_Mat := G\<rparr>)" and G2: "rect 8 n G"
    by blast
  have one: "[0..<1] = [0::nat]" by simp
  have pre: "for_loop [0..<n] ?body num = Inr (num\<lparr>GradNi_Ref_Mat := G\<rparr>)"
    using G0 unfolding one for_loop_single .
  from G2 have "rd1 G 0 = Inr (G ! 0)" "length (G ! 0) = n"
    by (simp_all add: rect_def)
  then have "wr2 G 0 n (f n) = Inl OutOfBounds"
    by (simp add: wr2_def wr1_def)
  then have "?body n (num\<lparr>GradNi_Ref_Mat := G\<rparr>) = Inl OutOfBounds"
    by simp
  with pre show ?thesis
    by (simp only: Suc_eq_plus1 [symmetric] for_loop_Suc ebind_Inr)
qed

lemma Compute_Tangent_Matrix_surface:
  assumes alloc: "allocated num"
    and H: "HiHj element = Some H" and D: "DHiDHj element = Some D"
    and surf: "SmoothOnSurface config"
  shows "Compute_Tangent_Matrix num element config =
     (if nNodes element = 0 \<or> nGaussPoints element = 0
      then Inr (num, prepare_element num element config)
      else Inl OutOfBounds)"
proof -
  let ?prep = "prepare_element num element config"
  let ?n = "CNumerics_nDim num"
  note pf = prepare_element_fields [OF H D, of num config]
  consider (a) "nGaussPoints element = 0" | (b) "nNodes element = 0"
    | (c) "0 < nNodes element" "0 < nGaussPoints element" by auto
  then show ?thesis
  proof cases
    case a
    then show ?thesis
      by (simp add: Compute_Tangent_Matrix_def Let_def pf(2,3))
  next
    case b
    have s: "stiffness_gauss nDim nDG eps 0 g t = Inr t" for nDim nDG eps g t
      by (cases t) (simp add: stiffness_gauss_def Let_def)
    have m: "mass_gauss zeta 0 g t = Inr t" for zeta g t
      by (cases t) (simp add: mass_gauss_def Let_def)
    show ?thesis
      by (simp add: Compute_Tangent_Matrix_def Let_def pf(2,3) b for_loop_id [OF s]
          for_loop_id [OF m])
  next
    case c
    from alloc have rG: "rect 8 ?n (GradNi_Ref_Mat num)" by (simp add: allocated_rect)
    have fill: "for_loop [0..<nNodes element] (\<lambda>iShape.
            for_loop [0..<?n + 1] (\<lambda>iDim num.
              ebind (wr2 (GradNi_Ref_Mat num) iShape iDim (GetGradNi_X ?prep iShape 0 iDim))
                (\<lambda>G. Inr (num\<lparr>GradNi_Ref_Mat := G\<rparr>)))) num = Inl OutOfBounds"
      by (rule for_loop_first_fails [OF c(1)]) (rule row_overrun [OF rG])
    have "stiffness_gauss ?n (?n + 1) (SmoothingParam config) (nNodes element) 0 (num, ?prep, 0)
            = Inl OutOfBounds"
      by (simp only: stiffness_gauss_def Let_def prod.case fill ebind_Inl)
    then have "for_loop [0..<nGaussPoints element]
        (stiffness_gauss ?n (?n + 1) (SmoothingParam config) (nNodes element)) (num, ?prep, 0)
            = Inl OutOfBounds"
      by (rule for_loop_first_fails [OF c(2)])
    then show ?thesis
      using c by (simp add: Compute_Tangent_Matrix_def Let_def pf(2,3) surf)
  qed
qed

subsection \<open>The two passes\<close>

text \<open>
  Claim C1. Let the numerics object have the buffers its constructor allocates, and let
  the element have both smoothing accumulators, the dimension of the numerics object
  and at most 8 nodes. In the flat configuration \<^verbatim>\<open>Compute_Tangent_Matrix\<close> returns. Whenever
  it returns, in either configuration, the element it leaves has, for all nodes
  \<open>i, j\<close>: the block \<open>DHiDHj[i][j]\<close> equal to the identity times the sum over the Gauss
  points of \<open>w\<cdot>J\<cdot>epsilon\<^sup>2\<cdot>(GradNi_X \<cdot> GradNj_X)\<close>, which is also the transposed block
  \<open>DHiDHj[j][i]\<close>; and the scalar \<open>HiHj[i][j]\<close> equal to the sum over the Gauss points of
  \<open>w\<cdot>J\<cdot>zeta\<cdot>Ni\<cdot>Nj\<close>. Weights, Jacobian values, shape values and gradients are those of
  the element after \<^verbatim>\<open>clearElement\<close> and \<^verbatim>\<open>ComputeGrad_Linear\<close>.
\<close>

theorem Compute_Tangent_Matrix_two_pass:
  assumes alloc: "allocated num" and dim: "CElement_nDim element = CNumerics_nDim num"
    and n8: "nNodes element \<le> 8"
    and H: "HiHj element = Some H" and D: "DHiDHj element = Some D"
  shows "(\<not> SmoothOnSurface config \<longrightarrow>
            (\<exists>num' el'. Compute_Tangent_Matrix num element config = Inr (num', el')))
     \<and> (\<forall>num' el'. Compute_Tangent_Matrix num element config = Inr (num', el') \<longrightarrow>
          (\<exists>D' H'. DHiDHj el' = Some D' \<and> HiHj el' = Some H'
            \<and> (\<forall>i<nNodes element. \<forall>j<nNodes element.
                 (\<forall>iDim<CNumerics_nDim num. \<forall>jDim<CNumerics_nDim num.
                    D' i j iDim jDim =
                      (if iDim = jDim
                       then (\<Sum>iGauss<nGaussPoints element.
                               stiff_term (prepare_element num element config)
                                 (if SmoothOnSurface config then CNumerics_nDim num + 1
                                  else CNumerics_nDim num)
                                 (SmoothingParam config) iGauss i j)
                       else 0))
                 \<and> H' i j = (\<Sum>iGauss<nGaussPoints element.
                               mass_term (prepare_element num element config)
                                 (SmoothingParamSecond config) iGauss i j))))"
proof (cases "SmoothOnSurface config")
  case False
  from Compute_Tangent_Matrix_flat [OF alloc dim n8 H D False]
  obtain num1 D1 H1 where run: "Compute_Tangent_Matrix num element config =
       Inr (num1, (prepare_element num element config)\<lparr>DHiDHj := Some D1, HiHj := Some H1\<rparr>)"
    and vals: "\<forall>i<nNodes element. \<forall>j<nNodes element.
          (\<forall>iDim<CNumerics_nDim num. \<forall>jDim<CNumerics_nDim num.
             D1 i j iDim jDim =
               (if iDim = jDim
                then (\<Sum>g<nGaussPoints element.
                        stiff_term (prepare_element num element config) (CNumerics_nDim num)
                          (SmoothingParam config) g i j)
                else 0))
          \<and> H1 i j = (\<Sum>g<nGaussPoints element.
                        mass_term (prepare_element num element config)
                          (SmoothingParamSecond config) g i j)"
    by blast
  from run vals False show ?thesis by simp
next
  case True
  note pf = prepare_element_fields [OF H D, of num config]
  note res = Compute_Tangent_Matrix_surface [OF alloc H D True]
  show ?thesis
  proof (intro conjI impI allI)
    assume "\<not> SmoothOnSurface config"
    with True show "\<exists>num' el'. Compute_Tangent_Matrix num element config = Inr (num', el')"
      by simp
  next
    fix num' el'
    assume ok: "Compute_Tangent_Matrix num element config = Inr (num', el')"
    with res have deg: "nNodes element = 0 \<or> nGaussPoints element = 0"
      and el': "el' = prepare_element num element config"
      by (simp_all split: if_splits)
    from deg show "\<exists>D' H'. DHiDHj el' = Some D' \<and> HiHj el' = Some H'
            \<and> (\<forall>i<nNodes element. \<forall>j<nNodes element.
                 (\<forall>iDim<CNumerics_nDim num. \<forall>jDim<CNumerics_nDim num.
                    D' i j iDim jDim =
                      (if iDim = jDim
                       then (\<Sum>iGauss<nGaussPoints element.
                               stiff_term (prepare_element num element config)
                                 (if SmoothOnSurface config then CNumerics_nDim num + 1
                                  else CNumerics_nDim num)
                                 (SmoothingParam config) iGauss i j)
                       else 0))
                 \<and> H' i j = (\<Sum>iGauss<nGaussPoints element.
                               mass_term (prepare_element num element config)
                                 (SmoothingParamSecond config) iGauss i j))"
      using dim by (auto simp add: el' pf(8,9))
  qed
qed

subsection \<open>The unit right triangle\<close>

lemma allocated_new: "allocated (CGradSmoothing_new n)"
  by (simp add: allocated_def CGradSmoothing_new_def)

lemma prepare_element_flat_2D:
  assumes H: "HiHj element = Some H" and D: "DHiDHj element = Some D"
    and two: "CElement_nDim element = 2" and flat: "\<not> SmoothOnSurface config"
  shows "prepare_element num element config = ComputeGrad_2D REFERENCE (clearElement element True)"
  using prepare_element_fields(1) [OF H D, of num config] two flat
    clearElement_True [OF H D] clearElement_False [of element]
  by (simp add: prepare_element_def Let_def ComputeGrad_Linear_def nonstruct_def)

lemma ex_tria_prepared:
  "GetWeight (prepare_element num ex_tria ex_config) 0 = 1 / 2"
  "GetJ_X (prepare_element num ex_tria ex_config) 0 = 1"
  "GetNi (prepare_element num ex_tria ex_config) i 0 = 1 / 3"
  "GetGradNi_X (prepare_element num ex_tria ex_config) 0 0 = (\<lambda>d. if d < 2 then - 1 else 0)"
  "GetGradNi_X (prepare_element num ex_tria ex_config) (Suc 0) 0 = (\<lambda>d. if d = 0 then 1 else 0)"
  "GetGradNi_X (prepare_element num ex_tria ex_config) 2 0 = (\<lambda>d. if d = 1 then 1 else 0)"
proof -
  have H: "HiHj ex_tria = Some (\<lambda>iNode jNode. 9)"
    and D: "DHiDHj ex_tria = Some (\<lambda>iNode jNode iDim jDim. 9)"
    and two: "CElement_nDim ex_tria = 2" and flat: "\<not> SmoothOnSurface ex_config"
    by (simp_all add: ex_tria_def ex_config_def)
  note pf = prepare_element_fields [OF H D, of num ex_config]
  let ?e0 = "clearElement ex_tria True"
  have prep: "prepare_element num ex_tria ex_config = ComputeGrad_2D REFERENCE ?e0"
    by (rule prepare_element_flat_2D [OF H D two flat])
  have e0: "RefCoord ?e0 = RefCoord ex_tria" "dNiXj ?e0 = dNiXj ex_tria" "nNodes ?e0 = 3"
    "nGaussPoints ?e0 = 1" "GradNi_Xj ?e0 = GradNi_Xj ex_tria"
    using clearElement_False [of ex_tria]
    by (simp_all add: clearElement_True [OF H D] nonstruct_def) (simp_all add: ex_tria_def)
  have J: "Jacobian_flat (RefCoord ex_tria) (dNiXj ex_tria 0) 3 =
     (\<lambda>i j. if (i = 0 \<and> j = 0) \<or> (i \<noteq> 0 \<and> j = 1) then 1 else 0)"
    using ex_tria_Jacobian by (simp add: ex_tria_def)
  show "GetWeight (prepare_element num ex_tria ex_config) 0 = 1 / 2"
    by (simp add: GetWeight_def pf(4)) (simp add: ex_tria_def)
  show "GetNi (prepare_element num ex_tria ex_config) i 0 = 1 / 3"
    by (simp add: GetNi_def pf(5)) (simp add: ex_tria_def)
  show "GetJ_X (prepare_element num ex_tria ex_config) 0 = 1"
    by (simp add: prep GetJ_X_def ComputeGrad_2D_REFERENCE e0 TrafoJacobi_def)
       (simp add: ex_tria_def)
  have grad: "GetGradNi_X (prepare_element num ex_tria ex_config) i 0 d =
      (if i < 3 \<and> d < 2 then dNiXj ex_tria 0 i d else 0)" for i d
  proof (cases "i < 3 \<and> d < 2")
    case True
    then have "d = 0 \<or> d = 1" by auto
    with True show ?thesis
      unfolding prep
      by (subst GradNi_2D_REFERENCE)
         (auto simp add: e0 J detJac_2D_def ad_2D_def)
  next
    case False
    then show ?thesis
      by (auto simp add: prep GetGradNi_X_def ComputeGrad_2D_REFERENCE e0) (simp_all add: ex_tria_def)
  qed
  show "GetGradNi_X (prepare_element num ex_tria ex_config) 0 0 = (\<lambda>d. if d < 2 then - 1 else 0)"
    by (simp add: fun_eq_iff grad) (auto simp add: ex_tria_def)
  show "GetGradNi_X (prepare_element num ex_tria ex_config) (Suc 0) 0 = (\<lambda>d. if d = 0 then 1 else 0)"
    by (simp add: fun_eq_iff grad) (auto simp add: ex_tria_def)
  show "GetGradNi_X (prepare_element num ex_tria ex_config) 2 0 = (\<lambda>d. if d = 1 then 1 else 0)"
    by (simp add: fun_eq_iff grad) (auto simp add: ex_tria_def)
qed

text \<open>The unit right triangle with one Gauss point of weight 1/2, \<open>epsilon = zeta = 1\<close>:
  the stiffness blocks are those of the Laplacian on the triangle, the mass scalars
  are all \<open>1/18\<close>.\<close>

theorem Compute_Tangent_Matrix_two_pass_witness:
  "\<exists>num' el' D' H'.
     Compute_Tangent_Matrix (CGradSmoothing_new 2) ex_tria ex_config = Inr (num', el')
     \<and> DHiDHj el' = Some D' \<and> HiHj el' = Some H'
     \<and> D' 0 0 0 0 = 1 \<and> D' 0 0 1 1 = 1 \<and> D' 0 0 0 1 = 0
     \<and> D' 0 1 0 0 = - 1 / 2 \<and> D' 1 0 0 0 = - 1 / 2 \<and> D' 1 2 1 1 = 0
     \<and> H' 0 0 = 1 / 18 \<and> H' 1 2 = 1 / 18"
proof -
  have alloc: "allocated (CGradSmoothing_new 2)" by (rule allocated_new)
  have dim: "CElement_nDim ex_tria = CNumerics_nDim (CGradSmoothing_new 2)"
    and n8: "nNodes ex_tria \<le> 8"
    and H: "HiHj ex_tria = Some (\<lambda>iNode jNode. 9)"
    and D: "DHiDHj ex_tria = Some (\<lambda>iNode jNode iDim jDim. 9)"
    and flat: "\<not> SmoothOnSurface ex_config"
    by (simp_all add: ex_tria_def CGradSmoothing_new_def ex_config_def)
  note main = Compute_Tangent_Matrix_two_pass [OF alloc dim n8 H D, of ex_config]
  from main flat obtain num' el' where run:
    "Compute_Tangent_Matrix (CGradSmoothing_new 2) ex_tria ex_config = Inr (num', el')"
    by blast
  with main obtain D' H' where DH: "DHiDHj el' = Some D'" "HiHj el' = Some H'"
    and vals: "\<forall>i<nNodes ex_tria. \<forall>j<nNodes ex_tria.
                 (\<forall>iDim<CNumerics_nDim (CGradSmoothing_new 2).
                    \<forall>jDim<CNumerics_nDim (CGradSmoothing_new 2).
                    D' i j iDim jDim =
                      (if iDim = jDim
                       then (\<Sum>iGauss<nGaussPoints ex_tria.
                               stiff_term (prepare_element (CGradSmoothing_new 2) ex_tria ex_config)
                                 (if SmoothOnSurface ex_config
                                  then CNumerics_nDim (CGradSmoothing_new 2) + 1
                                  else CNumerics_nDim (CGradSmoothing_new 2))
                                 (SmoothingParam ex_config) iGauss i j)
                       else 0))
                 \<and> H' i j = (\<Sum>iGauss<nGaussPoints ex_tria.
                               mass_term (prepare_element (CGradSmoothing_new 2) ex_tria ex_config)
                                 (SmoothingParamSecond ex_config) iGauss i j)"
    by blast
  have c: "nNodes ex_tria = 3" "nGaussPoints ex_tria = 1"
    "CNumerics_nDim (CGradSmoothing_new 2) = 2" "SmoothingParam ex_config = 1"
    "SmoothingParamSecond ex_config = 1"
    by (simp_all add: ex_tria_def CGradSmoothing_new_def ex_config_def)
  have Dv: "D' i j a b = (if a = b
      then stiff_term (prepare_element (CGradSmoothing_new 2) ex_tria ex_config) 2 1 0 i j
      else 0)" if "i < 3" "j < 3" "a < 2" "b < 2" for i j a b
    using vals that flat by (simp add: c)
  have Hv: "H' i j = mass_term (prepare_element (CGradSmoothing_new 2) ex_tria ex_config) 1 0 i j"
    if "i < 3" "j < 3" for i j
    using vals that by (simp add: c)
  have "D' 0 0 0 0 = 1" "D' 0 0 1 1 = 1" "D' 0 0 0 1 = 0" "D' 0 1 0 0 = - 1 / 2"
    "D' 1 0 0 0 = - 1 / 2" "D' 1 2 1 1 = 0" "H' 0 0 = 1 / 18" "H' 1 2 = 1 / 18"
    by (simp_all add: Dv Hv stiff_term_def mass_term_def ex_tria_prepared sum_lessThan_2)
  with run DH show ?thesis by blast
qed

subsection \<open>The scratch buffers in the curved configuration\<close>

text \<open>
  Claim C9. With the buffers exactly as the constructor allocates them for \<open>nDim = 2\<close>,
  the curved configuration and the three-node triangle, \<^verbatim>\<open>Compute_Tangent_Matrix\<close> leaves
  the allocation: the gradient loop runs to \<open>nDimGlobal = 3\<close> and writes
  \<open>GradNi_Ref_Mat[0][2]\<close> into a row of two entries.
\<close>

theorem surface_buffer_overrun:
  "Compute_Tangent_Matrix (SetCoord (CGradSmoothing_new 2) ex_Coord3) ex_tria ex_config_surface
     = Inl OutOfBounds"
proof -
  have alloc: "allocated (SetCoord (CGradSmoothing_new 2) ex_Coord3)"
    by (simp add: allocated_def SetCoord_def CGradSmoothing_new_def)
  have H: "HiHj ex_tria = Some (\<lambda>iNode jNode. 9)"
    and D: "DHiDHj ex_tria = Some (\<lambda>iNode jNode iDim jDim. 9)"
    and surf: "SmoothOnSurface ex_config_surface"
    by (simp_all add: ex_tria_def ex_config_surface_def)
  have "nNodes ex_tria \<noteq> 0" "nGaussPoints ex_tria \<noteq> 0"
    by (simp_all add: ex_tria_def)
  with Compute_Tangent_Matrix_surface [OF alloc H D surf] show ?thesis
    by simp
qed


section \<open>The global assembly: proofs\<close>

subsection \<open>Closed forms of the loops of \<^verbatim>\<open>Compute_StiffMatrix\<close>\<close>

lemma SetRef_Coord_in:
  "iNode < nNodes el \<Longrightarrow> iDim < CElement_nDim el \<Longrightarrow>
   SetRef_Coord el v iNode iDim = Inr (el\<lparr>RefCoord := upd2 (RefCoord el) iNode iDim v\<rparr>)"
  by (simp add: SetRef_Coord_def)

lemma copy_inner:
  assumes c: "container k = Some el" and i: "iNode < length idx"
    and iN: "iNode < nNodes el" and m: "m \<le> CElement_nDim el"
  shows "for_loop [0..<m] (\<lambda>iDim container.
            ebind (rd1 idx iNode) (\<lambda>p.
              case container k of
                None \<Rightarrow> Inl NullPointer
              | Some el \<Rightarrow>
                  ebind (SetRef_Coord el (Get_ValCoord geometry p iDim) iNode iDim)
                    (\<lambda>el. Inr (container(k := Some el)))))
            container
         = Inr (container(k := Some (el\<lparr>RefCoord := (\<lambda>a d. if a = iNode \<and> d < m
                   then node_Coord geometry (idx ! iNode) d else RefCoord el a d)\<rparr>)))"
  using m
proof (induction m)
  case 0
  have "el\<lparr>RefCoord := (\<lambda>a d. RefCoord el a d)\<rparr> = el" by simp
  then show ?case using c by (simp add: fun_upd_idem)
next
  case (Suc m)
  then have md: "m < CElement_nDim el" and ml: "m \<le> CElement_nDim el" by simp_all
  let ?el = "el\<lparr>RefCoord := (\<lambda>a d. if a = iNode \<and> d < m
                   then node_Coord geometry (idx ! iNode) d else RefCoord el a d)\<rparr>"
  have f: "upd2 (\<lambda>a d. if a = iNode \<and> d < m then node_Coord geometry (idx ! iNode) d
                        else RefCoord el a d) iNode m (node_Coord geometry (idx ! iNode) m)
         = (\<lambda>a d. if a = iNode \<and> d < Suc m then node_Coord geometry (idx ! iNode) d
                        else RefCoord el a d)"
    by (intro ext) (auto simp add: upd2_apply less_Suc_eq)
  have set: "SetRef_Coord ?el (Get_ValCoord geometry (idx ! iNode) m) iNode m
      = Inr (el\<lparr>RefCoord := (\<lambda>a d. if a = iNode \<and> d < Suc m
                   then node_Coord geometry (idx ! iNode) d else RefCoord el a d)\<rparr>)"
    using iN md by (simp add: SetRef_Coord_def Get_ValCoord_def f)
  show ?case
    apply (simp only: for_loop_Suc)
    apply (simp only: Suc.IH [OF ml] ebind_Inr)
    apply (simp only: rd1_in [OF i] ebind_Inr fun_upd_same option.case set fun_upd_upd)
    done
qed

lemma fill_inner:
  "fold (\<lambda>jVar Jij. upd2 Jij i jVar (D i jVar)) [0..<m] J
     = (\<lambda>a b. if a = i \<and> b < m then D a b else J a b)"
proof (induction m)
  case 0
  show ?case by simp
next
  case (Suc m)
  show ?case
    by (simp only: fold_upt_Suc Suc) (auto simp add: upd2_apply less_Suc_eq intro!: ext)
qed

lemma fill_Jacobian_ij_closed:
  "fill_Jacobian_ij n J D H
     = (\<lambda>a b. if a < n \<and> b < n then D a b - (if a = b then H else 0) else J a b)"
proof -
  have "fold (\<lambda>iVar Jij.
             let Jij1 = fold (\<lambda>jVar Jij. upd2 Jij iVar jVar (D iVar jVar)) [0..<n] Jij
             in upd2 Jij1 iVar iVar (Jij1 iVar iVar - H)) [0..<m] J
     = (\<lambda>a b. if a < m \<and> b < n then D a b - (if a = b then H else 0) else J a b)"
    if "m \<le> n" for m
    using that
  proof (induction m)
    case 0
    show ?case by simp
  next
    case (Suc m)
    then have m: "m < n" by simp
    show ?case
      apply (simp only: fold_upt_Suc)
      apply (simp only: Suc.IH [OF Suc_leD [OF Suc.prems]])
      apply (simp only: Let_def fill_inner)
      using m apply (auto simp add: upd2_apply less_Suc_eq intro!: ext)
      done
  qed
  from this [of n] show ?thesis by (simp add: fill_Jacobian_ij_def)
qed

lemma copy_coordinates_closed:
  assumes c: "container k = Some el" and n: "n \<le> length idx"
    and ng: "n \<le> grid_nNodes (VTK_Type e)" and nN: "n \<le> nNodes el"
    and m: "m \<le> CElement_nDim el"
  shows "\<exists>idx'. copy_coordinates geometry e m n k (idx, container)
             = Inr (idx', container(k := Some (with_ref_coords geometry e n m el)))
           \<and> length idx' = length idx
           \<and> (\<forall>i<n. idx' ! i = Node e i)
           \<and> (\<forall>i. n \<le> i \<longrightarrow> idx' ! i = idx ! i)"
proof -
  let ?I = "\<lambda>l (st :: nat list \<times> (int \<Rightarrow> CElement option)).
      length (fst st) = length idx
    \<and> (\<forall>i<l. fst st ! i = Node e i)
    \<and> (\<forall>i. l \<le> i \<longrightarrow> fst st ! i = idx ! i)
    \<and> snd st = container(k := Some (with_ref_coords geometry e l m el))"
  let ?body = "\<lambda>iNode (indexNode, container).
       ebind (GetNode e iNode) (\<lambda>node.
       ebind (wr1 indexNode iNode node) (\<lambda>indexNode.
       ebind (for_loop [0..<m] (\<lambda>iDim container.
                ebind (rd1 indexNode iNode) (\<lambda>p.
                  case container k of
                    None \<Rightarrow> Inl NullPointer
                  | Some el \<Rightarrow>
                      ebind (SetRef_Coord el (Get_ValCoord geometry p iDim) iNode iDim)
                        (\<lambda>el. Inr (container(k := Some el)))))
                container)
         (\<lambda>container. Inr (indexNode, container))))"
  have base: "?I 0 (idx, container)"
  proof -
    have "with_ref_coords geometry e 0 m el = el" by (simp add: with_ref_coords_def)
    then show ?thesis using c by (simp add: fun_upd_idem)
  qed
  have step: "\<exists>s'. ?body l st = Inr s' \<and> ?I (Suc l) s'" if l: "0 \<le> l" "l < n" and I: "?I l st"
    for l st
  proof -
    obtain ix ct where st: "st = (ix, ct)" by (cases st)
    from I st have len: "length ix = length idx"
      and lo: "\<forall>i<l. ix ! i = Node e i" and hi: "\<forall>i. l \<le> i \<longrightarrow> ix ! i = idx ! i"
      and ct: "ct = container(k := Some (with_ref_coords geometry e l m el))"
      by simp_all
    let ?ix = "ix[l := Node e l]"
    let ?w = "with_ref_coords geometry e l m el"
    from l n len have ll: "l < length ix" by simp
    then have ll': "l < length ?ix" by simp
    have gn: "GetNode e l = Inr (Node e l)" using l ng by (simp add: GetNode_def)
    have ck: "ct k = Some ?w" by (simp add: ct)
    have wN: "l < nNodes ?w" using l nN by (simp add: with_ref_coords_def)
    have wm: "m \<le> CElement_nDim ?w" using m by (simp add: with_ref_coords_def)
    have nth: "?ix ! l = Node e l" using ll by simp
    have rec: "?w\<lparr>RefCoord := (\<lambda>a d. if a = l \<and> d < m
                   then node_Coord geometry (?ix ! l) d
                   else RefCoord ?w a d)\<rparr>
             = with_ref_coords geometry e (Suc l) m el"
    proof -
      have "(\<lambda>a d. if a = l \<and> d < m then node_Coord geometry (Node e l) d
                   else RefCoord (el\<lparr>RefCoord := \<lambda>iNode iDim.
                               if iNode < l \<and> iDim < m
                               then node_Coord geometry (Node e iNode) iDim
                               else RefCoord el iNode iDim\<rparr>) a d)
          = (\<lambda>iNode iDim. if iNode < Suc l \<and> iDim < m
                        then node_Coord geometry (Node e iNode) iDim
                        else RefCoord el iNode iDim)"
        by (intro ext) (auto simp add: less_Suc_eq)
      then show ?thesis
        unfolding with_ref_coords_def nth by (simp only: CElement.update_convs) simp
    qed
    have upd: "ct(k := Some (with_ref_coords geometry e (Suc l) m el))
             = container(k := Some (with_ref_coords geometry e (Suc l) m el))"
      by (simp add: ct)
    have run: "?body l st = Inr (?ix, container(k := Some (with_ref_coords geometry e (Suc l) m el)))"
      unfolding st
      by (simp only: prod.case gn wr1_in [OF ll] ebind_Inr
            copy_inner [where container = ct and k = k and idx = "ix[l := Node e l]",
              OF ck ll' wN wm] rec upd)
    have "?I (Suc l) (?ix, container(k := Some (with_ref_coords geometry e (Suc l) m el)))"
      using len lo hi ll by (auto simp add: nth_list_update less_Suc_eq)
    with run show ?thesis by blast
  qed
  from for_loop_rule [where I = ?I and body = ?body and a = 0 and m = n and s = "(idx, container)",
      OF _ base step]
  obtain s' where s': "for_loop [0..<n] ?body (idx, container) = Inr s'" "?I n s'"
    by blast
  obtain ix ct where p: "s' = (ix, ct)" by (cases s')
  show ?thesis
    unfolding copy_coordinates_def
    using s' p by auto
qed

lemma AddBlock_fill:
  "Mat_AddBlock n M p0 q0 (fill_Jacobian_ij nv J (D i j) (H i j))
     = (\<lambda>p q a b. M p q a b + (if p0 = p \<and> q0 = q \<and> a < n \<and> b < n
                                then (if a < nv \<and> b < nv then contribution D H i j a b else J a b)
                                else 0))"
  by (auto simp add: Mat_AddBlock_def fill_Jacobian_ij_closed contribution_def intro!: ext)

lemma scatter_pair_closed:
  assumes h: "element_container s k = Some el" and D: "DHiDHj el = Some D"
    and H: "HiHj el = Some H" and i: "i < length idx" and j: "j < length idx"
    and nv: "nVar s \<le> CSolver_nDim s" "nVar s \<le> CElement_nDim el"
    and J: "\<forall>a b. (a < nVar s \<and> b < nVar s) \<or> J a b = J0 a b"
  shows "\<exists>J'. scatter_pair k idx i j (s\<lparr>Jacobian_ij := J, Jacobian := M\<rparr>)
       = Inr (s\<lparr>Jacobian_ij := J',
                Jacobian := (\<lambda>p q a b. M p q a b +
                   (if idx ! i = p \<and> idx ! j = q \<and> a < CSolver_nDim s \<and> b < CSolver_nDim s
                    then (if a < nVar s \<and> b < nVar s then contribution D H i j a b else J0 a b)
                    else 0))\<rparr>)
       \<and> (\<forall>a b. (a < nVar s \<and> b < nVar s) \<or> J' a b = J0 a b)"
proof -
  let ?J' = "fill_Jacobian_ij (nVar s) J (D i j) (H i j)"
  have M: "Mat_AddBlock (CSolver_nDim s) M (idx ! i) (idx ! j) ?J'
      = (\<lambda>p q a b. M p q a b +
                   (if idx ! i = p \<and> idx ! j = q \<and> a < CSolver_nDim s \<and> b < CSolver_nDim s
                    then (if a < nVar s \<and> b < nVar s then contribution D H i j a b else J0 a b)
                    else 0))"
    unfolding AddBlock_fill using J by (intro ext) auto
  have run: "scatter_pair k idx i j (s\<lparr>Jacobian_ij := J, Jacobian := M\<rparr>)
      = Inr (s\<lparr>Jacobian_ij := ?J',
               Jacobian := Mat_AddBlock (CSolver_nDim s) M (idx ! i) (idx ! j) ?J'\<rparr>)"
    unfolding scatter_pair_def
    using h D H i j nv by (simp add: Let_def)
  have J': "\<forall>a b. (a < nVar s \<and> b < nVar s) \<or> ?J' a b = J0 a b"
    using J by (auto simp add: fill_Jacobian_ij_closed)
  from run J' show ?thesis unfolding M by blast
qed

lemma scatter_jloop:
  assumes h: "element_container s k = Some el" and D: "DHiDHj el = Some D"
    and H: "HiHj el = Some H" and i: "i < length idx" and m: "m \<le> length idx"
    and nv: "nVar s \<le> CSolver_nDim s" "nVar s \<le> CElement_nDim el"
    and J: "\<forall>a b. (a < nVar s \<and> b < nVar s) \<or> J a b = J0 a b"
  shows "\<exists>J'. for_loop [0..<m] (\<lambda>j. scatter_pair k idx i j) (s\<lparr>Jacobian_ij := J, Jacobian := M\<rparr>)
       = Inr (s\<lparr>Jacobian_ij := J',
                Jacobian := (\<lambda>p q a b. M p q a b +
                   (\<Sum>j<m. if idx ! i = p \<and> idx ! j = q \<and> a < CSolver_nDim s \<and> b < CSolver_nDim s
                    then (if a < nVar s \<and> b < nVar s then contribution D H i j a b else J0 a b)
                    else 0))\<rparr>)
       \<and> (\<forall>a b. (a < nVar s \<and> b < nVar s) \<or> J' a b = J0 a b)"
  using m
proof (induction m)
  case 0
  show ?case using J by (intro exI [of _ J]) simp
next
  case (Suc m)
  then obtain J1 where IH: "for_loop [0..<m] (\<lambda>j. scatter_pair k idx i j)
       (s\<lparr>Jacobian_ij := J, Jacobian := M\<rparr>)
       = Inr (s\<lparr>Jacobian_ij := J1,
                Jacobian := (\<lambda>p q a b. M p q a b +
                   (\<Sum>j<m. if idx ! i = p \<and> idx ! j = q \<and> a < CSolver_nDim s \<and> b < CSolver_nDim s
                    then (if a < nVar s \<and> b < nVar s then contribution D H i j a b else J0 a b)
                    else 0))\<rparr>)"
    and J1: "\<forall>a b. (a < nVar s \<and> b < nVar s) \<or> J1 a b = J0 a b"
    by auto
  from Suc.prems have j: "m < length idx" by simp
  from scatter_pair_closed [OF h D H i j nv J1, where M = "(\<lambda>p q a b. M p q a b +
                   (\<Sum>j<m. if idx ! i = p \<and> idx ! j = q \<and> a < CSolver_nDim s \<and> b < CSolver_nDim s
                    then (if a < nVar s \<and> b < nVar s then contribution D H i j a b else J0 a b)
                    else 0))"]
  obtain J2 where st: "scatter_pair k idx i m (s\<lparr>Jacobian_ij := J1,
        Jacobian := (\<lambda>p q a b. M p q a b +
                   (\<Sum>j<m. if idx ! i = p \<and> idx ! j = q \<and> a < CSolver_nDim s \<and> b < CSolver_nDim s
                    then (if a < nVar s \<and> b < nVar s then contribution D H i j a b else J0 a b)
                    else 0))\<rparr>)
      = Inr (s\<lparr>Jacobian_ij := J2,
                Jacobian := (\<lambda>p q a b. (M p q a b +
                   (\<Sum>j<m. if idx ! i = p \<and> idx ! j = q \<and> a < CSolver_nDim s \<and> b < CSolver_nDim s
                    then (if a < nVar s \<and> b < nVar s then contribution D H i j a b else J0 a b)
                    else 0)) +
                   (if idx ! i = p \<and> idx ! m = q \<and> a < CSolver_nDim s \<and> b < CSolver_nDim s
                    then (if a < nVar s \<and> b < nVar s then contribution D H i m a b else J0 a b)
                    else 0))\<rparr>)"
    and J2: "\<forall>a b. (a < nVar s \<and> b < nVar s) \<or> J2 a b = J0 a b"
    by blast
  have "for_loop [0..<Suc m] (\<lambda>j. scatter_pair k idx i j) (s\<lparr>Jacobian_ij := J, Jacobian := M\<rparr>)
      = Inr (s\<lparr>Jacobian_ij := J2,
                Jacobian := (\<lambda>p q a b. M p q a b +
                   (\<Sum>j<Suc m. if idx ! i = p \<and> idx ! j = q \<and> a < CSolver_nDim s \<and> b < CSolver_nDim s
                    then (if a < nVar s \<and> b < nVar s then contribution D H i j a b else J0 a b)
                    else 0))\<rparr>)"
    by (simp only: for_loop_Suc IH ebind_Inr st) (simp add: add.assoc)
  with J2 show ?case by blast
qed

lemma scatter_iloop:
  assumes h: "element_container s k = Some el" and D: "DHiDHj el = Some D"
    and H: "HiHj el = Some H" and N: "N \<le> length idx" and m: "m \<le> length idx"
    and nv: "nVar s \<le> CSolver_nDim s" "nVar s \<le> CElement_nDim el"
    and J: "\<forall>a b. (a < nVar s \<and> b < nVar s) \<or> J a b = J0 a b"
  shows "\<exists>J'. for_loop [0..<m] (\<lambda>i. for_loop [0..<N] (\<lambda>j. scatter_pair k idx i j))
           (s\<lparr>Jacobian_ij := J, Jacobian := M\<rparr>)
       = Inr (s\<lparr>Jacobian_ij := J',
                Jacobian := (\<lambda>p q a b. M p q a b +
                   (\<Sum>i<m. \<Sum>j<N. if idx ! i = p \<and> idx ! j = q \<and> a < CSolver_nDim s \<and> b < CSolver_nDim s
                    then (if a < nVar s \<and> b < nVar s then contribution D H i j a b else J0 a b)
                    else 0))\<rparr>)
       \<and> (\<forall>a b. (a < nVar s \<and> b < nVar s) \<or> J' a b = J0 a b)"
  using m
proof (induction m)
  case 0
  show ?case using J by (intro exI [of _ J]) simp
next
  case (Suc m)
  then obtain J1 where IH: "for_loop [0..<m] (\<lambda>i. for_loop [0..<N] (\<lambda>j. scatter_pair k idx i j))
           (s\<lparr>Jacobian_ij := J, Jacobian := M\<rparr>)
       = Inr (s\<lparr>Jacobian_ij := J1,
                Jacobian := (\<lambda>p q a b. M p q a b +
                   (\<Sum>i<m. \<Sum>j<N. if idx ! i = p \<and> idx ! j = q \<and> a < CSolver_nDim s \<and> b < CSolver_nDim s
                    then (if a < nVar s \<and> b < nVar s then contribution D H i j a b else J0 a b)
                    else 0))\<rparr>)"
    and J1: "\<forall>a b. (a < nVar s \<and> b < nVar s) \<or> J1 a b = J0 a b"
    by auto
  from Suc.prems have i: "m < length idx" by simp
  from scatter_jloop [OF h D H i N nv J1, where M = "(\<lambda>p q a b. M p q a b +
                   (\<Sum>i<m. \<Sum>j<N. if idx ! i = p \<and> idx ! j = q \<and> a < CSolver_nDim s \<and> b < CSolver_nDim s
                    then (if a < nVar s \<and> b < nVar s then contribution D H i j a b else J0 a b)
                    else 0))"]
  obtain J2 where st: "for_loop [0..<N] (\<lambda>j. scatter_pair k idx m j)
      (s\<lparr>Jacobian_ij := J1, Jacobian := (\<lambda>p q a b. M p q a b +
                   (\<Sum>i<m. \<Sum>j<N. if idx ! i = p \<and> idx ! j = q \<and> a < CSolver_nDim s \<and> b < CSolver_nDim s
                    then (if a < nVar s \<and> b < nVar s then contribution D H i j a b else J0 a b)
                    else 0))\<rparr>)
      = Inr (s\<lparr>Jacobian_ij := J2,
                Jacobian := (\<lambda>p q a b. (M p q a b +
                   (\<Sum>i<m. \<Sum>j<N. if idx ! i = p \<and> idx ! j = q \<and> a < CSolver_nDim s \<and> b < CSolver_nDim s
                    then (if a < nVar s \<and> b < nVar s then contribution D H i j a b else J0 a b)
                    else 0)) +
                   (\<Sum>j<N. if idx ! m = p \<and> idx ! j = q \<and> a < CSolver_nDim s \<and> b < CSolver_nDim s
                    then (if a < nVar s \<and> b < nVar s then contribution D H m j a b else J0 a b)
                    else 0))\<rparr>)"
    and J2: "\<forall>a b. (a < nVar s \<and> b < nVar s) \<or> J2 a b = J0 a b"
    by blast
  have "for_loop [0..<Suc m] (\<lambda>i. for_loop [0..<N] (\<lambda>j. scatter_pair k idx i j))
           (s\<lparr>Jacobian_ij := J, Jacobian := M\<rparr>)
      = Inr (s\<lparr>Jacobian_ij := J2,
                Jacobian := (\<lambda>p q a b. M p q a b +
                   (\<Sum>i<Suc m. \<Sum>j<N. if idx ! i = p \<and> idx ! j = q \<and> a < CSolver_nDim s \<and> b < CSolver_nDim s
                    then (if a < nVar s \<and> b < nVar s then contribution D H i j a b else J0 a b)
                    else 0))\<rparr>)"
    by (simp only: for_loop_Suc IH ebind_Inr st) (simp add: add.assoc)
  with J2 show ?case by blast
qed

lemma scatter_loops:
  assumes h: "element_container s k = Some el" and D: "DHiDHj el = Some D"
    and H: "HiHj el = Some H" and N: "N \<le> length idx"
    and nv: "nVar s \<le> CSolver_nDim s" "nVar s \<le> CElement_nDim el"
    and J: "\<forall>a b. (a < nVar s \<and> b < nVar s) \<or> Jacobian_ij s a b = J0 a b"
  shows "\<exists>J'. for_loop [0..<N] (\<lambda>i. for_loop [0..<N] (\<lambda>j. scatter_pair k idx i j)) s
       = Inr (s\<lparr>Jacobian_ij := J',
                Jacobian := (\<lambda>p q a b. Jacobian s p q a b +
                   (\<Sum>i<N. \<Sum>j<N. if idx ! i = p \<and> idx ! j = q \<and> a < CSolver_nDim s \<and> b < CSolver_nDim s
                    then (if a < nVar s \<and> b < nVar s then contribution D H i j a b else J0 a b)
                    else 0))\<rparr>)
       \<and> (\<forall>a b. (a < nVar s \<and> b < nVar s) \<or> J' a b = J0 a b)"
  using scatter_iloop [OF h D H N N nv J, where M = "Jacobian s"] by simp

lemma Compute_Tangent_Matrix_flat_state:
  assumes alloc: "allocated num" and dim: "CElement_nDim element = CNumerics_nDim num"
    and n8: "nNodes element \<le> 8"
    and H: "HiHj element = Some H" and D: "DHiDHj element = Some D"
    and flat: "\<not> SmoothOnSurface config"
  shows "\<exists>num' el'.
     Compute_Tangent_Matrix num element config = Inr (num', el')
     \<and> allocated num' \<and> CNumerics_nDim num' = CNumerics_nDim num"
proof -
  let ?prep = "prepare_element num element config"
  let ?n = "CNumerics_nDim num"
  let ?N = "nNodes element"
  let ?nG = "nGaussPoints element"
  let ?eps = "SmoothingParam config"
  let ?zeta = "SmoothingParamSecond config"
  note pf = prepare_element_fields [OF H D, of num config]
  have en: "CElement_nDim ?prep = ?n" using pf(1) dim by simp
  from stiffness_pass [OF alloc refl en pf(9) n8 le_refl, of ?nG ?eps]
  obtain num1 D1 where s1: "for_loop [0..<?nG] (stiffness_gauss ?n ?n ?eps ?N) (num, ?prep, 0) =
           Inr (num1, ?prep\<lparr>DHiDHj := Some D1\<rparr>, 0)" and a1: "allocated num1"
      and n1: "CNumerics_nDim num1 = ?n"
    by blast
  have H1: "HiHj (?prep\<lparr>DHiDHj := Some D1\<rparr>) = Some (\<lambda>p q. if p < ?N \<and> q < ?N then 0 else H p q)"
    by (simp add: pf(8))
  from mass_pass [OF a1 n8 H1, of ?nG ?zeta]
  obtain num2 H2 where s2: "for_loop [0..<?nG] (mass_gauss ?zeta ?N) (num1, ?prep\<lparr>DHiDHj := Some D1\<rparr>) =
           Inr (num2, ?prep\<lparr>DHiDHj := Some D1, HiHj := Some H2\<rparr>)" and a2: "allocated num2"
      and n2: "CNumerics_nDim num2 = CNumerics_nDim num1"
    by blast
  have run: "Compute_Tangent_Matrix num element config =
      Inr (num2, ?prep\<lparr>DHiDHj := Some D1, HiHj := Some H2\<rparr>)"
    unfolding Compute_Tangent_Matrix_def Let_def
    by (simp only: flat if_False pf(2,3) s1 ebind_Inr prod.case s2)
  show ?thesis
    using run a2 n1 n2 by simp
qed

lemma Compute_Tangent_Matrix_flat_full:
  assumes alloc: "allocated num" and dim: "CElement_nDim element = CNumerics_nDim num"
    and n8: "nNodes element \<le> 8"
    and H: "HiHj element = Some H" and D: "DHiDHj element = Some D"
    and flat: "\<not> SmoothOnSurface config"
  shows "\<exists>num' D' H'.
     Compute_Tangent_Matrix num element config =
       Inr (num', (prepare_element num element config)\<lparr>DHiDHj := Some D', HiHj := Some H'\<rparr>)
     \<and> allocated num' \<and> CNumerics_nDim num' = CNumerics_nDim num
     \<and> (\<forall>i<nNodes element. \<forall>j<nNodes element.
          (\<forall>iDim<CNumerics_nDim num. \<forall>jDim<CNumerics_nDim num.
             D' i j iDim jDim =
               (if iDim = jDim
                then (\<Sum>g<nGaussPoints element.
                        stiff_term (prepare_element num element config) (CNumerics_nDim num)
                          (SmoothingParam config) g i j)
                else 0))
          \<and> H' i j = (\<Sum>g<nGaussPoints element.
                        mass_term (prepare_element num element config)
                          (SmoothingParamSecond config) g i j))"
proof -
  from Compute_Tangent_Matrix_flat [OF alloc dim n8 H D flat]
  obtain num1 D' H' where run1: "Compute_Tangent_Matrix num element config =
       Inr (num1, (prepare_element num element config)\<lparr>DHiDHj := Some D', HiHj := Some H'\<rparr>)"
    and vals: "(\<forall>i<nNodes element. \<forall>j<nNodes element.
          (\<forall>iDim<CNumerics_nDim num. \<forall>jDim<CNumerics_nDim num.
             D' i j iDim jDim =
               (if iDim = jDim
                then (\<Sum>g<nGaussPoints element.
                        stiff_term (prepare_element num element config) (CNumerics_nDim num)
                          (SmoothingParam config) g i j)
                else 0))
          \<and> H' i j = (\<Sum>g<nGaussPoints element.
                        mass_term (prepare_element num element config)
                          (SmoothingParamSecond config) g i j))"
    by blast
  from Compute_Tangent_Matrix_flat_state [OF alloc dim n8 H D flat]
  obtain num2 el2 where run2: "Compute_Tangent_Matrix num element config = Inr (num2, el2)"
    and a2: "allocated num2" and n2: "CNumerics_nDim num2 = CNumerics_nDim num"
    by blast
  from run1 run2 have "num1 = num2" by simp
  with a2 n2 have a1: "allocated num1" and n1: "CNumerics_nDim num1 = CNumerics_nDim num"
    by simp_all
  show ?thesis
    apply (rule exI [of _ num1], rule exI [of _ D'], rule exI [of _ H'])
    apply (intro conjI)
    apply (rule run1 a1 n1 vals)+
    done
qed

lemma with_ref_coords_fields [simp]:
  "nNodes (with_ref_coords geometry e n m el) = nNodes el"
  "CElement_nDim (with_ref_coords geometry e n m el) = CElement_nDim el"
  "nGaussPoints (with_ref_coords geometry e n m el) = nGaussPoints el"
  "GaussWeight (with_ref_coords geometry e n m el) = GaussWeight el"
  "Ni (with_ref_coords geometry e n m el) = Ni el"
  "dNiXj (with_ref_coords geometry e n m el) = dNiXj el"
  "HiHj (with_ref_coords geometry e n m el) = HiHj el"
  "DHiDHj (with_ref_coords geometry e n m el) = DHiDHj el"
  by (simp_all add: with_ref_coords_def)

lemma StiffMatrix_elem_closed:
  assumes tag: "tag_dispatch kinds (VTK_Type (elem geometry ! iElem)) (st_nNodes st, st_EL_KIND st) = (n, k)"
    and ng: "n \<le> grid_nNodes (VTK_Type (elem geometry ! iElem))"
    and len: "length (st_indexNode st) = 8"
    and h: "element_container (st_solver st) k = Some el"
    and nN: "n \<le> nNodes el" and N8: "nNodes el \<le> 8"
    and alloc: "allocated (st_numerics st)"
    and dim: "CElement_nDim el = CNumerics_nDim (st_numerics st)"
    and sd: "CSolver_nDim (st_solver st) \<le> CElement_nDim el"
    and H: "HiHj el = Some H" and D: "DHiDHj el = Some D"
    and flat: "\<not> SmoothOnSurface config"
    and nv: "nVar (st_solver st) \<le> CSolver_nDim (st_solver st)"
    and J: "\<forall>a b. (a < nVar (st_solver st) \<and> b < nVar (st_solver st))
                  \<or> Jacobian_ij (st_solver st) a b = J0 a b"
  shows "\<exists>idx' num' D' H' J'.
      Compute_Tangent_Matrix (st_numerics st)
        (with_ref_coords geometry (elem geometry ! iElem) n (CSolver_nDim (st_solver st)) el) config
        = Inr (num', (prepare_element (st_numerics st)
                 (with_ref_coords geometry (elem geometry ! iElem) n (CSolver_nDim (st_solver st)) el)
                 config)\<lparr>DHiDHj := Some D', HiHj := Some H'\<rparr>)
    \<and> allocated num' \<and> CNumerics_nDim num' = CNumerics_nDim (st_numerics st)
    \<and> (\<forall>i<nNodes el. \<forall>j<nNodes el.
          (\<forall>iDim<CNumerics_nDim (st_numerics st). \<forall>jDim<CNumerics_nDim (st_numerics st).
             D' i j iDim jDim =
               (if iDim = jDim
                then (\<Sum>g<nGaussPoints el.
                        stiff_term (prepare_element (st_numerics st)
                            (with_ref_coords geometry (elem geometry ! iElem) n
                               (CSolver_nDim (st_solver st)) el) config)
                          (CNumerics_nDim (st_numerics st)) (SmoothingParam config) g i j)
                else 0))
          \<and> H' i j = (\<Sum>g<nGaussPoints el.
                        mass_term (prepare_element (st_numerics st)
                            (with_ref_coords geometry (elem geometry ! iElem) n
                               (CSolver_nDim (st_solver st)) el) config)
                          (SmoothingParamSecond config) g i j))
    \<and> length idx' = 8
    \<and> (\<forall>i<n. idx' ! i = Node (elem geometry ! iElem) i)
    \<and> (\<forall>i. n \<le> i \<longrightarrow> idx' ! i = st_indexNode st ! i)
    \<and> (\<forall>a b. (a < nVar (st_solver st) \<and> b < nVar (st_solver st)) \<or> J' a b = J0 a b)
    \<and> StiffMatrix_elem kinds geometry config iElem st
        = Inr \<lparr>st_solver = (st_solver st)
                  \<lparr>element_container := (element_container (st_solver st))(k := Some
                      ((prepare_element (st_numerics st)
                         (with_ref_coords geometry (elem geometry ! iElem) n
                            (CSolver_nDim (st_solver st)) el)
                         config)\<lparr>DHiDHj := Some D', HiHj := Some H'\<rparr>)),
                   Jacobian_ij := J',
                   Jacobian := (\<lambda>p q a b. Jacobian (st_solver st) p q a b +
                     (\<Sum>i<nNodes el. \<Sum>j<nNodes el.
                        if idx' ! i = p \<and> idx' ! j = q
                           \<and> a < CSolver_nDim (st_solver st) \<and> b < CSolver_nDim (st_solver st)
                        then (if a < nVar (st_solver st) \<and> b < nVar (st_solver st)
                              then contribution D' H' i j a b else J0 a b)
                        else 0))\<rparr>,
               st_numerics = num', st_nNodes = n, st_EL_KIND = k, st_indexNode = idx'\<rparr>"
proof -
  let ?s = "st_solver st"
  let ?e = "elem geometry ! iElem"
  let ?m = "CSolver_nDim ?s"
  let ?w = "with_ref_coords geometry ?e n ?m el"
  let ?prep = "prepare_element (st_numerics st) ?w config"
  from nN N8 len have nl: "n \<le> length (st_indexNode st)" by simp
  from copy_coordinates_closed [where container = "element_container ?s" and k = k
      and idx = "st_indexNode st" and geometry = geometry and e = ?e and m = ?m, OF h nl ng nN sd]
  obtain idx' where cp: "copy_coordinates geometry ?e ?m n k (st_indexNode st, element_container ?s)
             = Inr (idx', (element_container ?s)(k := Some ?w))"
    and l': "length idx' = length (st_indexNode st)"
    and lo: "\<forall>i<n. idx' ! i = Node ?e i"
    and hi: "\<forall>i. n \<le> i \<longrightarrow> idx' ! i = st_indexNode st ! i"
    by blast
  have wd: "CElement_nDim ?w = CNumerics_nDim (st_numerics st)" and w8: "nNodes ?w \<le> 8"
    and wH: "HiHj ?w = Some H" and wD: "DHiDHj ?w = Some D"
    using dim N8 H D by simp_all
  from Compute_Tangent_Matrix_flat_full [OF alloc wd w8 wH wD flat]
  obtain num' D' H' where
      ctm: "Compute_Tangent_Matrix (st_numerics st) ?w config
              = Inr (num', ?prep\<lparr>DHiDHj := Some D', HiHj := Some H'\<rparr>)"
    and a': "allocated num'" and n': "CNumerics_nDim num' = CNumerics_nDim (st_numerics st)"
    and vals: "(\<forall>i<nNodes ?w. \<forall>j<nNodes ?w.
          (\<forall>iDim<CNumerics_nDim (st_numerics st). \<forall>jDim<CNumerics_nDim (st_numerics st).
             D' i j iDim jDim =
               (if iDim = jDim
                then (\<Sum>g<nGaussPoints ?w.
                        stiff_term ?prep (CNumerics_nDim (st_numerics st))
                          (SmoothingParam config) g i j)
                else 0))
          \<and> H' i j = (\<Sum>g<nGaussPoints ?w.
                        mass_term ?prep (SmoothingParamSecond config) g i j))"
    by blast
  let ?el' = "?prep\<lparr>DHiDHj := Some D', HiHj := Some H'\<rparr>"
  note pf = prepare_element_fields [OF wH wD, of "st_numerics st" config]
  have N': "nNodes ?el' = nNodes el" and d': "CElement_nDim ?el' = CElement_nDim el"
    using pf(1,2) by simp_all
  let ?s1 = "?s\<lparr>element_container := (element_container ?s)(k := Some ?el')\<rparr>"
  have h1: "element_container ?s1 k = Some ?el'" by simp
  have D1: "DHiDHj ?el' = Some D'" and H1: "HiHj ?el' = Some H'" by simp_all
  have N1: "nNodes el \<le> length idx'" using N8 l' len by simp
  have nv1: "nVar ?s1 \<le> CSolver_nDim ?s1" "nVar ?s1 \<le> CElement_nDim ?el'"
    using nv sd d' by simp_all
  have J1: "\<forall>a b. (a < nVar ?s1 \<and> b < nVar ?s1) \<or> Jacobian_ij ?s1 a b = J0 a b"
    using J by simp
  from scatter_loops [where s = ?s1 and k = k and idx = idx', OF h1 D1 H1 N1 nv1 J1]
  have "\<exists>J'. for_loop [0..<nNodes el] (\<lambda>i. for_loop [0..<nNodes el] (\<lambda>j. scatter_pair k idx' i j)) ?s1
       = Inr (?s1\<lparr>Jacobian_ij := J',
                Jacobian := (\<lambda>p q a b. Jacobian ?s p q a b +
                   (\<Sum>i<nNodes el. \<Sum>j<nNodes el. if idx' ! i = p \<and> idx' ! j = q \<and> a < ?m \<and> b < ?m
                    then (if a < nVar ?s \<and> b < nVar ?s then contribution D' H' i j a b else J0 a b)
                    else 0))\<rparr>)
       \<and> (\<forall>a b. (a < nVar ?s \<and> b < nVar ?s) \<or> J' a b = J0 a b)"
    by (simp cong: if_cong)
  then obtain J' where sc: "for_loop [0..<nNodes el] (\<lambda>i. for_loop [0..<nNodes el] (\<lambda>j. scatter_pair k idx' i j)) ?s1
       = Inr (?s1\<lparr>Jacobian_ij := J',
                Jacobian := (\<lambda>p q a b. Jacobian ?s p q a b +
                   (\<Sum>i<nNodes el. \<Sum>j<nNodes el. if idx' ! i = p \<and> idx' ! j = q \<and> a < ?m \<and> b < ?m
                    then (if a < nVar ?s \<and> b < nVar ?s then contribution D' H' i j a b else J0 a b)
                    else 0))\<rparr>)"
    and J'': "\<forall>a b. (a < nVar ?s \<and> b < nVar ?s) \<or> J' a b = J0 a b"
    by blast
  have run: "StiffMatrix_elem kinds geometry config iElem st
        = Inr \<lparr>st_solver = ?s
                  \<lparr>element_container := (element_container ?s)(k := Some ?el'),
                   Jacobian_ij := J',
                   Jacobian := (\<lambda>p q a b. Jacobian ?s p q a b +
                     (\<Sum>i<nNodes el. \<Sum>j<nNodes el.
                        if idx' ! i = p \<and> idx' ! j = q \<and> a < ?m \<and> b < ?m
                        then (if a < nVar ?s \<and> b < nVar ?s
                              then contribution D' H' i j a b else J0 a b)
                        else 0))\<rparr>,
               st_numerics = num', st_nNodes = n, st_EL_KIND = k, st_indexNode = idx'\<rparr>"
    unfolding StiffMatrix_elem_def Let_def
    using sc
    by (simp only: tag prod.case cp ebind_Inr fun_upd_same option.case ctm N' fun_upd_upd)
  have l8: "length idx' = 8" using l' len by simp
  have vals': "(\<forall>i<nNodes el. \<forall>j<nNodes el.
          (\<forall>iDim<CNumerics_nDim (st_numerics st). \<forall>jDim<CNumerics_nDim (st_numerics st).
             D' i j iDim jDim =
               (if iDim = jDim
                then (\<Sum>g<nGaussPoints el.
                        stiff_term ?prep (CNumerics_nDim (st_numerics st))
                          (SmoothingParam config) g i j)
                else 0))
          \<and> H' i j = (\<Sum>g<nGaussPoints el.
                        mass_term ?prep (SmoothingParamSecond config) g i j))"
    using vals by simp
  show ?thesis
    apply (rule exI [of _ idx'], rule exI [of _ num'])
    apply (rule exI [of _ D'], rule exI [of _ H'], rule exI [of _ J'])
    apply (intro conjI)
    apply (rule ctm a' n' vals' l8 lo hi J'' run)+
    done
qed

subsection \<open>What the element loop keeps\<close>

lemma tag_dispatch_cases:
  "tag_dispatch kinds t (n0, k0) = (if supported t then tag_dispatch kinds t (0, 0) else (n0, k0))"
  by (cases t) (simp_all add: tag_dispatch_def supported_def)

lemma tag_dispatch_grid:
  "supported t \<Longrightarrow> fst (tag_dispatch kinds t nk) = grid_nNodes t"
  by (cases t) (simp_all add: tag_dispatch_def supported_def grid_nNodes_def)

lemma fold_take_Suc:
  "m < length xs \<Longrightarrow> fold f (take (Suc m) xs) s0 = f (xs ! m) (fold f (take m xs) s0)"
  by (simp add: take_Suc_conv_app_nth)

lemma in_force_step:
  assumes "m < length (elem geometry)"
  shows "in_force kinds geometry m =
     tag_dispatch kinds (VTK_Type (elem geometry ! m))
       (fold (\<lambda>e. tag_dispatch kinds (VTK_Type e)) (take m (elem geometry)) (0, 0))"
  unfolding in_force_def by (rule fold_take_Suc [OF assms])

lemma in_force_supported:
  assumes "m < length (elem geometry)" "supported (VTK_Type (elem geometry ! m))"
  shows "in_force kinds geometry m = tag_dispatch kinds (VTK_Type (elem geometry ! m)) (0, 0)"
proof -
  obtain n0 k0 where p: "fold (\<lambda>e. tag_dispatch kinds (VTK_Type e)) (take m (elem geometry)) (0, 0)
      = (n0, k0)"
    by (cases "fold (\<lambda>e. tag_dispatch kinds (VTK_Type e)) (take m (elem geometry)) (0, 0)")
  show ?thesis
    unfolding in_force_step [OF assms(1)] p using assms(2)
    by (simp add: tag_dispatch_cases [of kinds _ n0 k0])
qed

lemma evolved_refl: "evolved h h"
  by (cases h) (simp_all add: evolved_def)

lemma StiffMatrix_inv_init:
  assumes alloc: "allocated num"
  shows "StiffMatrix_inv kinds geometry s num 0 (StiffMatrix_init s num)"
  unfolding StiffMatrix_inv_def StiffMatrix_init_def
  using alloc by (simp add: evolved_refl)

lemma evolved_SomeD:
  assumes "evolved (Some el0) h"
  shows "\<exists>el. h = Some el
     \<and> CElement_nDim el = CElement_nDim el0 \<and> nNodes el = nNodes el0
     \<and> nGaussPoints el = nGaussPoints el0 \<and> GaussWeight el = GaussWeight el0
     \<and> Ni el = Ni el0 \<and> dNiXj el = dNiXj el0
     \<and> (\<forall>a d. (a < nNodes el0 \<and> d < CElement_nDim el0)
                \<or> RefCoord el a d = RefCoord el0 a d)
     \<and> (HiHj el0 \<noteq> None \<longrightarrow> HiHj el \<noteq> None)
     \<and> (DHiDHj el0 \<noteq> None \<longrightarrow> DHiDHj el \<noteq> None)"
  using assms by (cases h) (simp_all add: evolved_def)

lemma handler_fitsD:
  assumes "handler_fits s num (n, k)"
  shows "\<exists>el. element_container s k = Some el \<and> n \<le> nNodes el \<and> nNodes el \<le> 8
     \<and> CElement_nDim el = CNumerics_nDim num \<and> CSolver_nDim s \<le> CElement_nDim el
     \<and> HiHj el \<noteq> None \<and> DHiDHj el \<noteq> None"
  using assms by (cases "element_container s k") (simp_all add: handler_fits_def)

lemma StiffMatrix_invD:
  assumes "StiffMatrix_inv kinds geometry s num m st"
  shows "allocated (st_numerics st)"
    and "CNumerics_nDim (st_numerics st) = CNumerics_nDim num"
    and "CSolver_nDim (st_solver st) = CSolver_nDim s"
    and "nVar (st_solver st) = nVar s"
    and "\<forall>a b. (a < nVar s \<and> b < nVar s) \<or> Jacobian_ij (st_solver st) a b = Jacobian_ij s a b"
    and "(st_nNodes st, st_EL_KIND st)
         = fold (\<lambda>e. tag_dispatch kinds (VTK_Type e)) (take m (elem geometry)) (0, 0)"
    and "length (st_indexNode st) = 8"
    and "\<forall>k. evolved (element_container s k) (element_container (st_solver st) k)"
  using assms unfolding StiffMatrix_inv_def by simp_all

lemma StiffMatrix_elem_inv:
  assumes inv: "StiffMatrix_inv kinds geometry s num m st"
    and m: "m < length (elem geometry)"
    and fits: "handler_fits s num (in_force kinds geometry m)"
    and ng: "fst (in_force kinds geometry m) \<le> grid_nNodes (VTK_Type (elem geometry ! m))"
    and nv: "nVar s \<le> CSolver_nDim s"
    and flat: "\<not> SmoothOnSurface config"
  shows "\<exists>st'. StiffMatrix_elem kinds geometry config m st = Inr st'
            \<and> StiffMatrix_inv kinds geometry s num (Suc m) st'"
proof -
  let ?e = "elem geometry ! m"
  obtain n k where nk: "in_force kinds geometry m = (n, k)"
    by (cases "in_force kinds geometry m")
  note iD = StiffMatrix_invD [OF inv]
  note a = iD(1) and nd = iD(2) and sd = iD(3) and sv = iD(4) and J = iD(5) and pr = iD(6)
    and len = iD(7) and ev = iD(8)
  have tag: "tag_dispatch kinds (VTK_Type ?e) (st_nNodes st, st_EL_KIND st) = (n, k)"
    using nk in_force_step [OF m, of kinds] pr by simp
  from fits have "handler_fits s num (n, k)" by (simp add: nk)
  from handler_fitsD [OF this]
  obtain el0 where h0: "element_container s k = Some el0"
    and f0: "n \<le> nNodes el0" "nNodes el0 \<le> 8" "CElement_nDim el0 = CNumerics_nDim num"
      "CSolver_nDim s \<le> CElement_nDim el0" "HiHj el0 \<noteq> None" "DHiDHj el0 \<noteq> None"
    by blast
  from ev have "evolved (element_container s k) (element_container (st_solver st) k)" ..
  then have "evolved (Some el0) (element_container (st_solver st) k)" by (simp add: h0)
  from evolved_SomeD [OF this]
  obtain el where h: "element_container (st_solver st) k = Some el"
    and e1: "CElement_nDim el = CElement_nDim el0" "nNodes el = nNodes el0"
      "nGaussPoints el = nGaussPoints el0" "GaussWeight el = GaussWeight el0"
      "Ni el = Ni el0" "dNiXj el = dNiXj el0"
    and eR: "\<forall>a d. (a < nNodes el0 \<and> d < CElement_nDim el0) \<or> RefCoord el a d = RefCoord el0 a d"
    and eH0: "HiHj el0 \<noteq> None \<longrightarrow> HiHj el \<noteq> None" "DHiDHj el0 \<noteq> None \<longrightarrow> DHiDHj el \<noteq> None"
    by blast
  from eH0 f0(5,6) obtain H D where H: "HiHj el = Some H" and D: "DHiDHj el = Some D" by auto
  have ng': "n \<le> grid_nNodes (VTK_Type ?e)" using ng nk by simp
  have nN: "n \<le> nNodes el" and N8: "nNodes el \<le> 8" using f0 e1 by simp_all
  have dim: "CElement_nDim el = CNumerics_nDim (st_numerics st)" using f0 e1 nd by simp
  have sde: "CSolver_nDim (st_solver st) \<le> CElement_nDim el" using f0 e1 sd by simp
  have nv': "nVar (st_solver st) \<le> CSolver_nDim (st_solver st)" using nv sv sd by simp
  have J': "\<forall>a b. (a < nVar (st_solver st) \<and> b < nVar (st_solver st))
                  \<or> Jacobian_ij (st_solver st) a b = Jacobian_ij s a b"
    using J sv by simp
  let ?w = "with_ref_coords geometry ?e n (CSolver_nDim (st_solver st)) el"
  let ?prep = "prepare_element (st_numerics st) ?w config"
  note step = StiffMatrix_elem_closed [OF tag ng' len h nN N8 a dim sde H D flat nv' J']
  then obtain idx' num' D' H' J2 where
        a': "allocated num'" and n': "CNumerics_nDim num' = CNumerics_nDim (st_numerics st)"
    and l': "length idx' = 8"
    and J2: "\<forall>a b. (a < nVar (st_solver st) \<and> b < nVar (st_solver st)) \<or> J2 a b = Jacobian_ij s a b"
    and run: "StiffMatrix_elem kinds geometry config m st
        = Inr \<lparr>st_solver = (st_solver st)
                  \<lparr>element_container := (element_container (st_solver st))(k := Some
                      (?prep\<lparr>DHiDHj := Some D', HiHj := Some H'\<rparr>)),
                   Jacobian_ij := J2,
                   Jacobian := (\<lambda>p q a b. Jacobian (st_solver st) p q a b +
                     (\<Sum>i<nNodes el. \<Sum>j<nNodes el.
                        if idx' ! i = p \<and> idx' ! j = q
                           \<and> a < CSolver_nDim (st_solver st) \<and> b < CSolver_nDim (st_solver st)
                        then (if a < nVar (st_solver st) \<and> b < nVar (st_solver st)
                              then contribution D' H' i j a b else Jacobian_ij s a b)
                        else 0))\<rparr>,
               st_numerics = num', st_nNodes = n, st_EL_KIND = k, st_indexNode = idx'\<rparr>"
    by (elim exE conjE)
  let ?el' = "?prep\<lparr>DHiDHj := Some D', HiHj := Some H'\<rparr>"
  have wH: "HiHj ?w = Some H" and wD: "DHiDHj ?w = Some D" using H D by simp_all
  note pf = prepare_element_fields [OF wH wD, of "st_numerics st" config]
  have R: "RefCoord ?el' a d = RefCoord el0 a d"
    if out: "\<not> (a < nNodes el0 \<and> d < CElement_nDim el0)" for a d
  proof -
    from out f0(1,4) sd have "\<not> (a < n \<and> d < CSolver_nDim (st_solver st))" by auto
    then have "RefCoord ?w a d = RefCoord el a d" by (auto simp add: with_ref_coords_def)
    moreover from eR out have "RefCoord el a d = RefCoord el0 a d" by blast
    ultimately show ?thesis by (simp add: pf(6))
  qed
  have st1: "CElement_nDim ?el' = CElement_nDim el0" "nNodes ?el' = nNodes el0"
      "nGaussPoints ?el' = nGaussPoints el0" "GaussWeight ?el' = GaussWeight el0"
      "Ni ?el' = Ni el0" "dNiXj ?el' = dNiXj el0"
    using pf(1,2,3,4,5,7) e1 by simp_all
  have evk: "evolved (Some el0) (Some ?el')"
    unfolding evolved_def option.case
    apply (intro conjI)
    apply (rule st1)+
    using R apply blast
    apply simp
    apply simp
    done
  let ?M = "(\<lambda>p q a b. Jacobian (st_solver st) p q a b +
                     (\<Sum>i<nNodes el. \<Sum>j<nNodes el.
                        if idx' ! i = p \<and> idx' ! j = q
                           \<and> a < CSolver_nDim (st_solver st) \<and> b < CSolver_nDim (st_solver st)
                        then (if a < nVar (st_solver st) \<and> b < nVar (st_solver st)
                              then contribution D' H' i j a b else Jacobian_ij s a b)
                        else 0))"
  let ?s' = "(st_solver st)
                  \<lparr>element_container := (element_container (st_solver st))(k := Some ?el'),
                   Jacobian_ij := J2, Jacobian := ?M\<rparr>"
  let ?st' = "\<lparr>st_solver = ?s', st_numerics = num', st_nNodes = n, st_EL_KIND = k,
               st_indexNode = idx'\<rparr>"
  have pr': "(n, k) = fold (\<lambda>e. tag_dispatch kinds (VTK_Type e)) (take (Suc m) (elem geometry)) (0, 0)"
    using nk by (simp add: in_force_def)
  have ev': "evolved (element_container s k') (element_container ?s' k')" for k'
  proof (cases "k' = k")
    case True
    then show ?thesis using evk h0 by simp
  next
    case False
    from ev have "evolved (element_container s k') (element_container (st_solver st) k')" ..
    with False show ?thesis by simp
  qed
  have c1: "allocated (st_numerics ?st')" using a' by simp
  have c2: "CNumerics_nDim (st_numerics ?st') = CNumerics_nDim num" using n' nd by simp
  have c3: "CSolver_nDim (st_solver ?st') = CSolver_nDim s" using sd by simp
  have c4: "nVar (st_solver ?st') = nVar s" using sv by simp
  have c5: "\<forall>a b. (a < nVar s \<and> b < nVar s) \<or> Jacobian_ij (st_solver ?st') a b = Jacobian_ij s a b"
    using J2 sv by simp
  have c6: "(st_nNodes ?st', st_EL_KIND ?st')
      = fold (\<lambda>e. tag_dispatch kinds (VTK_Type e)) (take (Suc m) (elem geometry)) (0, 0)"
    using pr' by simp
  have c7: "length (st_indexNode ?st') = 8" using l' by simp
  have c8: "\<forall>k'. evolved (element_container s k') (element_container (st_solver ?st') k')"
    using ev' by simp
  have "StiffMatrix_inv kinds geometry s num (Suc m) ?st'"
    unfolding StiffMatrix_inv_def
    by (intro conjI) (rule c1 c2 c3 c4 c5 c6 c7 c8)+
  with run show ?thesis by blast
qed

lemma StiffMatrix_upto_inv:
  assumes alloc: "allocated num"
    and nv: "nVar s \<le> CSolver_nDim s"
    and flat: "\<not> SmoothOnSurface config"
    and fits: "\<forall>iElem<length (elem geometry).
        handler_fits s num (in_force kinds geometry iElem)
        \<and> fst (in_force kinds geometry iElem) \<le> grid_nNodes (VTK_Type (elem geometry ! iElem))"
    and m: "m \<le> length (elem geometry)"
  shows "\<exists>st. StiffMatrix_upto kinds geometry config m s num = Inr st
            \<and> StiffMatrix_inv kinds geometry s num m st"
  unfolding StiffMatrix_upto_def
proof (rule for_loop_rule [where I = "StiffMatrix_inv kinds geometry s num"])
  show "0 \<le> m" by simp
  show "StiffMatrix_inv kinds geometry s num 0 (StiffMatrix_init s num)"
    by (rule StiffMatrix_inv_init [OF alloc])
next
  fix i st
  assume i: "i < m" and inv: "StiffMatrix_inv kinds geometry s num i st"
  from i m have il: "i < length (elem geometry)" by simp
  with fits have f: "handler_fits s num (in_force kinds geometry i)"
    and g: "fst (in_force kinds geometry i) \<le> grid_nNodes (VTK_Type (elem geometry ! i))"
    by simp_all
  show "\<exists>s'. StiffMatrix_elem kinds geometry config i st = Inr s'
            \<and> StiffMatrix_inv kinds geometry s num (Suc i) s'"
    by (rule StiffMatrix_elem_inv [OF inv il f g nv flat])
qed

lemma Compute_StiffMatrix_returns:
  assumes alloc: "allocated num"
    and nv: "nVar s \<le> CSolver_nDim s"
    and flat: "\<not> SmoothOnSurface config"
    and fits: "\<forall>iElem<length (elem geometry).
        handler_fits s num (in_force kinds geometry iElem)
        \<and> fst (in_force kinds geometry iElem) \<le> grid_nNodes (VTK_Type (elem geometry ! iElem))"
  shows "\<exists>s' num'. Compute_StiffMatrix kinds geometry config s num = Inr (s', num')"
  using StiffMatrix_upto_inv [OF alloc nv flat fits le_refl]
  by (auto simp add: Compute_StiffMatrix_def)

subsection \<open>No check on the type of an element or on its geometry\<close>

text \<open>The local operator on the unit right triangle of the example.\<close>

lemma ex_tria_operator:
  "\<exists>num' el' D' H'.
     Compute_Tangent_Matrix (CGradSmoothing_new 2) ex_tria ex_config = Inr (num', el')
     \<and> DHiDHj el' = Some D' \<and> HiHj el' = Some H'
     \<and> (\<forall>i<3. \<forall>j<3. \<forall>a<2. \<forall>b<2. D' i j a b =
           (if a = b
            then (if i = 0 then (if j = 0 then 1 else - 1 / 2)
                  else if j = 0 then - 1 / 2 else if i = j then 1 / 2 else 0)
            else 0))
     \<and> (\<forall>i<3. \<forall>j<3. H' i j = 1 / 18)"
proof -
  have alloc: "allocated (CGradSmoothing_new 2)" by (rule allocated_new)
  have dim: "CElement_nDim ex_tria = CNumerics_nDim (CGradSmoothing_new 2)"
    and n8: "nNodes ex_tria \<le> 8"
    and H: "HiHj ex_tria = Some (\<lambda>iNode jNode. 9)"
    and D: "DHiDHj ex_tria = Some (\<lambda>iNode jNode iDim jDim. 9)"
    and flat: "\<not> SmoothOnSurface ex_config"
    by (simp_all add: ex_tria_def CGradSmoothing_new_def ex_config_def)
  let ?prep = "prepare_element (CGradSmoothing_new 2) ex_tria ex_config"
  from Compute_Tangent_Matrix_flat [OF alloc dim n8 H D flat]
  obtain num' D' H' where run:
    "Compute_Tangent_Matrix (CGradSmoothing_new 2) ex_tria ex_config
       = Inr (num', ?prep\<lparr>DHiDHj := Some D', HiHj := Some H'\<rparr>)"
    and vals: "\<forall>i<nNodes ex_tria. \<forall>j<nNodes ex_tria.
                 (\<forall>iDim<CNumerics_nDim (CGradSmoothing_new 2).
                    \<forall>jDim<CNumerics_nDim (CGradSmoothing_new 2).
                    D' i j iDim jDim =
                      (if iDim = jDim
                       then (\<Sum>iGauss<nGaussPoints ex_tria.
                               stiff_term ?prep (CNumerics_nDim (CGradSmoothing_new 2))
                                 (SmoothingParam ex_config) iGauss i j)
                       else 0))
                 \<and> H' i j = (\<Sum>iGauss<nGaussPoints ex_tria.
                               mass_term ?prep (SmoothingParamSecond ex_config) iGauss i j)"
    by blast
  have c: "nNodes ex_tria = 3" "nGaussPoints ex_tria = 1"
    "CNumerics_nDim (CGradSmoothing_new 2) = 2" "SmoothingParam ex_config = 1"
    "SmoothingParamSecond ex_config = 1"
    by (simp_all add: ex_tria_def CGradSmoothing_new_def ex_config_def)
  have Dv: "D' i j a b = (if a = b then stiff_term ?prep 2 1 0 i j else 0)"
    if "i < 3" "j < 3" "a < 2" "b < 2" for i j a b
    using vals that by (simp add: c)
  have Hv: "H' i j = mass_term ?prep 1 0 i j" if "i < 3" "j < 3" for i j
    using vals that by (simp add: c)
  have three: "i = 0 \<or> i = Suc 0 \<or> i = 2" if "i < 3" for i :: nat
    using that by auto
  have st: "stiff_term ?prep 2 1 0 i j =
         (if i = 0 then (if j = 0 then 1 else - 1 / 2)
                  else if j = 0 then - 1 / 2 else if i = j then 1 / 2 else 0)"
    if "i < 3" "j < 3" for i j
    using three [OF that(1)] three [OF that(2)]
    by (auto simp add: stiff_term_def ex_tria_prepared sum_lessThan_2)
  have ms: "mass_term ?prep 1 0 i j = 1 / 18" for i j
    by (simp add: mass_term_def ex_tria_prepared)
  have 1: "\<forall>i<3. \<forall>j<3. \<forall>a<2. \<forall>b<2. D' i j a b =
           (if a = b
            then (if i = 0 then (if j = 0 then 1 else - 1 / 2)
                  else if j = 0 then - 1 / 2 else if i = j then 1 / 2 else 0)
            else 0)"
    using Dv st by simp
  have 2: "\<forall>i<3. \<forall>j<3. H' i j = 1 / 18"
    using Hv ms by simp
  show ?thesis
    apply (rule exI [of _ num'], rule exI [of _ "?prep\<lparr>DHiDHj := Some D', HiHj := Some H'\<rparr>"])
    apply (rule exI [of _ D'], rule exI [of _ H'])
    using run 1 2 apply simp
    done
qed

lemma with_ref_coords_0: "with_ref_coords geometry e 0 m el = el"
  by (simp add: with_ref_coords_def)

lemma ex_solver_2D_fields:
  "CSolver_nDim ex_solver_2D = 2" "nVar ex_solver_2D = 2"
  "Jacobian ex_solver_2D = (\<lambda>p q a b. 5)"
  "element_container ex_solver_2D 0 = Some ex_tria"
  by (simp_all add: ex_solver_2D_def ex_solver_def)

lemma ex_handler_fits:
  "n \<le> 3 \<Longrightarrow> handler_fits ex_solver_2D (CGradSmoothing_new 2) (n, 0)"
  by (simp add: handler_fits_def ex_solver_2D_fields)
     (simp add: ex_tria_def CGradSmoothing_new_def)

lemma ex_contribution_sum:
  assumes D: "\<forall>i<3. \<forall>j<3. \<forall>a<2. \<forall>b<2. D' i j a b =
           (if a = b
            then (if i = 0 then (if j = 0 then 1 else - 1 / 2)
                  else if j = 0 then - 1 / 2 else if i = j then 1 / 2 else 0)
            else 0)"
    and H: "\<forall>i<3. \<forall>j<3. H' i j = 1 / (18::real)"
  shows "(\<Sum>i<(3::nat). \<Sum>j<(3::nat). contribution D' H' i j 0 0) = - 1 / 2"
proof -
  have d: "D' i j 0 0 = (if i = 0 then (if j = 0 then 1 else - 1 / 2)
                  else if j = 0 then - 1 / 2 else if i = j then 1 / 2 else 0)"
    if "i < 3" "j < 3" for i j
    using D that by simp
  have h: "H' i j = 1 / 18" if "i < 3" "j < 3" for i j
    using H that by simp
  show ?thesis
    by (simp add: sum_lessThan_3 contribution_def d h)
qed

text \<open>
  Claim C4, as the code has it. \<^verbatim>\<open>Compute_StiffMatrix\<close> has no failure path for the type of
  an element or for its geometry. Let the configuration be flat, the buffers of the
  numerics object allocated and \<open>nVar\<close> at most \<open>nDim\<close>. Let every element of the mesh be
  such that the node count and the kind the loop works with at that element stay
  inside the arrays: the count is at most the number of nodes of the mesh element and
  at most that of the handler of the kind, which exists, has the dimension of the
  numerics object and of the solver, at most 8 nodes and both accumulators. Then the
  call returns, whatever the types and the node coordinates of the elements. A type
  that none of the six tests matches leaves the node count and the kind of the previous
  element (initially 0 nodes and kind 0) in place, and the element is assembled with
  them.
\<close>

theorem Compute_StiffMatrix_no_abort:
  assumes alloc: "allocated num"
    and nv: "nVar s \<le> CSolver_nDim s"
    and flat: "\<not> SmoothOnSurface config"
    and fits: "\<forall>iElem<length (elem geometry).
        handler_fits s num (in_force kinds geometry iElem)
        \<and> fst (in_force kinds geometry iElem) \<le> grid_nNodes (VTK_Type (elem geometry ! iElem))"
  shows "(\<exists>s' num'. Compute_StiffMatrix kinds geometry config s num = Inr (s', num'))
       \<and> (\<forall>t nk. \<not> supported t \<longrightarrow> tag_dispatch kinds t nk = nk)"
proof
  show "\<exists>s' num'. Compute_StiffMatrix kinds geometry config s num = Inr (s', num')"
    by (rule Compute_StiffMatrix_returns [OF alloc nv flat fits])
  show "\<forall>t nk. \<not> supported t \<longrightarrow> tag_dispatch kinds t nk = nk"
  proof (intro allI impI)
    fix t and nk :: "nat \<times> int"
    assume "\<not> supported t"
    then show "tag_dispatch kinds t nk = nk"
      using tag_dispatch_cases [of kinds t "fst nk" "snd nk"] by simp
  qed
qed

text \<open>A mesh of a \<^verbatim>\<open>LINE\<close> element and a triangle without area.\<close>

lemma ex_bad_in_force:
  "in_force ex_kinds ex_geometry_bad 0 = (0, 0)"
  "in_force ex_kinds ex_geometry_bad (Suc 0) = (3, 0)"
  by (simp_all add: in_force_def ex_geometry_bad_def tag_dispatch_def ex_kinds_def)

theorem Compute_StiffMatrix_no_abort_witness:
  "(\<exists>s' num'. Compute_StiffMatrix ex_kinds ex_geometry_bad ex_config ex_solver_2D (CGradSmoothing_new 2)
      = Inr (s', num'))
   \<and> tag_dispatch ex_kinds LINE (3, 1) = (3, 1)"
proof -
  have alloc: "allocated (CGradSmoothing_new 2)" by (rule allocated_new)
  have nv: "nVar ex_solver_2D \<le> CSolver_nDim ex_solver_2D" by (simp add: ex_solver_2D_fields)
  have flat: "\<not> SmoothOnSurface ex_config" by (simp add: ex_config_def)
  have len: "length (elem ex_geometry_bad) = 2" by (simp add: ex_geometry_bad_def)
  have two: "iElem = 0 \<or> iElem = Suc 0" if "iElem < 2" for iElem :: nat
    using that by auto
  have t0: "VTK_Type (elem ex_geometry_bad ! 0) = LINE"
    and t1: "VTK_Type (elem ex_geometry_bad ! Suc 0) = TRIANGLE"
    by (simp_all add: ex_geometry_bad_def)
  have fits: "\<forall>iElem<length (elem ex_geometry_bad).
        handler_fits ex_solver_2D (CGradSmoothing_new 2) (in_force ex_kinds ex_geometry_bad iElem)
        \<and> fst (in_force ex_kinds ex_geometry_bad iElem)
            \<le> grid_nNodes (VTK_Type (elem ex_geometry_bad ! iElem))"
    unfolding len
  proof (intro allI impI)
    fix iElem :: nat
    assume "iElem < 2"
    from two [OF this]
    show "handler_fits ex_solver_2D (CGradSmoothing_new 2) (in_force ex_kinds ex_geometry_bad iElem)
        \<and> fst (in_force ex_kinds ex_geometry_bad iElem)
            \<le> grid_nNodes (VTK_Type (elem ex_geometry_bad ! iElem))"
      by (auto simp add: ex_bad_in_force ex_handler_fits t0 t1 grid_nNodes_def)
  qed
  have ns: "\<not> supported LINE" by (simp add: supported_def)
  from Compute_StiffMatrix_no_abort [OF alloc nv flat fits] ns
  show ?thesis by blast
qed

text \<open>
  The reading of claim C4 that such elements abort the call does not hold. On the mesh
  whose only element has the type \<^verbatim>\<open>LINE\<close> the call returns, and it has assembled the
  element with the handler of kind 0 and an index array of zeros: the entry
  \<open>(0, 0, 0, 0)\<close> of the matrix went from \<open>5\<close> to \<open>9/2\<close>. On the mesh whose only element is a
  triangle with its three corners in one point, the Jacobian determinant that
  \<^verbatim>\<open>ComputeGrad_2D\<close> divides by is zero, and the call returns as well.
\<close>

theorem unchecked_element_is_assembled:
  "(\<exists>s' num'. Compute_StiffMatrix ex_kinds ex_geometry_line ex_config ex_solver_2D (CGradSmoothing_new 2)
       = Inr (s', num')
      \<and> Jacobian ex_solver_2D 0 0 0 0 = 5 \<and> Jacobian s' 0 0 0 0 = 9 / 2)
   \<and> detJac_2D (Jacobian_flat
        (\<lambda>iNode iDim. Get_ValCoord ex_geometry_degenerate
                         (Node (elem ex_geometry_degenerate ! 0) iNode) iDim)
        (dNiXj ex_tria 0) 3) = 0
   \<and> (\<exists>s' num'. Compute_StiffMatrix ex_kinds ex_geometry_degenerate ex_config ex_solver_2D
                   (CGradSmoothing_new 2) = Inr (s', num'))"
proof (intro conjI)
  let ?st = "StiffMatrix_init ex_solver_2D (CGradSmoothing_new 2)"
  have alloc: "allocated (CGradSmoothing_new 2)" by (rule allocated_new)
  have flat: "\<not> SmoothOnSurface ex_config" by (simp add: ex_config_def)
  have tag: "tag_dispatch ex_kinds (VTK_Type (elem ex_geometry_line ! 0)) (st_nNodes ?st, st_EL_KIND ?st)
      = (0, 0)"
    by (simp add: ex_geometry_line_def tag_dispatch_def StiffMatrix_init_def)
  have st: "st_solver ?st = ex_solver_2D" "st_numerics ?st = CGradSmoothing_new 2"
    "st_indexNode ?st = replicate 8 0"
    by (simp_all add: StiffMatrix_init_def)
  have h: "element_container (st_solver ?st) 0 = Some ex_tria"
    by (simp add: st ex_solver_2D_fields)
  have c: "0 \<le> grid_nNodes (VTK_Type (elem ex_geometry_line ! 0))"
    "length (st_indexNode ?st) = 8" "0 \<le> nNodes ex_tria" "nNodes ex_tria \<le> 8"
    "allocated (st_numerics ?st)"
    "CElement_nDim ex_tria = CNumerics_nDim (st_numerics ?st)"
    "CSolver_nDim (st_solver ?st) \<le> CElement_nDim ex_tria"
    "HiHj ex_tria = Some (\<lambda>iNode jNode. 9)" "DHiDHj ex_tria = Some (\<lambda>iNode jNode iDim jDim. 9)"
    "nVar (st_solver ?st) \<le> CSolver_nDim (st_solver ?st)"
    "\<forall>a b. (a < nVar (st_solver ?st) \<and> b < nVar (st_solver ?st))
                  \<or> Jacobian_ij (st_solver ?st) a b = Jacobian_ij ex_solver_2D a b"
    by (simp_all add: st alloc ex_solver_2D_fields) (simp_all add: ex_tria_def CGradSmoothing_new_def)
  note step = StiffMatrix_elem_closed [OF tag c(1) c(2) h c(3) c(4) c(5) c(6) c(7) c(8) c(9) flat
      c(10) c(11)]
  then obtain idx' num' D' H' J' where
      ctm: "Compute_Tangent_Matrix (st_numerics ?st)
        (with_ref_coords ex_geometry_line (elem ex_geometry_line ! 0) 0 (CSolver_nDim (st_solver ?st)) ex_tria)
        ex_config
        = Inr (num', (prepare_element (st_numerics ?st)
            (with_ref_coords ex_geometry_line (elem ex_geometry_line ! 0) 0
               (CSolver_nDim (st_solver ?st)) ex_tria) ex_config)
            \<lparr>DHiDHj := Some D', HiHj := Some H'\<rparr>)"
    and hi: "\<forall>i. 0 \<le> i \<longrightarrow> idx' ! i = st_indexNode ?st ! i"
    and run: "StiffMatrix_elem ex_kinds ex_geometry_line ex_config 0 ?st
        = Inr \<lparr>st_solver = (st_solver ?st)
                  \<lparr>element_container := (element_container (st_solver ?st))(0 := Some
                      ((prepare_element (st_numerics ?st)
                         (with_ref_coords ex_geometry_line (elem ex_geometry_line ! 0) 0
                            (CSolver_nDim (st_solver ?st)) ex_tria) ex_config)
                         \<lparr>DHiDHj := Some D', HiHj := Some H'\<rparr>)),
                   Jacobian_ij := J',
                   Jacobian := (\<lambda>p q a b. Jacobian (st_solver ?st) p q a b +
                     (\<Sum>i<nNodes ex_tria. \<Sum>j<nNodes ex_tria.
                        if idx' ! i = p \<and> idx' ! j = q
                           \<and> a < CSolver_nDim (st_solver ?st) \<and> b < CSolver_nDim (st_solver ?st)
                        then (if a < nVar (st_solver ?st) \<and> b < nVar (st_solver ?st)
                              then contribution D' H' i j a b else Jacobian_ij ex_solver_2D a b)
                        else 0))\<rparr>,
               st_numerics = num', st_nNodes = 0, st_EL_KIND = 0, st_indexNode = idx'\<rparr>"
    by (elim exE conjE)
  from ctm have ctm': "Compute_Tangent_Matrix (CGradSmoothing_new 2) ex_tria ex_config
      = Inr (num', (prepare_element (CGradSmoothing_new 2) ex_tria ex_config)
                     \<lparr>DHiDHj := Some D', HiHj := Some H'\<rparr>)"
    by (simp add: st with_ref_coords_0)
  from ex_tria_operator ctm'
  have Dv: "\<forall>i<3. \<forall>j<3. \<forall>a<2. \<forall>b<2. D' i j a b =
           (if a = b
            then (if i = 0 then (if j = 0 then 1 else - 1 / 2)
                  else if j = 0 then - 1 / 2 else if i = j then 1 / 2 else 0)
            else 0)"
    and Hv: "\<forall>i<3. \<forall>j<3. H' i j = 1 / 18"
    by auto
  have idx: "idx' ! i = 0" if "i < 3" for i
    using hi that by (simp add: st)
  have three: "nNodes ex_tria = 3" by (simp add: ex_tria_def)
  have sum: "(\<Sum>i<3. \<Sum>j<3. if idx' ! i = 0 \<and> idx' ! j = 0
                        then contribution D' H' i j 0 0 else 0)
           = (\<Sum>i<(3::nat). \<Sum>j<(3::nat). contribution D' H' i j 0 0)"
    by (intro sum.cong refl) (simp add: idx)
  have up: "StiffMatrix_upto ex_kinds ex_geometry_line ex_config (length (elem ex_geometry_line))
              ex_solver_2D (CGradSmoothing_new 2)
            = StiffMatrix_elem ex_kinds ex_geometry_line ex_config 0 ?st"
  proof -
    have len1: "length (elem ex_geometry_line) = Suc 0" by (simp add: ex_geometry_line_def)
    show ?thesis
      unfolding StiffMatrix_upto_def len1 by (simp only: for_loop_Suc) simp
  qed
  show "\<exists>s' num'. Compute_StiffMatrix ex_kinds ex_geometry_line ex_config ex_solver_2D (CGradSmoothing_new 2)
       = Inr (s', num')
      \<and> Jacobian ex_solver_2D 0 0 0 0 = 5 \<and> Jacobian s' 0 0 0 0 = 9 / 2"
    unfolding Compute_StiffMatrix_def up run
    by (simp add: st three ex_solver_2D_fields sum ex_contribution_sum [OF Dv Hv] cong: if_cong)
next
  show "detJac_2D (Jacobian_flat
        (\<lambda>iNode iDim. Get_ValCoord ex_geometry_degenerate
                         (Node (elem ex_geometry_degenerate ! 0) iNode) iDim)
        (dNiXj ex_tria 0) 3) = 0"
    by (simp add: detJac_2D_def ad_2D_def Jacobian_flat_3 Get_ValCoord_def
          ex_geometry_degenerate_def ex_geometry_def)
next
  have alloc: "allocated (CGradSmoothing_new 2)" by (rule allocated_new)
  have nv: "nVar ex_solver_2D \<le> CSolver_nDim ex_solver_2D" by (simp add: ex_solver_2D_fields)
  have flat: "\<not> SmoothOnSurface ex_config" by (simp add: ex_config_def)
  have inf: "in_force ex_kinds ex_geometry_degenerate 0 = (3, 0)"
    by (simp add: in_force_def ex_geometry_degenerate_def tag_dispatch_def ex_kinds_def)
  have fits: "\<forall>iElem<length (elem ex_geometry_degenerate).
        handler_fits ex_solver_2D (CGradSmoothing_new 2) (in_force ex_kinds ex_geometry_degenerate iElem)
        \<and> fst (in_force ex_kinds ex_geometry_degenerate iElem)
            \<le> grid_nNodes (VTK_Type (elem ex_geometry_degenerate ! iElem))"
    by (simp add: ex_geometry_degenerate_def)
       (simp add: inf [unfolded ex_geometry_degenerate_def] ex_handler_fits grid_nNodes_def)
  show "\<exists>s' num'. Compute_StiffMatrix ex_kinds ex_geometry_degenerate ex_config ex_solver_2D
                   (CGradSmoothing_new 2) = Inr (s', num')"
    by (rule Compute_StiffMatrix_returns [OF alloc nv flat fits])
qed


subsection \<open>The right-hand side\<close>

lemma fold_indexNode:
  "fold (\<lambda>iNode indexNode. indexNode(iNode := f iNode)) [0..<n] idx
     = (\<lambda>i. if i < n then f i else idx i)"
proof (induction n)
  case 0
  show ?case by simp
next
  case (Suc n)
  show ?case
    by (simp only: fold_upt_Suc Suc) (auto simp add: less_Suc_eq intro!: ext)
qed

lemma fold_Residual:
  "fold (\<lambda>iNode R. R(d := f iNode)) [0..<Suc n] R0 = R0(d := f n)"
  by (induction n) (simp_all only: fold_upt_Suc fun_upd_upd, simp)

lemma ex_Residual_gauss:
  "Residual_gauss (elem ex_geometry ! 0) Sensitivity 3 0
     (ex_solver_rhs, (ex_locals idx d)\<lparr>rl_nNodes := 3, rl_EL_KIND := 0\<rparr>)
   = Inr (ex_solver_rhs\<lparr>Residual := (\<lambda>a. if a = d then 1 / 6 else 0),
            LinSysRes := Vec_SetBlock 2 (\<lambda>t. 0) (idx 3) (\<lambda>a. if a = d then 1 / 6 else 0)\<rparr>,
          (ex_locals idx d)\<lparr>rl_nNodes := 3, rl_EL_KIND := 0,
             rl_indexNode := (\<lambda>i. if i < 3 then i else idx i), rl_iNode := 3\<rparr>)"
proof -
  have n3: "(3::nat) = Suc 2" by simp
  have R: "fold (\<lambda>iNode R. R(d := 1 / 6)) [0..<3] (\<lambda>d. 0::real)
      = (\<lambda>a. if a = d then 1 / 6 else 0)"
    unfolding n3 fold_Residual by (auto intro!: ext)
  have nodes: "Node (elem ex_geometry ! 0) = (\<lambda>i. i)" by (simp add: ex_geometry_def)
  show ?thesis
    unfolding Residual_gauss_def Let_def prod.case
    by (simp add: fold_indexNode nodes ex_locals_def ex_solver_rhs_def ex_solver_def
          ex_tria_computed_def ex_tria_def GetWeight_def GetJ_X_def GetNi_def R)
qed

text \<open>
  Claim C5. On the mesh of one triangle with nodes 0, 1, 2, one Gauss point of weight
  \<open>1/2\<close>, Jacobian value 1, shape values \<open>1/3\<close>, a zero right-hand side and the sensitivity
  1 at every node and dimension, the specification's right-hand side has \<open>1/6\<close> at every
  entry of the three nodes; the vector entries 2 and 4 are the first components of the
  nodes 1 and 2. \<^verbatim>\<open>Compute_Residual\<close> returns, but whatever the values of \<^verbatim>\<open>indexNode\<close> and
  \<^verbatim>\<open>iDim\<close> it starts from, it leaves one of these two entries at 0: it sets the single block
  of the node \<^verbatim>\<open>indexNode[nNodes]\<close> per Gauss point instead of adding to the blocks of the
  nodes of the element.
\<close>

theorem Compute_Residual_not_projection:
  "\<forall>indexNode iDim.
     (\<exists>s' l'. Compute_Residual ex_kinds ex_geometry (\<lambda>p d. 1) ex_config
                 (ex_solver_rhs, ex_locals indexNode iDim) = Inr (s', l')
        \<and> (LinSysRes s' 2 = 0 \<or> LinSysRes s' 4 = 0))
     \<and> L2_projection_rhs ex_geometry ex_tria_computed (\<lambda>p d. 1) 2 (LinSysRes ex_solver_rhs) 2 = 1 / 6
     \<and> L2_projection_rhs ex_geometry ex_tria_computed (\<lambda>p d. 1) 2 (LinSysRes ex_solver_rhs) 4 = 1 / 6"
proof (intro allI conjI)
  fix idx :: "nat \<Rightarrow> nat" and d :: nat
  have c: "nNodes (rl_element (ex_locals idx d)) = 3" "nGaussPoints (rl_element (ex_locals idx d)) = Suc 0"
    "length (elem ex_geometry) = Suc 0"
    by (simp_all add: ex_locals_def ex_tria_computed_def ex_tria_def ex_geometry_def)
  have tag: "tag_dispatch ex_kinds (VTK_Type (elem ex_geometry ! 0))
       (rl_nNodes (ex_locals idx d), rl_EL_KIND (ex_locals idx d)) = (3, 0)"
    by (simp add: ex_geometry_def tag_dispatch_def ex_kinds_def)
  have run: "Compute_Residual ex_kinds ex_geometry (\<lambda>p d. 1) ex_config (ex_solver_rhs, ex_locals idx d)
     = Inr (ex_solver_rhs\<lparr>Residual := (\<lambda>a. if a = d then 1 / 6 else 0),
            LinSysRes := Vec_SetBlock 2 (\<lambda>t. 0) (idx 3) (\<lambda>a. if a = d then 1 / 6 else 0)\<rparr>,
          (ex_locals idx d)\<lparr>rl_nNodes := 3, rl_EL_KIND := 0,
             rl_indexNode := (\<lambda>i. if i < 3 then i else idx i), rl_iNode := 3\<rparr>)"
    unfolding Compute_Residual_def Let_def prod.case c
    by (simp only: for_loop_single upt_rec [of 0 "Suc 0"] upt_rec [of "Suc 0" "Suc 0"]
          lessI less_irrefl if_True if_False prod.case tag ex_Residual_gauss)
  have "Vec_SetBlock 2 (\<lambda>t. 0) (idx 3) (\<lambda>a. if a = d then 1 / 6 else (0::real)) 2 = 0
      \<or> Vec_SetBlock 2 (\<lambda>t. 0) (idx 3) (\<lambda>a. if a = d then 1 / 6 else (0::real)) 4 = 0"
    by (cases "idx 3 = 1") (auto simp add: Vec_SetBlock_def)
  then show "\<exists>s' l'. Compute_Residual ex_kinds ex_geometry (\<lambda>p d. 1) ex_config
                 (ex_solver_rhs, ex_locals idx d) = Inr (s', l')
        \<and> (LinSysRes s' 2 = 0 \<or> LinSysRes s' 4 = 0)"
    unfolding run by simp
next
  show "L2_projection_rhs ex_geometry ex_tria_computed (\<lambda>p d. 1) 2 (LinSysRes ex_solver_rhs) 2 = 1 / 6"
    by (simp add: L2_projection_rhs_def ex_geometry_def ex_tria_computed_def ex_tria_def
          ex_solver_rhs_def GetWeight_def GetJ_X_def GetNi_def sum_lessThan_3)
  show "L2_projection_rhs ex_geometry ex_tria_computed (\<lambda>p d. 1) 2 (LinSysRes ex_solver_rhs) 4 = 1 / 6"
    by (simp add: L2_projection_rhs_def ex_geometry_def ex_tria_computed_def ex_tria_def
          ex_solver_rhs_def GetWeight_def GetJ_X_def GetNi_def sum_lessThan_3)
qed


end
